(* ===== verification/Seccomp_Data.thy ===== *)
theory Seccomp_Data
  imports Prelude
begin

text \<open>
  The data a seccomp filter inspects and the notification structures of
  \<open>evalbox-sys/src/seccomp_notify.rs\<close>: the \<open>repr(C)\<close> structs as records, their
  layout in memory, and the ioctl numbers the code derives from their sizes.
\<close>

unbundle bit_operations_syntax

section \<open>Structs\<close>

text \<open>
  \<open>args\<close> is the fixed array of six arguments. \<open>nr\<close> is an \<open>i32\<close> and is kept as
  its bit pattern.
\<close>

record seccomp_data =
  sd_nr :: i32
  sd_arch :: u32
  sd_instruction_pointer :: u64
  sd_args :: "u64 list"

record seccomp_notif =
  sn_id :: u64
  sn_pid :: u32
  sn_flags :: u32
  sn_data :: seccomp_data

record seccomp_notif_resp =
  nr_id :: u64
  nr_val :: i64
  nr_error :: i32
  nr_flags :: u32

record seccomp_notif_addfd =
  na_id :: u64
  na_flags :: u32
  na_srcfd :: u32
  na_newfd :: u32
  na_newfd_flags :: u32

definition default_seccomp_data :: seccomp_data where
  "default_seccomp_data =
     \<lparr>sd_nr = 0, sd_arch = 0, sd_instruction_pointer = 0, sd_args = replicate 6 0\<rparr>"

definition default_seccomp_notif :: seccomp_notif where
  "default_seccomp_notif =
     \<lparr>sn_id = 0, sn_pid = 0, sn_flags = 0, sn_data = default_seccomp_data\<rparr>"

section \<open>Layout\<close>

text \<open>
  A \<open>repr(C)\<close> struct is the sequence of its fields, each aligned to its size, padded at
  the end to the largest alignment. Both supported targets are little-endian, so the lower
  half of a 64-bit field is the word at the smaller offset.
\<close>

datatype cfield = F32 | F64

fun cfield_size :: "cfield \<Rightarrow> nat" where
  "cfield_size F32 = 4"
| "cfield_size F64 = 8"

definition align_up :: "nat \<Rightarrow> nat \<Rightarrow> nat" where
  "align_up off a = ((off + a - 1) div a) * a"

fun field_offsets :: "nat \<Rightarrow> cfield list \<Rightarrow> nat list" where
  "field_offsets off [] = []"
| "field_offsets off (f # fs) =
     (let o1 = align_up off (cfield_size f)
      in o1 # field_offsets (o1 + cfield_size f) fs)"

fun struct_end :: "nat \<Rightarrow> cfield list \<Rightarrow> nat" where
  "struct_end off [] = off"
| "struct_end off (f # fs) = struct_end (align_up off (cfield_size f) + cfield_size f) fs"

definition size_of_struct :: "cfield list \<Rightarrow> nat" where
  "size_of_struct fs = align_up (struct_end 0 fs) (fold max (map cfield_size fs) 1)"

definition seccomp_data_fields :: "cfield list" where
  "seccomp_data_fields = [F32, F32, F64] @ replicate 6 F64"

definition seccomp_notif_fields :: "cfield list" where
  "seccomp_notif_fields = [F64, F32, F32] @ seccomp_data_fields"

definition seccomp_notif_resp_fields :: "cfield list" where
  "seccomp_notif_resp_fields = [F64, F64, F32, F32]"

definition seccomp_notif_addfd_fields :: "cfield list" where
  "seccomp_notif_addfd_fields = [F64, F32, F32, F32, F32]"

text \<open>The lower and upper 32 bits of a 64-bit field, and the aligned 32-bit words of the data.\<close>

definition lo32 :: "u64 \<Rightarrow> u32" where
  "lo32 w = ucast w"

definition hi32 :: "u64 \<Rightarrow> u32" where
  "hi32 w = ucast (drop_bit 32 w)"

definition u64_words :: "u64 \<Rightarrow> u32 list" where
  "u64_words w = [lo32 w, hi32 w]"

definition seccomp_data_words :: "seccomp_data \<Rightarrow> u32 list" where
  "seccomp_data_words d =
     sd_nr d # sd_arch d # u64_words (sd_instruction_pointer d)
       @ concat (map u64_words (sd_args d))"

definition seccomp_data_load :: "seccomp_data \<Rightarrow> u32 \<Rightarrow> u32 option" where
  "seccomp_data_load d k =
     (let i = unat k div 4; ws = seccomp_data_words d
      in if unat k mod 4 = 0 \<and> i < length ws then Some (ws ! i) else None)"

section \<open>Constants\<close>

definition SECCOMP_FILTER_FLAG_NEW_LISTENER :: u32 where
  [const_defs]: "SECCOMP_FILTER_FLAG_NEW_LISTENER = push_bit 3 1"

definition SECCOMP_USER_NOTIF_FLAG_CONTINUE :: u32 where
  [const_defs]: "SECCOMP_USER_NOTIF_FLAG_CONTINUE = 1"

definition SECCOMP_ADDFD_FLAG_SEND :: u32 where
  [const_defs]: "SECCOMP_ADDFD_FLAG_SEND = push_bit 0 1"

definition SECCOMP_ADDFD_FLAG_SETFD :: u32 where
  [const_defs]: "SECCOMP_ADDFD_FLAG_SETFD = push_bit 1 1"

definition SECCOMP_IOCTL_NOTIF_RECV :: u64 where
  [const_defs]: "SECCOMP_IOCTL_NOTIF_RECV = 0xc0502100"

definition SECCOMP_IOCTL_NOTIF_SEND :: u64 where
  [const_defs]: "SECCOMP_IOCTL_NOTIF_SEND = 0xc0182101"

definition SECCOMP_IOCTL_NOTIF_ID_VALID :: u64 where
  [const_defs]: "SECCOMP_IOCTL_NOTIF_ID_VALID = 0x40082102"

definition SECCOMP_IOCTL_NOTIF_ADDFD :: u64 where
  [const_defs]: "SECCOMP_IOCTL_NOTIF_ADDFD = 0x40182103"

text \<open>
  The encoding the comment above the constants names: direction, size of the argument,
  type \<open>0x21\<close> and number. \<open>SECCOMP_IOWR\<close> has direction 3, \<open>SECCOMP_IOW\<close> has
  direction 1.
\<close>

definition seccomp_io :: "nat \<Rightarrow> nat \<Rightarrow> nat \<Rightarrow> u64" where
  "seccomp_io dir nr sz =
     (push_bit 30 (of_nat dir) OR push_bit 16 (of_nat sz) OR push_bit 8 0x21 OR of_nat nr)"

section \<open>Lemmas\<close>

lemma struct_sizes:
  "size_of_struct seccomp_data_fields = 64"
  "size_of_struct seccomp_notif_fields = 80"
  "size_of_struct seccomp_notif_resp_fields = 24"
  "size_of_struct seccomp_notif_addfd_fields = 24"
  by code_simp+

lemma seccomp_data_offsets:
  "field_offsets 0 seccomp_data_fields = [0, 4, 8, 16, 24, 32, 40, 48, 56]"
  by code_simp

lemma seccomp_data_load_simps [simp]:
  "seccomp_data_load d 0 = Some (sd_nr d)"
  "seccomp_data_load d 4 = Some (sd_arch d)"
  by (simp_all add: seccomp_data_load_def seccomp_data_words_def)

lemma seccomp_data_load_args [simp]:
  "sd_args d = a0 # a1 # as \<Longrightarrow> seccomp_data_load d 16 = Some (lo32 a0)"
  "sd_args d = a0 # a1 # as \<Longrightarrow> seccomp_data_load d 24 = Some (lo32 a1)"
  by (simp_all add: seccomp_data_load_def seccomp_data_words_def u64_words_def)

text \<open>
  The three notification ioctls carry the size of the struct they pass, as the kernel
  checks it.
\<close>

lemma seccomp_ioctl_numbers:
  "SECCOMP_IOCTL_NOTIF_RECV = seccomp_io 3 0 (size_of_struct seccomp_notif_fields)"
  "SECCOMP_IOCTL_NOTIF_SEND = seccomp_io 3 1 (size_of_struct seccomp_notif_resp_fields)"
  "SECCOMP_IOCTL_NOTIF_ID_VALID = seccomp_io 1 2 (size_of_struct [F64])"
  "SECCOMP_IOCTL_NOTIF_ADDFD = seccomp_io 1 3 (size_of_struct seccomp_notif_addfd_fields)"
  by (simp_all only: struct_sizes) code_simp+

end
