(* ===== verification/Seccomp_Filter.thy ===== *)
theory Seccomp_Filter
  imports Seccomp_Data
begin

text \<open>
  \<open>evalbox-sys/src/seccomp.rs\<close>: the whitelist and notify filters. The code emits a
  classic BPF program; the kernel runs it on every system call of the sandboxed process.
  The emitted program is modelled instruction by instruction. The kernel's interpreter is
  not part of the repository: it is the parameter \<open>run\<close> of the locale
  \<open>bpf_machine\<close>, whose assumptions are the documented meaning of the five instructions
  the code uses. \<open>libc\<close>'s syscall numbers are the parameter \<open>SYS\<close>.
\<close>

unbundle bit_operations_syntax

section \<open>Constants\<close>

definition SECCOMP_RET_KILL_PROCESS :: u32 where
  [const_defs]: "SECCOMP_RET_KILL_PROCESS = 0x80000000"
definition SECCOMP_RET_USER_NOTIF :: u32 where
  [const_defs]: "SECCOMP_RET_USER_NOTIF = 0x7fc00000"
definition SECCOMP_RET_ALLOW :: u32 where
  [const_defs]: "SECCOMP_RET_ALLOW = 0x7fff0000"
definition SECCOMP_RET_ERRNO_ENOSYS :: u32 where
  [const_defs]: "SECCOMP_RET_ERRNO_ENOSYS = 0x00050000 OR 38"

definition BPF_LD :: u16 where [const_defs]: "BPF_LD = 0x00"
definition BPF_JMP :: u16 where [const_defs]: "BPF_JMP = 0x05"
definition BPF_RET :: u16 where [const_defs]: "BPF_RET = 0x06"
definition BPF_W :: u16 where [const_defs]: "BPF_W = 0x00"
definition BPF_ABS :: u16 where [const_defs]: "BPF_ABS = 0x20"
definition BPF_JEQ :: u16 where [const_defs]: "BPF_JEQ = 0x10"
definition BPF_JSET :: u16 where [const_defs]: "BPF_JSET = 0x40"
definition BPF_K :: u16 where [const_defs]: "BPF_K = 0x00"
definition BPF_ALU :: u16 where [const_defs]: "BPF_ALU = 0x04"
definition BPF_AND :: u16 where [const_defs]: "BPF_AND = 0x50"

text \<open>The two compilation targets of the \<open>cfg(target_arch)\<close> attributes.\<close>

datatype target_arch = X86_64 | Aarch64

fun AUDIT_ARCH :: "target_arch \<Rightarrow> u32" where
  "AUDIT_ARCH X86_64 = 0xc000003e"
| "AUDIT_ARCH Aarch64 = 0xc00000b7"

definition OFFSET_SYSCALL_NR :: u32 where [const_defs]: "OFFSET_SYSCALL_NR = 0"
definition OFFSET_ARCH :: u32 where [const_defs]: "OFFSET_ARCH = 4"
definition OFFSET_ARGS_0 :: u32 where [const_defs]: "OFFSET_ARGS_0 = 16"
definition OFFSET_ARGS_1 :: u32 where [const_defs]: "OFFSET_ARGS_1 = 24"

definition CLONE_NEWNS :: u32 where [const_defs]: "CLONE_NEWNS = 0x00020000"
definition CLONE_NEWCGROUP :: u32 where [const_defs]: "CLONE_NEWCGROUP = 0x02000000"
definition CLONE_NEWUTS :: u32 where [const_defs]: "CLONE_NEWUTS = 0x04000000"
definition CLONE_NEWIPC :: u32 where [const_defs]: "CLONE_NEWIPC = 0x08000000"
definition CLONE_NEWUSER :: u32 where [const_defs]: "CLONE_NEWUSER = 0x10000000"
definition CLONE_NEWPID :: u32 where [const_defs]: "CLONE_NEWPID = 0x20000000"
definition CLONE_NEWNET :: u32 where [const_defs]: "CLONE_NEWNET = 0x40000000"

definition BLOCKED_CLONE_FLAGS :: u32 where
  [const_defs]: "BLOCKED_CLONE_FLAGS =
     CLONE_NEWNS OR CLONE_NEWCGROUP OR CLONE_NEWUTS OR CLONE_NEWIPC OR CLONE_NEWUSER
       OR CLONE_NEWPID OR CLONE_NEWNET"

definition AF_NETLINK :: u32 where [const_defs]: "AF_NETLINK = 16"
definition SOCK_RAW :: u32 where [const_defs]: "SOCK_RAW = 3"
definition TIOCSTI :: u32 where [const_defs]: "TIOCSTI = 0x5412"
definition TIOCSETD :: u32 where [const_defs]: "TIOCSETD = 0x5423"
definition TIOCLINUX :: u32 where [const_defs]: "TIOCLINUX = 0x541C"

definition MAX_WHITELIST_SIZE :: nat where "MAX_WHITELIST_SIZE = 200"

section \<open>Instructions\<close>

record sock_filter =
  sf_code :: u16
  sf_jt :: u8
  sf_jf :: u8
  sf_k :: u32

definition stmt :: "u16 \<Rightarrow> u32 \<Rightarrow> sock_filter" where
  "stmt code k = \<lparr>sf_code = code, sf_jt = 0, sf_jf = 0, sf_k = k\<rparr>"

definition jump :: "u16 \<Rightarrow> u32 \<Rightarrow> u8 \<Rightarrow> u8 \<Rightarrow> sock_filter" where
  "jump code k jt jf = \<lparr>sf_code = code, sf_jt = jt, sf_jf = jf, sf_k = k\<rparr>"

record sock_fprog =
  fp_len :: u16
  fp_filter :: "sock_filter list"

section \<open>Whitelists\<close>

text \<open>
  \<open>SYS name\<close> is the constant \<open>libc::SYS_name\<close> of the target.
\<close>

type_synonym sysno = "string \<Rightarrow> i64"

definition BASE_WHITELIST :: "string list" where
  "BASE_WHITELIST =
   [    ''read'', ''write'', ''close'', ''futex'', ''mmap'', ''mprotect'', ''munmap'', ''brk'',
    ''rt_sigaction'', ''rt_sigprocmask'', ''rt_sigreturn'', ''openat'', ''lseek'',
    ''close_range'', ''pread64'', ''pwrite64'', ''readv'', ''writev'', ''preadv'', ''pwritev'',
    ''preadv2'', ''pwritev2'', ''dup'', ''dup3'', ''fcntl'', ''flock'', ''fsync'',
    ''fdatasync'', ''ftruncate'', ''fadvise64'', ''pipe2'', ''ppoll'', ''pselect6'',
    ''sendfile'', ''copy_file_range'', ''splice'', ''tee'', ''mremap'', ''msync'', ''mincore'',
    ''madvise'', ''membarrier'', ''mlock'', ''mlock2'', ''munlock'', ''mlockall'',
    ''munlockall'', ''getpid'', ''getppid'', ''gettid'', ''getuid'', ''getgid'', ''geteuid'',
    ''getegid'', ''getresuid'', ''getresgid'', ''getgroups'', ''getsid'', ''uname'',
    ''getrusage'', ''times'', ''sysinfo'', ''clock_gettime'', ''clock_getres'',
    ''clock_nanosleep'', ''gettimeofday'', ''nanosleep'', ''unlinkat'', ''renameat'',
    ''renameat2'', ''mkdirat'', ''symlinkat'', ''linkat'', ''fchmod'', ''fchmodat'',
    ''fchown'', ''fchownat'', ''utimensat'', ''faccessat'', ''faccessat2'', ''newfstatat'',
    ''statfs'', ''fstatfs'', ''statx'', ''getdents64'', ''getcwd'', ''chdir'', ''fchdir'',
    ''readlinkat'', ''rt_sigsuspend'', ''rt_sigpending'', ''rt_sigtimedwait'', ''sigaltstack'',
    ''kill'', ''tgkill'', ''tkill'', ''execve'', ''exit'', ''exit_group'', ''wait4'',
    ''waitid'', ''set_tid_address'', ''get_robust_list'', ''set_robust_list'', ''sched_yield'',
    ''sched_getaffinity'', ''sched_setaffinity'', ''sched_getparam'', ''sched_setparam'',
    ''sched_getscheduler'', ''sched_get_priority_max'', ''sched_get_priority_min'', ''prctl'',
    ''getrandom'', ''prlimit64'', ''rseq'', ''ioprio_get'', ''eventfd2'', ''epoll_create1'',
    ''epoll_ctl'', ''epoll_pwait'', ''epoll_pwait2'', ''timerfd_create'', ''timerfd_settime'',
    ''timerfd_gettime'', ''signalfd4'', ''socketpair'', ''connect'', ''bind'', ''listen'',
    ''accept'', ''accept4'', ''getsockname'', ''getpeername'', ''sendto'', ''recvfrom'',
    ''setsockopt'', ''getsockopt'', ''shutdown'', ''sendmsg'', ''recvmsg'', ''sendmmsg'',
    ''recvmmsg'']"

fun LEGACY_WHITELIST :: "target_arch \<Rightarrow> string list" where
  "LEGACY_WHITELIST X86_64 =
   [    ''fstat'', ''dup2'', ''access'', ''pipe'', ''select'', ''poll'', ''open'', ''creat'',
    ''unlink'', ''rename'', ''mkdir'', ''rmdir'', ''symlink'', ''link'', ''chmod'', ''chown'',
    ''lchown'', ''stat'', ''lstat'', ''getdents'', ''readlink'', ''fork'', ''vfork'',
    ''getpgrp'', ''arch_prctl'', ''eventfd'', ''epoll_create'', ''epoll_wait'', ''signalfd'']"
| "LEGACY_WHITELIST Aarch64 = []"

definition default_whitelist :: "target_arch \<Rightarrow> sysno \<Rightarrow> i64 list" where
  "default_whitelist tgt SYS = map SYS (BASE_WHITELIST @ LEGACY_WHITELIST tgt)"

definition BASE_NOTIFY_FS_SYSCALLS :: "string list" where
  "BASE_NOTIFY_FS_SYSCALLS =
   [    ''openat'', ''faccessat'', ''faccessat2'', ''newfstatat'', ''statx'', ''readlinkat'']"

fun LEGACY_NOTIFY_FS_SYSCALLS :: "target_arch \<Rightarrow> string list" where
  "LEGACY_NOTIFY_FS_SYSCALLS X86_64 =
   [    ''open'', ''creat'', ''access'', ''stat'', ''lstat'', ''readlink'']"
| "LEGACY_NOTIFY_FS_SYSCALLS Aarch64 = []"

definition notify_fs_syscalls :: "target_arch \<Rightarrow> sysno \<Rightarrow> i64 list" where
  "notify_fs_syscalls tgt SYS =
     map SYS (BASE_NOTIFY_FS_SYSCALLS @ LEGACY_NOTIFY_FS_SYSCALLS tgt)"

section \<open>The whitelist filter\<close>

text \<open>
  The pushes of \<open>build_whitelist_filter\<close> in order, grouped as its comments group them.
  Jump offsets are computed in \<open>usize\<close> and cast with \<open>as u8\<close>, which truncates:
  \<open>of_nat\<close> into an 8-bit word. The syscall numbers are cast with \<open>as u32\<close>:
  \<open>ucast\<close>.
\<close>

definition arch_check :: "target_arch \<Rightarrow> u32 \<Rightarrow> sock_filter list" where
  "arch_check tgt mismatch =
    [stmt (BPF_LD OR BPF_W OR BPF_ABS) OFFSET_ARCH,
     jump (BPF_JMP OR BPF_JEQ OR BPF_K) (AUDIT_ARCH tgt) 1 0,
     stmt (BPF_RET OR BPF_K) mismatch,
     stmt (BPF_LD OR BPF_W OR BPF_ABS) OFFSET_SYSCALL_NR]"

definition special_checks :: "sysno \<Rightarrow> nat \<Rightarrow> sock_filter list" where
  "special_checks SYS n =
    [jump (BPF_JMP OR BPF_JEQ OR BPF_K) (ucast (SYS ''clone3'')) (of_nat (3 + n + 2)) 0,
     jump (BPF_JMP OR BPF_JEQ OR BPF_K) (ucast (SYS ''clone'')) (of_nat (2 + n + 3)) 0,
     jump (BPF_JMP OR BPF_JEQ OR BPF_K) (ucast (SYS ''socket'')) (of_nat (1 + n + 3 + 4)) 0,
     jump (BPF_JMP OR BPF_JEQ OR BPF_K) (ucast (SYS ''ioctl'')) (of_nat (n + 3 + 4 + 7)) 0]"

definition list_checks :: "i64 list \<Rightarrow> sock_filter list" where
  "list_checks syscalls =
     map (\<lambda>(i, nr). jump (BPF_JMP OR BPF_JEQ OR BPF_K) (ucast nr)
                          (of_nat (length syscalls - i)) 0)
         (enumerate 0 syscalls)"

definition whitelist_verdicts :: "sock_filter list" where
  "whitelist_verdicts =
    [stmt (BPF_RET OR BPF_K) SECCOMP_RET_KILL_PROCESS,
     stmt (BPF_RET OR BPF_K) SECCOMP_RET_ALLOW,
     stmt (BPF_RET OR BPF_K) SECCOMP_RET_ERRNO_ENOSYS]"

definition clone_handler :: "sock_filter list" where
  "clone_handler =
    [stmt (BPF_LD OR BPF_W OR BPF_ABS) OFFSET_ARGS_0,
     jump (BPF_JMP OR BPF_JSET OR BPF_K) BLOCKED_CLONE_FLAGS 1 0,
     stmt (BPF_RET OR BPF_K) SECCOMP_RET_ALLOW,
     stmt (BPF_RET OR BPF_K) SECCOMP_RET_KILL_PROCESS]"

definition socket_handler :: "sock_filter list" where
  "socket_handler =
    [stmt (BPF_LD OR BPF_W OR BPF_ABS) OFFSET_ARGS_0,
     jump (BPF_JMP OR BPF_JEQ OR BPF_K) AF_NETLINK 4 0,
     stmt (BPF_LD OR BPF_W OR BPF_ABS) OFFSET_ARGS_1,
     stmt (BPF_ALU OR BPF_AND OR BPF_K) 0xF,
     jump (BPF_JMP OR BPF_JEQ OR BPF_K) SOCK_RAW 1 0,
     stmt (BPF_RET OR BPF_K) SECCOMP_RET_ALLOW,
     stmt (BPF_RET OR BPF_K) SECCOMP_RET_KILL_PROCESS]"

definition ioctl_handler :: "sock_filter list" where
  "ioctl_handler =
    [stmt (BPF_LD OR BPF_W OR BPF_ABS) OFFSET_ARGS_1,
     jump (BPF_JMP OR BPF_JEQ OR BPF_K) TIOCSTI 3 0,
     jump (BPF_JMP OR BPF_JEQ OR BPF_K) TIOCSETD 2 0,
     jump (BPF_JMP OR BPF_JEQ OR BPF_K) TIOCLINUX 1 0,
     stmt (BPF_RET OR BPF_K) SECCOMP_RET_ALLOW,
     stmt (BPF_RET OR BPF_K) SECCOMP_RET_KILL_PROCESS]"

definition build_whitelist_filter ::
  "target_arch \<Rightarrow> sysno \<Rightarrow> i64 list \<Rightarrow> panic + sock_filter list" where
  "build_whitelist_filter tgt SYS syscalls =
    (if \<not> length syscalls \<le> MAX_WHITELIST_SIZE then Inl (Panic ''whitelist too large'')
     else
       (let n = length syscalls
        in Inr (arch_check tgt SECCOMP_RET_KILL_PROCESS @ special_checks SYS n
                @ list_checks syscalls @ whitelist_verdicts
                @ clone_handler @ socket_handler @ ioctl_handler)))"

section \<open>The notify filter\<close>

definition notify_verdicts :: "sock_filter list" where
  "notify_verdicts =
    [stmt (BPF_RET OR BPF_K) SECCOMP_RET_ALLOW,
     stmt (BPF_RET OR BPF_K) SECCOMP_RET_USER_NOTIF]"

definition build_notify_filter ::
  "target_arch \<Rightarrow> i64 list \<Rightarrow> panic + sock_filter list" where
  "build_notify_filter tgt syscalls =
    (if \<not> length syscalls \<le> MAX_WHITELIST_SIZE then Inl (Panic ''notify syscall list too large'')
     else Inr (arch_check tgt SECCOMP_RET_ALLOW @ list_checks syscalls @ notify_verdicts))"

end
