(* ===== verification/Landlock_Rules.thy ===== *)
theory Landlock_Rules
  imports Prelude
begin

text \<open>
  \<open>evalbox-sys/src/landlock.rs\<close>: the access right bits, the two structs passed to the
  kernel, and the rights the code handles for each Landlock ABI version. The system call
  wrappers of the same file are in \<open>Sys_Calls\<close>.
\<close>

unbundle bit_operations_syntax

named_theorems landlock_bits \<open>the access right constants\<close>

section \<open>Access rights\<close>

definition LANDLOCK_ACCESS_FS_EXECUTE :: u64 where
  [landlock_bits]: "LANDLOCK_ACCESS_FS_EXECUTE = push_bit 0 1"
definition LANDLOCK_ACCESS_FS_WRITE_FILE :: u64 where
  [landlock_bits]: "LANDLOCK_ACCESS_FS_WRITE_FILE = push_bit 1 1"
definition LANDLOCK_ACCESS_FS_READ_FILE :: u64 where
  [landlock_bits]: "LANDLOCK_ACCESS_FS_READ_FILE = push_bit 2 1"
definition LANDLOCK_ACCESS_FS_READ_DIR :: u64 where
  [landlock_bits]: "LANDLOCK_ACCESS_FS_READ_DIR = push_bit 3 1"
definition LANDLOCK_ACCESS_FS_REMOVE_DIR :: u64 where
  [landlock_bits]: "LANDLOCK_ACCESS_FS_REMOVE_DIR = push_bit 4 1"
definition LANDLOCK_ACCESS_FS_REMOVE_FILE :: u64 where
  [landlock_bits]: "LANDLOCK_ACCESS_FS_REMOVE_FILE = push_bit 5 1"
definition LANDLOCK_ACCESS_FS_MAKE_CHAR :: u64 where
  [landlock_bits]: "LANDLOCK_ACCESS_FS_MAKE_CHAR = push_bit 6 1"
definition LANDLOCK_ACCESS_FS_MAKE_DIR :: u64 where
  [landlock_bits]: "LANDLOCK_ACCESS_FS_MAKE_DIR = push_bit 7 1"
definition LANDLOCK_ACCESS_FS_MAKE_REG :: u64 where
  [landlock_bits]: "LANDLOCK_ACCESS_FS_MAKE_REG = push_bit 8 1"
definition LANDLOCK_ACCESS_FS_MAKE_SOCK :: u64 where
  [landlock_bits]: "LANDLOCK_ACCESS_FS_MAKE_SOCK = push_bit 9 1"
definition LANDLOCK_ACCESS_FS_MAKE_FIFO :: u64 where
  [landlock_bits]: "LANDLOCK_ACCESS_FS_MAKE_FIFO = push_bit 10 1"
definition LANDLOCK_ACCESS_FS_MAKE_BLOCK :: u64 where
  [landlock_bits]: "LANDLOCK_ACCESS_FS_MAKE_BLOCK = push_bit 11 1"
definition LANDLOCK_ACCESS_FS_MAKE_SYM :: u64 where
  [landlock_bits]: "LANDLOCK_ACCESS_FS_MAKE_SYM = push_bit 12 1"
definition LANDLOCK_ACCESS_FS_REFER :: u64 where
  [landlock_bits]: "LANDLOCK_ACCESS_FS_REFER = push_bit 13 1"
definition LANDLOCK_ACCESS_FS_TRUNCATE :: u64 where
  [landlock_bits]: "LANDLOCK_ACCESS_FS_TRUNCATE = push_bit 14 1"
definition LANDLOCK_ACCESS_FS_IOCTL_DEV :: u64 where
  [landlock_bits]: "LANDLOCK_ACCESS_FS_IOCTL_DEV = push_bit 15 1"

definition LANDLOCK_ACCESS_NET_BIND_TCP :: u64 where
  [landlock_bits]: "LANDLOCK_ACCESS_NET_BIND_TCP = push_bit 0 1"
definition LANDLOCK_ACCESS_NET_CONNECT_TCP :: u64 where
  [landlock_bits]: "LANDLOCK_ACCESS_NET_CONNECT_TCP = push_bit 1 1"

definition LANDLOCK_SCOPE_ABSTRACT_UNIX_SOCKET :: u64 where
  [landlock_bits]: "LANDLOCK_SCOPE_ABSTRACT_UNIX_SOCKET = push_bit 0 1"
definition LANDLOCK_SCOPE_SIGNAL :: u64 where
  [landlock_bits]: "LANDLOCK_SCOPE_SIGNAL = push_bit 1 1"

record landlock_ruleset_attr =
  handled_access_fs :: u64
  handled_access_net :: u64
  scoped :: u64

record landlock_path_beneath_attr =
  allowed_access :: u64
  parent_fd :: int

section \<open>Rights per ABI version\<close>

definition fs_access_base :: u64 where
  [landlock_bits]: "fs_access_base =
     LANDLOCK_ACCESS_FS_EXECUTE OR LANDLOCK_ACCESS_FS_WRITE_FILE OR LANDLOCK_ACCESS_FS_READ_FILE
     OR LANDLOCK_ACCESS_FS_READ_DIR OR LANDLOCK_ACCESS_FS_REMOVE_DIR
     OR LANDLOCK_ACCESS_FS_REMOVE_FILE OR LANDLOCK_ACCESS_FS_MAKE_CHAR
     OR LANDLOCK_ACCESS_FS_MAKE_DIR OR LANDLOCK_ACCESS_FS_MAKE_REG
     OR LANDLOCK_ACCESS_FS_MAKE_SOCK OR LANDLOCK_ACCESS_FS_MAKE_FIFO
     OR LANDLOCK_ACCESS_FS_MAKE_BLOCK OR LANDLOCK_ACCESS_FS_MAKE_SYM"

definition fs_access_for_abi :: "u32 \<Rightarrow> u64" where
  "fs_access_for_abi abi =
    (let access = fs_access_base;
         access = (if abi \<ge> 2 then access OR LANDLOCK_ACCESS_FS_REFER else access);
         access = (if abi \<ge> 3 then access OR LANDLOCK_ACCESS_FS_TRUNCATE else access);
         access = (if abi \<ge> 4 then access OR LANDLOCK_ACCESS_FS_IOCTL_DEV else access)
     in access)"

definition net_access_for_abi :: "u32 \<Rightarrow> u64" where
  "net_access_for_abi abi =
    (if abi \<ge> 4 then LANDLOCK_ACCESS_NET_BIND_TCP OR LANDLOCK_ACCESS_NET_CONNECT_TCP else 0)"

definition scope_for_abi :: "u32 \<Rightarrow> u64" where
  "scope_for_abi abi =
    (if abi \<ge> 5 then LANDLOCK_SCOPE_ABSTRACT_UNIX_SOCKET OR LANDLOCK_SCOPE_SIGNAL else 0)"

section \<open>The rights the sandbox grants\<close>

text \<open>
  The two masks \<open>apply_landlock_v5\<close> in \<open>isolation/lockdown.rs\<close> builds its rules from.
\<close>

definition read_access :: u64 where
  [landlock_bits]: "read_access =
     LANDLOCK_ACCESS_FS_EXECUTE OR LANDLOCK_ACCESS_FS_READ_FILE OR LANDLOCK_ACCESS_FS_READ_DIR"

definition write_access :: u64 where
  [landlock_bits]: "write_access =
     read_access OR LANDLOCK_ACCESS_FS_WRITE_FILE OR LANDLOCK_ACCESS_FS_MAKE_REG
     OR LANDLOCK_ACCESS_FS_MAKE_DIR OR LANDLOCK_ACCESS_FS_MAKE_SYM
     OR LANDLOCK_ACCESS_FS_MAKE_FIFO OR LANDLOCK_ACCESS_FS_REMOVE_FILE
     OR LANDLOCK_ACCESS_FS_REMOVE_DIR OR LANDLOCK_ACCESS_FS_TRUNCATE"

text \<open>One set of rights within another.\<close>

definition subrights :: "u64 \<Rightarrow> u64 \<Rightarrow> bool" where
  "subrights a b \<longleftrightarrow> a AND b = a"

section \<open>Lemmas\<close>

lemma subrights_refl [simp]: "subrights a a"
  by (simp add: subrights_def)

lemma subrights_or: "subrights a b \<Longrightarrow> subrights a (b OR c)"
  by (auto simp: subrights_def bit_eq_iff bit_simps)

lemma subrights_trans: "subrights a b \<Longrightarrow> subrights b c \<Longrightarrow> subrights a c"
  unfolding subrights_def by (metis and.assoc)

lemma fs_access_values:
  "abi < 2 \<Longrightarrow> fs_access_for_abi abi = 0x1fff"
  "2 \<le> abi \<Longrightarrow> abi < 3 \<Longrightarrow> fs_access_for_abi abi = 0x3fff"
  "3 \<le> abi \<Longrightarrow> abi < 4 \<Longrightarrow> fs_access_for_abi abi = 0x7fff"
  "4 \<le> abi \<Longrightarrow> fs_access_for_abi abi = 0xffff"
proof -
  have abi_cases: "(abi < 2 \<longrightarrow> \<not> 3 \<le> abi \<and> \<not> 4 \<le> abi) \<and> (abi < 3 \<longrightarrow> \<not> 4 \<le> abi)
      \<and> (3 \<le> abi \<longrightarrow> 2 \<le> abi) \<and> (4 \<le> abi \<longrightarrow> 3 \<le> abi)"
    by (auto simp: word_le_nat_alt word_less_nat_alt)
  show "abi < 2 \<Longrightarrow> fs_access_for_abi abi = 0x1fff"
    "2 \<le> abi \<Longrightarrow> abi < 3 \<Longrightarrow> fs_access_for_abi abi = 0x3fff"
    "3 \<le> abi \<Longrightarrow> abi < 4 \<Longrightarrow> fs_access_for_abi abi = 0x7fff"
    "4 \<le> abi \<Longrightarrow> fs_access_for_abi abi = 0xffff"
    using abi_cases by (simp_all add: fs_access_for_abi_def landlock_bits)
qed

lemma grant_values: "read_access = 0xd" "write_access = 0x55bf"
  by (simp_all add: landlock_bits)

lemma net_access_values:
  "abi < 4 \<Longrightarrow> net_access_for_abi abi = 0" "4 \<le> abi \<Longrightarrow> net_access_for_abi abi = 3"
  by (simp_all add: net_access_for_abi_def landlock_bits)

lemma scope_values:
  "abi < 5 \<Longrightarrow> scope_for_abi abi = 0" "5 \<le> abi \<Longrightarrow> scope_for_abi abi = 3"
  by (simp_all add: scope_for_abi_def landlock_bits)

text \<open>
  The kernel refuses a rule whose rights are not among the handled ones. From ABI 3 on, both
  masks are; below it, the write mask asks for \<open>TRUNCATE\<close>, which is not handled.
\<close>

lemma grants_handled:
  "subrights read_access (fs_access_for_abi abi)"
  "3 \<le> abi \<Longrightarrow> subrights write_access (fs_access_for_abi abi)"
  "abi < 3 \<Longrightarrow> \<not> subrights write_access (fs_access_for_abi abi)"
proof -
  consider "abi < 2" | "2 \<le> abi" "abi < 3" | "3 \<le> abi" "abi < 4" | "4 \<le> abi" by fastforce
  note cases = this
  show "subrights read_access (fs_access_for_abi abi)"
    by (rule cases) (simp_all add: subrights_def fs_access_values grant_values)
  show "3 \<le> abi \<Longrightarrow> subrights write_access (fs_access_for_abi abi)"
    by (cases "abi < 4") (simp_all add: subrights_def fs_access_values grant_values)
  show "abi < 3 \<Longrightarrow> \<not> subrights write_access (fs_access_for_abi abi)"
    by (cases "abi < 2") (simp_all add: subrights_def fs_access_values grant_values)
qed

end
