(* ===== verification/Std_Path.thy ===== *)
theory Std_Path
  imports Prelude "HOL-Library.Sublist"
begin

text \<open>
  The part of Rust's \<open>std::path\<close> (Unix) and \<open>str\<close> that the crates use, on paths as byte
  strings: components, join, \<open>strip_prefix\<close>, \<open>starts_with\<close>, \<open>parent\<close>. Paths compare
  by their components, as \<open>PathBuf\<close> does.
\<close>

section \<open>Strings\<close>

type_synonym path = string

fun split_char :: "char \<Rightarrow> string \<Rightarrow> string list" where
  "split_char c [] = [[]]"
| "split_char c (x # xs) =
    (if x = c then [] # split_char c xs
     else (case split_char c xs of [] \<Rightarrow> [[x]] | w # ws \<Rightarrow> (x # w) # ws))"

fun join_with :: "string \<Rightarrow> string list \<Rightarrow> string" where
  "join_with sep [] = []"
| "join_with sep [w] = w"
| "join_with sep (w # ws) = w @ sep @ join_with sep ws"

definition has_nul :: "string \<Rightarrow> bool" where
  "has_nul s \<longleftrightarrow> CHR 0x00 \<in> set s"

text \<open>\<open>str::contains\<close>.\<close>

fun str_contains :: "string \<Rightarrow> string \<Rightarrow> bool" where
  "str_contains pat [] = (pat = [])"
| "str_contains pat (c # s) = (prefix pat (c # s) \<or> str_contains pat s)"

section \<open>Components\<close>

datatype component = RootDir | CurDir | ParentDir | Normal string

abbreviation slash :: char where
  "slash \<equiv> CHR ''/''"

definition segments :: "path \<Rightarrow> string list" where
  "segments p = split_char slash p"

definition skipped :: "string \<Rightarrow> bool" where
  "skipped s \<longleftrightarrow> s = [] \<or> s = ''.''"

definition seg_component :: "string \<Rightarrow> component" where
  "seg_component s = (if s = ''..'' then ParentDir else Normal s)"

definition body_components :: "string list \<Rightarrow> component list" where
  "body_components ss = map seg_component (filter (\<lambda>s. \<not> skipped s) ss)"

definition is_absolute :: "path \<Rightarrow> bool" where
  "is_absolute p \<longleftrightarrow> prefix [slash] p"

definition components :: "path \<Rightarrow> component list" where
  "components p =
    (if is_absolute p then [RootDir]
     else if hd (segments p) = ''.'' then [CurDir] else [])
    @ body_components (segments p)"

definition path_eq :: "path \<Rightarrow> path \<Rightarrow> bool" where
  "path_eq p q \<longleftrightarrow> components p = components q"

definition path_starts_with :: "path \<Rightarrow> path \<Rightarrow> bool" where
  "path_starts_with p q \<longleftrightarrow> prefix (components q) (components p)"

definition path_ends_with :: "path \<Rightarrow> path \<Rightarrow> bool" where
  "path_ends_with p q \<longleftrightarrow> suffix (components q) (components p)"

text \<open>\<open>PathBuf::push\<close> and \<open>Path::join\<close>: an absolute argument replaces the path.\<close>

definition path_join :: "path \<Rightarrow> path \<Rightarrow> path" where
  "path_join base p =
    (if is_absolute p then p
     else if base \<noteq> [] \<and> last base \<noteq> slash then base @ [slash] @ p
     else base @ p)"

text \<open>
  \<open>strip_prefix\<close> consumes the components of the prefix and returns what is left of the
  path, without the separators and dots at either end.
\<close>

fun drop_segments :: "nat \<Rightarrow> string list \<Rightarrow> string list" where
  "drop_segments n [] = []"
| "drop_segments n (s # ss) =
    (if skipped s then drop_segments n ss
     else (case n of 0 \<Rightarrow> s # ss | Suc m \<Rightarrow> drop_segments m ss))"

definition trim_right :: "string list \<Rightarrow> string list" where
  "trim_right ss = rev (dropWhile skipped (rev ss))"

definition in_body :: "component \<Rightarrow> bool" where
  "in_body c \<longleftrightarrow> c \<noteq> RootDir \<and> c \<noteq> CurDir"

definition path_front :: "path \<Rightarrow> string" where
  "path_front p =
    (if is_absolute p then [slash]
     else if hd (segments p) = ''.'' then ''.'' else [])"

definition path_body :: "path \<Rightarrow> string list" where
  "path_body p = (if path_front p = [] then segments p else tl (segments p))"

definition from_parts :: "string \<Rightarrow> string list \<Rightarrow> path" where
  "from_parts front body =
    (if front = ''.'' \<and> body \<noteq> [] then front @ [slash] @ join_with [slash] body
     else front @ join_with [slash] body)"

definition strip_prefix :: "path \<Rightarrow> path \<Rightarrow> path option" where
  "strip_prefix p q =
    (if \<not> path_starts_with p q then None
     else if components q = [] then Some (from_parts (path_front p) (trim_right (path_body p)))
     else Some (join_with [slash]
            (trim_right (drop_segments (length (filter in_body (components q))) (segments p)))))"

definition path_parent :: "path \<Rightarrow> path option" where
  "path_parent p =
    (if components p = [] \<or> last (components p) = RootDir then None
     else if last (components p) = CurDir then Some []
     else Some (from_parts (path_front p)
            (trim_right (butlast (trim_right (path_body p))))))"

text \<open>
  What a path means to the kernel when no component is a symbolic link: \<open>..\<close> removes the
  last name, and has no effect at the root.
\<close>

fun resolve_from :: "string list \<Rightarrow> component list \<Rightarrow> string list" where
  "resolve_from at [] = at"
| "resolve_from at (RootDir # cs) = resolve_from [] cs"
| "resolve_from at (CurDir # cs) = resolve_from at cs"
| "resolve_from at (ParentDir # cs) = resolve_from (butlast at) cs"
| "resolve_from at (Normal s # cs) = resolve_from (at @ [s]) cs"

definition resolve :: "path \<Rightarrow> string list" where
  "resolve p = resolve_from [] (components p)"

section \<open>Lemmas\<close>

lemma split_char_ne [simp]: "split_char c xs \<noteq> []"
  by (induction xs) (auto split: list.splits)

lemma split_char_append:
  "split_char c (xs @ c # ys) = split_char c xs @ split_char c ys"
  by (induction xs) (auto split: list.splits)

lemma join_split: "join_with [c] (split_char c xs) = xs"
proof (induction xs)
  case Nil
  then show ?case by simp
next
  case (Cons x xs)
  obtain w ws where w: "split_char c xs = w # ws"
    by (meson list.exhaust split_char_ne)
  with Cons show ?case by (cases ws) auto
qed

lemma segments_Nil [simp]: "segments [] = [[]]"
  by (simp add: segments_def)

lemma split_no_sep: "w \<in> set (split_char c xs) \<Longrightarrow> c \<notin> set w"
  by (induction xs arbitrary: w) (auto split: if_splits list.splits)

lemma hd_split_absolute: "is_absolute p \<longleftrightarrow> hd (segments p) = [] \<and> p \<noteq> []"
  by (cases p) (auto simp: is_absolute_def segments_def split: list.splits)

lemma body_components_append [simp]:
  "body_components (xs @ ys) = body_components xs @ body_components ys"
  by (simp add: body_components_def)

lemma body_components_skipped [simp]: "body_components [[]] = []"
  by (simp add: body_components_def skipped_def)

lemma body_no_root [simp]:
  "RootDir \<notin> set (body_components ss)" "CurDir \<notin> set (body_components ss)"
  by (auto simp: body_components_def seg_component_def)

lemma components_append_slash:
  assumes "b \<noteq> []"
  shows "components (b @ slash # p) = components b @ body_components (segments p)"
proof -
  have s: "segments (b @ slash # p) = segments b @ segments p"
    by (simp add: segments_def split_char_append)
  have a: "is_absolute (b @ slash # p) = is_absolute b"
    using assms by (cases b) (auto simp: is_absolute_def)
  have h: "hd (segments (b @ slash # p)) = hd (segments b)"
    by (simp add: s) (simp add: segments_def)
  show ?thesis
    by (simp only: components_def a h) (simp add: s)
qed

lemma components_trailing_slash:
  assumes "b \<noteq> []"
  shows "components (b @ [slash]) = components b"
  using components_append_slash [OF assms, of "[]"] by (simp add: segments_def)

lemma components_join:
  assumes "\<not> is_absolute p" and "b \<noteq> []"
  shows "components (path_join b p) = components b @ body_components (segments p)"
proof (cases "last b = slash")
  case True
  then obtain b' where b: "b = b' @ [slash]"
    using \<open>b \<noteq> []\<close> by (metis append_butlast_last_id)
  show ?thesis
  proof (cases "b' = []")
    case False
    then show ?thesis
      using assms b by (simp add: path_join_def components_append_slash components_trailing_slash)
  next
    case True
    then show ?thesis
      using assms b
      by (auto simp: path_join_def components_def is_absolute_def segments_def
          body_components_def skipped_def)
  qed
next
  case False
  then show ?thesis
    using assms by (simp add: path_join_def components_append_slash)
qed

lemma resolve_from_append:
  "resolve_from at (cs @ ds) = resolve_from (resolve_from at cs) ds"
  by (induction at cs rule: resolve_from.induct) auto

lemma resolve_from_normal:
  assumes "ParentDir \<notin> set cs" "RootDir \<notin> set cs"
  shows "prefix at (resolve_from at cs)"
  using assms
  by (induction at cs rule: resolve_from.induct) (auto simp: append_prefixD)

text \<open>Joining a relative path without \<open>..\<close> stays below the base.\<close>

lemma resolve_join_below:
  assumes "\<not> is_absolute p" "b \<noteq> []" "ParentDir \<notin> set (body_components (segments p))"
  shows "prefix (resolve b) (resolve (path_join b p))"
  using assms
  by (simp add: resolve_def components_join resolve_from_append resolve_from_normal)

lemma ParentDir_components:
  "ParentDir \<in> set (components p) \<longleftrightarrow> ParentDir \<in> set (body_components (segments p))"
  by (auto simp: components_def)

end
