(* ===== verification/Sys_Calls.thy ===== *)
theory Sys_Calls
  imports Seccomp_Filter Landlock_Rules Std_Path
begin

text \<open>
  Code that talks to the operating system. The kernel, the file system and the clock are not
  part of the repository: they are the parameter \<open>K\<close>, which answers each call from the
  whole history of earlier calls and answers. A piece of effectful code is a function from
  \<open>K\<close> and the history so far to its result (an error or a value) and the extended history,
  so every theorem about it holds for every kernel. Logging to stderr is left out.

  The second half holds the thin wrappers of \<open>evalbox-sys\<close> (\<open>landlock.rs\<close>,
  \<open>seccomp.rs\<close>, \<open>seccomp_notify.rs\<close>).
\<close>

section \<open>Calls and answers\<close>

datatype rlimit_resource =
  RLIMIT_DATA | RLIMIT_CPU | RLIMIT_FSIZE | RLIMIT_NOFILE | RLIMIT_NPROC | RLIMIT_CORE
| RLIMIT_STACK

text \<open>Attributes of the calling process.\<close>

datatype attr_call =
  PrSetNoNewPrivs | PrGetSeccomp | PrSetSecurebits u64 | PrCapAmbientClearAll
| PrCapbsetDrop nat | SetFilter u32 sock_fprog | Setrlimit rlimit_resource u64

datatype landlock_call =
  LandlockVersion | LandlockCreate landlock_ruleset_attr
| LandlockAddRule int landlock_path_beneath_attr | LandlockRestrict int

datatype notify_call =
  NotifRecv int | NotifSend int seccomp_notif_resp | NotifIdValid int u64
| NotifAddfd int seccomp_notif_addfd

text \<open>Descriptors. \<open>OpenPath\<close> is \<open>open\<close> with \<open>O_PATH | O_CLOEXEC\<close>.\<close>

datatype fd_call =
  OpenPath path | Open path i32 nat | Close int | Dup2 int int | CloseRange u32 u32 u32
| Read int nat | Write int "u8 list" | Poll "int list" int | FcntlGetFl int
| FcntlSetFl int i32 | Pipe2 | Eventfd | Socketpair | Sendmsg int "u8 list" "u8 list"
| Recvmsg int nat nat | Lseek int u64

datatype process_call =
  Fork | Exit int | Chdir path | Execve path "string list" "string list" | Kill int
| PidfdOpen int | PidfdKill int | Waitid int | Now | RunProgram path "string list"

text \<open>\<open>RunProgram\<close> is \<open>Command::output\<close>: it runs a program with arguments and waits for it. The file
  system and the environment are as the standard library exposes them.\<close>

datatype fs_call =
  Exists path | IsSymlink path | IsFile path | IsDir path | FileMode path | ReadLink path
| CreateDirAll path | FsWrite path "u8 list" | FsRead path | SetMode path nat
| RemoveDirAll path | TempDir string | EnvVar string | Which string | Uname
| OpenRead path | ReadOpened path | ModTime path

text \<open>The event queue of the \<open>mio\<close> crate.\<close>

datatype mio_call =
  PollNew | PollWait "nat option" | Register int u64 | Deregister int

datatype call =
  Attr attr_call | Ll landlock_call | Nt notify_call | Fd fd_call | Proc process_call
| Fs fs_call | Mio mio_call

record answer =
  ans_ret :: int
  ans_errno :: int
  ans_data :: "u8 list"
  ans_vals :: "int list"
  ans_str :: string

type_synonym event = "call \<times> answer"
type_synonym hist = "event list"
type_synonym os = "hist \<Rightarrow> call \<Rightarrow> answer"
type_synonym errno = int

definition ENOENT :: errno where "ENOENT = 2"
definition EINTR :: errno where "EINTR = 4"
definition EAGAIN :: errno where "EAGAIN = 11"
definition EINVAL :: errno where "EINVAL = 22"

text \<open>\<open>std::io::Error\<close>: an \<open>errno\<close>, or a kind with a message.\<close>

datatype io_error =
  Os errno | InvalidInput string | InvalidData string | BrokenPipe string | NotFound string
| OtherError string | DebugPanic string

definition ok_answer :: answer where
  "ok_answer = \<lparr>ans_ret = 0, ans_errno = 0, ans_data = [], ans_vals = [], ans_str = []\<rparr>"

section \<open>Effectful code\<close>

type_synonym ('e, 'a) io = "os \<Rightarrow> hist \<Rightarrow> ('e + 'a) \<times> hist"

definition io_ret :: "'a \<Rightarrow> ('e, 'a) io" where
  "io_ret x = (\<lambda>K h. (Inr x, h))"

definition io_err :: "'e \<Rightarrow> ('e, 'a) io" where
  "io_err e = (\<lambda>K h. (Inl e, h))"

definition io_bind :: "('e, 'a) io \<Rightarrow> ('a \<Rightarrow> ('e, 'b) io) \<Rightarrow> ('e, 'b) io" where
  "io_bind m f = (\<lambda>K h. case m K h of (Inl e, h') \<Rightarrow> (Inl e, h') | (Inr x, h') \<Rightarrow> f x K h')"

definition io_then :: "('e, 'a) io \<Rightarrow> ('e, 'b) io \<Rightarrow> ('e, 'b) io" where
  "io_then m n = io_bind m (\<lambda>_. n)"

text \<open>One call: its answer becomes the value and both are recorded.\<close>

definition io_call :: "call \<Rightarrow> ('e, answer) io" where
  "io_call c = (\<lambda>K h. (Inr (K h c), h @ [(c, K h c)]))"

text \<open>\<open>map_err\<close>, and running code whose result the caller inspects.\<close>

definition io_map_err :: "('e \<Rightarrow> 'f) \<Rightarrow> ('e, 'a) io \<Rightarrow> ('f, 'a) io" where
  "io_map_err g m = (\<lambda>K h. case m K h of (Inl e, h') \<Rightarrow> (Inl (g e), h')
                                       | (Inr x, h') \<Rightarrow> (Inr x, h'))"

definition io_try :: "('e, 'a) io \<Rightarrow> ('f, 'e + 'a) io" where
  "io_try m = (\<lambda>K h. case m K h of (r, h') \<Rightarrow> (Inr r, h'))"

definition io_lift :: "'e + 'a \<Rightarrow> ('e, 'a) io" where
  "io_lift r = (\<lambda>K h. (r, h))"

primrec io_for :: "'a list \<Rightarrow> ('a \<Rightarrow> ('e, unit) io) \<Rightarrow> ('e, unit) io" where
  "io_for [] f = io_ret ()"
| "io_for (x # xs) f = io_then (f x) (io_for xs f)"

definition io_when :: "bool \<Rightarrow> ('e, unit) io \<Rightarrow> ('e, unit) io" where
  "io_when b m = (if b then m else io_ret ())"

text \<open>Values that go out of scope when an error leaves the function are dropped by \<open>c\<close>.\<close>

definition io_on_err :: "('e, 'a) io \<Rightarrow> ('e, unit) io \<Rightarrow> ('e, 'a) io" where
  "io_on_err m c = io_bind (io_try m) (\<lambda>r. case r of Inl e \<Rightarrow> io_then c (io_err e) | Inr x \<Rightarrow> io_ret x)"

section \<open>Reasoning about effectful code\<close>

text \<open>
  \<open>wp m K Q E h\<close>: running \<open>m\<close> from the history \<open>h\<close> ends in a value and a history
  satisfying \<open>Q\<close>, or in an error and a history satisfying \<open>E\<close>. The rules compute it.
\<close>

named_theorems wp_rules \<open>weakest preconditions of effectful code\<close>

definition wp ::
  "('e, 'a) io \<Rightarrow> os \<Rightarrow> ('a \<Rightarrow> hist \<Rightarrow> bool) \<Rightarrow> ('e \<Rightarrow> hist \<Rightarrow> bool) \<Rightarrow> hist \<Rightarrow> bool" where
  "wp m K Q E h = (case m K h of (Inl e, h') \<Rightarrow> E e h' | (Inr x, h') \<Rightarrow> Q x h')"

lemma wp_ret [wp_rules]: "wp (io_ret x) K Q E h = Q x h"
  by (simp add: wp_def io_ret_def)

lemma wp_err [wp_rules]: "wp (io_err e) K Q E h = E e h"
  by (simp add: wp_def io_err_def)

lemma wp_lift [wp_rules]:
  "wp (io_lift r) K Q E h = (case r of Inl e \<Rightarrow> E e h | Inr x \<Rightarrow> Q x h)"
  by (simp add: wp_def io_lift_def)

lemma wp_bind [wp_rules]: "wp (io_bind m f) K Q E h = wp m K (\<lambda>x. wp (f x) K Q E) E h"
  by (simp add: wp_def io_bind_def split: prod.splits sum.splits)

lemma wp_then [wp_rules]: "wp (io_then m n) K Q E h = wp m K (\<lambda>_. wp n K Q E) E h"
  by (simp add: io_then_def wp_bind)

lemma wp_call [wp_rules]: "wp (io_call c) K Q E h = Q (K h c) (h @ [(c, K h c)])"
  by (simp add: wp_def io_call_def)

lemma wp_map_err [wp_rules]: "wp (io_map_err g m) K Q E h = wp m K Q (\<lambda>e. E (g e)) h"
  by (simp add: wp_def io_map_err_def split: prod.splits sum.splits)

lemma wp_try [wp_rules]:
  "wp (io_try m) K Q E h = wp m K (\<lambda>x. Q (Inr x)) (\<lambda>e. Q (Inl e)) h"
  by (simp add: wp_def io_try_def split: prod.splits sum.splits)

lemma wp_on_err [wp_rules]:
  "wp (io_on_err m c) K Q E h = wp m K Q (\<lambda>e. wp c K (\<lambda>_. E e) E) h"
  by (simp add: wp_def io_on_err_def io_bind_def io_try_def io_then_def io_err_def io_ret_def
      split: prod.split sum.split)

lemma wp_when [wp_rules]:
  "wp (io_when b m) K Q E h = (if b then wp m K Q E h else Q () h)"
  by (simp add: io_when_def wp_ret)

lemma wp_if [wp_rules]:
  "wp (if b then m else n) K Q E h = (if b then wp m K Q E h else wp n K Q E h)"
  by simp

lemma wp_mono:
  assumes "wp m K Q E h" and "\<And>x h'. Q x h' \<Longrightarrow> Q' x h'" and "\<And>e h'. E e h' \<Longrightarrow> E' e h'"
  shows "wp m K Q' E' h"
  using assms by (auto simp: wp_def split: prod.splits sum.splits)

lemma wp_result:
  assumes "wp m K Q E h" and "m K h = (r, h')"
  shows "case r of Inl e \<Rightarrow> E e h' | Inr x \<Rightarrow> Q x h'"
  using assms by (simp add: wp_def split: sum.splits)

lemma wp_Inr: "wp m K Q E h \<Longrightarrow> m K h = (Inr x, h') \<Longrightarrow> Q x h'"
  by (simp add: wp_def)

lemma wp_Inl: "wp m K Q E h \<Longrightarrow> m K h = (Inl e, h') \<Longrightarrow> E e h'"
  by (simp add: wp_def)

lemma wp_conj:
  assumes "wp m K Q E h" and "wp m K Q' E' h"
  shows "wp m K (\<lambda>x h. Q x h \<and> Q' x h) (\<lambda>e h. E e h \<and> E' e h) h"
  using assms by (auto simp: wp_def split: prod.splits sum.splits)

lemma wp_for:
  assumes "I h" and "\<And>x h. x \<in> set xs \<Longrightarrow> I h \<Longrightarrow> wp (f x) K (\<lambda>_. I) E h"
  shows "wp (io_for xs f) K (\<lambda>_. I) E h"
  using assms
proof (induction xs arbitrary: h)
  case Nil
  then show ?case by (simp add: wp_ret)
next
  case (Cons x xs)
  have "wp (f x) K (\<lambda>_. I) E h" using Cons.prems by simp
  then show ?case
    unfolding io_for.simps wp_then
    by (rule wp_mono) (use Cons in auto)
qed

text \<open>
  \<open>only C m\<close>: whatever the kernel answers, \<open>m\<close> extends the history by calls that satisfy
  \<open>C\<close>.
\<close>

definition only :: "(call \<Rightarrow> bool) \<Rightarrow> ('e, 'a) io \<Rightarrow> bool" where
  "only C m \<longleftrightarrow> (\<forall>K h. \<exists>t. snd (m K h) = h @ t \<and> (\<forall>e \<in> set t. C (fst e)))"

named_theorems only_rules \<open>which calls a piece of code can make\<close>

lemma only_ret [only_rules]: "only C (io_ret x)"
  by (simp add: only_def io_ret_def)

lemma only_err [only_rules]: "only C (io_err e)"
  by (simp add: only_def io_err_def)

lemma only_lift [only_rules]: "only C (io_lift e)"
  by (simp add: only_def io_lift_def)

lemma only_call [only_rules]: "C c \<Longrightarrow> only C (io_call c)"
  by (simp add: only_def io_call_def)

lemma only_bind [only_rules]:
  assumes "only C m" and "\<And>x. only C (f x)"
  shows "only C (io_bind m f)"
  unfolding only_def
proof (intro allI)
  fix K h
  obtain r h1 where m: "m K h = (r, h1)" by force
  with assms(1) obtain t where t: "h1 = h @ t" "\<forall>e \<in> set t. C (fst e)"
    unfolding only_def by (metis snd_conv)
  show "\<exists>t. snd (io_bind m f K h) = h @ t \<and> (\<forall>e \<in> set t. C (fst e))"
  proof (cases r)
    case (Inl e)
    then show ?thesis using m t by (auto simp: io_bind_def)
  next
    case (Inr x)
    obtain u where "snd (f x K h1) = h1 @ u" "\<forall>e \<in> set u. C (fst e)"
      using assms(2) unfolding only_def by blast
    then show ?thesis using m t Inr by (intro exI [of _ "t @ u"]) (auto simp: io_bind_def)
  qed
qed

lemma only_then [only_rules]: "only C m \<Longrightarrow> only C n \<Longrightarrow> only C (io_then m n)"
  by (simp add: io_then_def only_bind)

lemma snd_map_err: "snd (io_map_err g m K h) = snd (m K h)"
  by (simp add: io_map_err_def split: prod.split sum.split)

lemma snd_try: "snd (io_try m K h) = snd (m K h)"
  by (simp add: io_try_def split: prod.split)

lemma only_map_err [only_rules]: "only C m \<Longrightarrow> only C (io_map_err g m)"
  by (simp add: only_def snd_map_err)

lemma only_try [only_rules]: "only C m \<Longrightarrow> only C (io_try m)"
  by (simp add: only_def snd_try)

lemma only_on_err [only_rules]: "only C m \<Longrightarrow> only C c \<Longrightarrow> only C (io_on_err m c)"
  by (auto simp: io_on_err_def intro!: only_bind only_try only_then only_err only_ret split: sum.split)

lemma only_when [only_rules]: "(b \<Longrightarrow> only C m) \<Longrightarrow> only C (io_when b m)"
  by (simp add: io_when_def only_ret)

lemma only_for [only_rules]: "(\<And>x. x \<in> set xs \<Longrightarrow> only C (f x)) \<Longrightarrow> only C (io_for xs f)"
  by (induction xs) (simp_all add: only_ret only_then)

lemma only_if [only_rules]:
  "(b \<Longrightarrow> only C m) \<Longrightarrow> (\<not> b \<Longrightarrow> only C n) \<Longrightarrow> only C (if b then m else n)"
  by simp

lemma only_mono: "only C m \<Longrightarrow> (\<And>c. C c \<Longrightarrow> D c) \<Longrightarrow> only D m"
  unfolding only_def by blast

lemma only_wp:
  assumes "only C m" and "\<And>t. \<forall>e \<in> set t. C (fst e) \<Longrightarrow> I (h @ t)"
  shows "wp m K (\<lambda>_. I) (\<lambda>_. I) h"
proof -
  obtain t where "snd (m K h) = h @ t" "\<forall>e \<in> set t. C (fst e)"
    using assms(1) unfolding only_def by blast
  with assms(2) show ?thesis by (auto simp: wp_def split: prod.splits sum.splits)
qed

text \<open>
  \<open>runs m K P h\<close>: from the history \<open>h\<close>, \<open>m\<close> adds some events \<open>t\<close> and ends in a result \<open>r\<close>
  with \<open>P r t\<close>.
\<close>

definition runs :: "('e, 'a) io \<Rightarrow> os \<Rightarrow> ('e + 'a \<Rightarrow> hist \<Rightarrow> bool) \<Rightarrow> hist \<Rightarrow> bool" where
  "runs m K P h \<longleftrightarrow> (\<exists>r t. m K h = (r, h @ t) \<and> P r t)"

lemma runs_wp:
  "runs m K P h \<longleftrightarrow> wp m K (\<lambda>x h'. \<exists>t. h' = h @ t \<and> P (Inr x) t) (\<lambda>e h'. \<exists>t. h' = h @ t \<and> P (Inl e) t) h"
  by (auto simp: runs_def wp_def split: prod.splits sum.splits)

lemma runs_mono: "runs m K P h \<Longrightarrow> (\<And>r t. P r t \<Longrightarrow> Q r t) \<Longrightarrow> runs m K Q h"
  unfolding runs_def by blast

lemma runs_ret: "P (Inr x) [] \<Longrightarrow> runs (io_ret x) K P h"
  by (simp add: runs_def io_ret_def)

lemma runs_err: "P (Inl e) [] \<Longrightarrow> runs (io_err e) K P h"
  by (simp add: runs_def io_err_def)

lemma runs_lift: "P r [] \<Longrightarrow> runs (io_lift r) K P h"
  by (simp add: runs_def io_lift_def)

lemma runs_call: "P (Inr (K h c)) [(c, K h c)] \<Longrightarrow> runs (io_call c) K P h"
  by (simp add: runs_def io_call_def)

lemma runs_bind:
  assumes "runs m K P h"
    and "\<And>x t. P (Inr x) t \<Longrightarrow> runs (f x) K (\<lambda>r u. Q r (t @ u)) (h @ t)"
    and "\<And>e t. P (Inl e) t \<Longrightarrow> Q (Inl e) t"
  shows "runs (io_bind m f) K Q h"
proof -
  from assms(1) obtain r t where m: "m K h = (r, h @ t)" "P r t" unfolding runs_def by blast
  show ?thesis
  proof (cases r)
    case (Inl e)
    with m assms(3) show ?thesis by (simp add: runs_def io_bind_def)
  next
    case (Inr x)
    with m assms(2) obtain r' u where "f x K (h @ t) = (r', (h @ t) @ u)" "Q r' (t @ u)"
      unfolding runs_def by blast
    with m Inr show ?thesis by (simp add: runs_def io_bind_def)
  qed
qed

lemma runs_then:
  assumes "runs m K P h"
    and "\<And>x t. P (Inr x) t \<Longrightarrow> runs n K (\<lambda>r u. Q r (t @ u)) (h @ t)"
    and "\<And>e t. P (Inl e) t \<Longrightarrow> Q (Inl e) t"
  shows "runs (io_then m n) K Q h"
  unfolding io_then_def using assms by (rule runs_bind)

lemma runs_try: "runs m K (\<lambda>r. P (Inr r)) h \<Longrightarrow> runs (io_try m) K P h"
  unfolding runs_def io_try_def by (metis (no_types, lifting) case_prod_conv)

lemma runs_tried: "runs m K P h \<Longrightarrow> runs (io_try m) K (\<lambda>r t. \<exists>x. r = Inr x \<and> P x t) h"
  by (rule runs_try) (erule runs_mono, simp)

lemma runs_map_err:
  assumes "runs m K (\<lambda>r. P (case r of Inl e \<Rightarrow> Inl (g e) | Inr x \<Rightarrow> Inr x)) h"
  shows "runs (io_map_err g m) K P h"
proof -
  from assms obtain r t where "m K h = (r, h @ t)" "P (case r of Inl e \<Rightarrow> Inl (g e) | Inr x \<Rightarrow> Inr x) t"
    unfolding runs_def by blast
  then show ?thesis by (cases r) (auto simp: runs_def io_map_err_def)
qed

lemma runs_result: "runs m K P h \<Longrightarrow> \<exists>t. snd (m K h) = h @ t \<and> P (fst (m K h)) t"
  by (auto simp: runs_def)

lemma runs_eq: "runs m K P h \<Longrightarrow> m K h = (r, h') \<Longrightarrow> \<exists>t. h' = h @ t \<and> P r t"
  by (auto simp: runs_def)

lemma runs_and_wp:
  "runs m K P h \<Longrightarrow> wp m K Q E h \<Longrightarrow>
     runs m K (\<lambda>r t. P r t \<and> (case r of Inl e \<Rightarrow> E e (h @ t) | Inr x \<Rightarrow> Q x (h @ t))) h"
  by (auto simp: runs_def wp_def split: sum.splits)

lemma runs_ends: "\<exists>r t. m K h = (r, h @ t) \<and> P r t \<Longrightarrow> runs m K P h"
  by (simp add: runs_def)

section \<open>Descriptors that are not leaked\<close>

text \<open>\<open>fd_results e\<close>: the descriptors an event hands out. \<open>holding S t\<close>: each descriptor
  handed out in \<open>t\<close> is closed later in \<open>t\<close> or is one of \<open>S\<close>.\<close>

definition fd_results :: "event \<Rightarrow> int set" where
  "fd_results e = (case fst e of
       Fd c \<Rightarrow> (case c of
          Open p fl m \<Rightarrow> if 0 \<le> ans_ret (snd e) then {ans_ret (snd e)} else {}
        | OpenPath p \<Rightarrow> if 0 \<le> ans_ret (snd e) then {ans_ret (snd e)} else {}
        | Eventfd \<Rightarrow> if 0 \<le> ans_ret (snd e) then {ans_ret (snd e)} else {}
        | Pipe2 \<Rightarrow> if ans_ret (snd e) = 0 then {ans_vals (snd e) ! 0, ans_vals (snd e) ! 1} else {}
        | Socketpair \<Rightarrow> if 0 \<le> ans_ret (snd e) then {ans_vals (snd e) ! 0, ans_vals (snd e) ! 1} else {}
        | _ \<Rightarrow> {})
     | Ll (LandlockCreate at) \<Rightarrow> if 0 \<le> ans_ret (snd e) then {ans_ret (snd e)} else {}
     | Proc (PidfdOpen pid) \<Rightarrow> if 0 \<le> ans_ret (snd e) then {ans_ret (snd e)} else {}
     | _ \<Rightarrow> {})"

lemma fd_results_simps [simp]:
  "fd_results (Fd (Open p fl m), a) = (if 0 \<le> ans_ret a then {ans_ret a} else {})"
  "fd_results (Fd (OpenPath p), a) = (if 0 \<le> ans_ret a then {ans_ret a} else {})"
  "fd_results (Fd Eventfd, a) = (if 0 \<le> ans_ret a then {ans_ret a} else {})"
  "fd_results (Fd Pipe2, a) = (if ans_ret a = 0 then {ans_vals a ! 0, ans_vals a ! 1} else {})"
  "fd_results (Ll (LandlockCreate at), a) = (if 0 \<le> ans_ret a then {ans_ret a} else {})"
  "fd_results (Fd (Close fd), a) = {}" "fd_results (Fd (Read fd n), a) = {}"
  "fd_results (Fd (Lseek fd n64), a) = {}" "fd_results (Nt c1, a) = {}"
  "fd_results (Ll LandlockVersion, a) = {}" "fd_results (Ll (LandlockRestrict fd), a) = {}"
  "fd_results (Ll (LandlockAddRule fd r), a) = {}"
  "fd_results (Attr c2, a) = {}" "fd_results (Fs c3, a) = {}"
  "fd_results (Proc (PidfdOpen pid), a) = (if 0 \<le> ans_ret a then {ans_ret a} else {})"
  "fd_results (Proc Fork, a) = {}" "fd_results (Proc (Exit k), a) = {}" "fd_results (Proc (Kill k), a) = {}"
  "fd_results (Proc (PidfdKill k), a) = {}" "fd_results (Proc (Waitid k), a) = {}" "fd_results (Proc Now, a) = {}"
  "fd_results (Proc (Chdir q), a) = {}" "fd_results (Fd (Write fd d), a) = {}" "fd_results (Fd (Poll fds i), a) = {}"
  "fd_results (Fd (FcntlGetFl fd), a) = {}" "fd_results (Fd (FcntlSetFl fd fl'), a) = {}"
  "fd_results (Fd (Recvmsg fd n m'), a) = {}"
  "fd_results (Fd Socketpair, a) = (if 0 \<le> ans_ret a then {ans_vals a ! 0, ans_vals a ! 1} else {})"
  by (simp_all add: fd_results_def)

fun holding :: "int set \<Rightarrow> hist \<Rightarrow> bool" where
  "holding S [] = True"
| "holding S (e # t) = ((\<forall>fd \<in> fd_results e. fd \<in> S \<or> Fd (Close fd) \<in> fst ` set t) \<and> holding S t)"

definition leak_free :: "hist \<Rightarrow> bool" where
  "leak_free t = holding {} t"

lemma leak_free_simps [simp]:
  "leak_free []"
  "leak_free (e # t) \<longleftrightarrow> (\<forall>fd \<in> fd_results e. Fd (Close fd) \<in> fst ` set t) \<and> leak_free t"
  by (simp_all add: leak_free_def)

lemma holding_append:
  assumes "holding S t" and "holding S' u" and "S \<subseteq> S' \<union> {fd. Fd (Close fd) \<in> fst ` set u}"
  shows "holding S' (t @ u)"
  using assms by (induction t) (auto 0 3)

lemma holding_mono: "holding S t \<Longrightarrow> S \<subseteq> S' \<Longrightarrow> holding S' t"
  by (induction t) auto

lemma holding_append_mono:
  "holding S t \<Longrightarrow> holding S' u \<Longrightarrow> S \<subseteq> T \<Longrightarrow> S' \<subseteq> T \<Longrightarrow> holding T (t @ u)"
  by (rule holding_append) (auto intro: holding_mono)

lemma leak_free_append: "leak_free t \<Longrightarrow> leak_free u \<Longrightarrow> leak_free (t @ u)"
  unfolding leak_free_def by (erule holding_append) auto

lemma leak_free_none: "\<forall>e \<in> set t. fd_results e = {} \<Longrightarrow> leak_free t"
  by (induction t) auto

lemma leak_free_then:
  assumes "runs m K (\<lambda>_. leak_free) h" and "\<And>h. runs n K (\<lambda>_. leak_free) h"
  shows "runs (io_then m n) K (\<lambda>_. leak_free) h"
  by (rule runs_then [OF assms(1)])
    (auto intro!: runs_mono [OF assms(2)] leak_free_append)

lemma leak_free_for:
  assumes "\<And>x h. x \<in> set xs \<Longrightarrow> runs (f x) K (\<lambda>_. leak_free) h"
  shows "runs (io_for xs f) K (\<lambda>_. leak_free) h"
  using assms
proof (induction xs arbitrary: h)
  case Nil
  then show ?case by (simp add: runs_ret)
next
  case (Cons x xs)
  then show ?case by (auto intro!: leak_free_then)
qed

lemma leak_free_only:
  assumes "only (\<lambda>c. \<forall>a. fd_results (c, a) = {}) m"
  shows "runs m K (\<lambda>_. leak_free) h"
proof -
  obtain t where t: "snd (m K h) = h @ t" "\<forall>e \<in> set t. \<forall>a. fd_results (fst e, a) = {}"
    using assms unfolding only_def by blast
  have "leak_free t" by (rule leak_free_none) (use t(2) in \<open>force\<close>)
  then show ?thesis using t(1) by (cases "m K h") (auto simp: runs_def)
qed

section \<open>Checked system calls\<close>

text \<open>A negative return value is an error with the thread's \<open>errno\<close>.\<close>

definition sys :: "call \<Rightarrow> (errno, answer) io" where
  "sys c = io_bind (io_call c)
     (\<lambda>r. if ans_ret r < 0 then io_err (ans_errno r) else io_ret r)"

text \<open>The other convention: any non-zero return value is an error.\<close>

definition sys0 :: "call \<Rightarrow> (errno, unit) io" where
  "sys0 c = io_bind (io_call c)
     (\<lambda>r. if ans_ret r \<noteq> 0 then io_err (ans_errno r) else io_ret ())"

definition invoke :: "call \<Rightarrow> ('e, unit) io" where
  "invoke c = io_then (io_call c) (io_ret ())"

lemma wp_sys [wp_rules]:
  "wp (sys c) K Q E h =
    (if ans_ret (K h c) < 0 then E (ans_errno (K h c)) (h @ [(c, K h c)])
     else Q (K h c) (h @ [(c, K h c)]))"
  by (simp add: sys_def wp_rules)

lemma wp_sys0 [wp_rules]:
  "wp (sys0 c) K Q E h =
    (if ans_ret (K h c) \<noteq> 0 then E (ans_errno (K h c)) (h @ [(c, K h c)])
     else Q () (h @ [(c, K h c)]))"
  by (simp add: sys0_def wp_rules)

lemma wp_invoke [wp_rules]: "wp (invoke c) K Q E h = Q () (h @ [(c, K h c)])"
  by (simp add: invoke_def wp_rules)

lemma only_sys [only_rules]: "C c \<Longrightarrow> only C (sys c)"
  by (simp add: sys_def only_rules)

lemma only_sys0 [only_rules]: "C c \<Longrightarrow> only C (sys0 c)"
  by (simp add: sys0_def only_rules)

lemma only_invoke [only_rules]: "C c \<Longrightarrow> only C (invoke c)"
  by (simp add: invoke_def only_rules)

lemma runs_sys:
  assumes "\<And>a. ans_ret a < 0 \<Longrightarrow> P (Inl (ans_errno a)) [(c, a)]"
    and "\<And>a. 0 \<le> ans_ret a \<Longrightarrow> P (Inr a) [(c, a)]"
  shows "runs (sys c) K P h"
  using assms by (simp add: sys_def runs_def io_bind_def io_call_def io_ret_def io_err_def)

lemma runs_sys0:
  assumes "\<And>a. ans_ret a \<noteq> 0 \<Longrightarrow> P (Inl (ans_errno a)) [(c, a)]"
    and "\<And>a. ans_ret a = 0 \<Longrightarrow> P (Inr ()) [(c, a)]"
  shows "runs (sys0 c) K P h"
  using assms by (simp add: sys0_def runs_def io_bind_def io_call_def io_ret_def io_err_def)

lemma runs_invoke: "(\<And>a. P (Inr ()) [(c, a)]) \<Longrightarrow> runs (invoke c) K P h"
  by (simp add: invoke_def io_then_def runs_def io_bind_def io_call_def io_ret_def)

section \<open>Wrappers of evalbox-sys\<close>

definition landlock_abi_version :: "(errno, u32) io" where
  "landlock_abi_version =
     io_bind (sys (Ll LandlockVersion)) (\<lambda>r. io_ret (of_int (ans_ret r)))"

definition landlock_create_ruleset :: "landlock_ruleset_attr \<Rightarrow> (errno, int) io" where
  "landlock_create_ruleset attr =
     io_bind (sys (Ll (LandlockCreate attr))) (\<lambda>r. io_ret (ans_ret r))"

definition landlock_add_rule_path :: "int \<Rightarrow> landlock_path_beneath_attr \<Rightarrow> (errno, unit) io" where
  "landlock_add_rule_path ruleset_fd attr =
     io_then (sys (Ll (LandlockAddRule ruleset_fd attr))) (io_ret ())"

definition landlock_restrict_self :: "int \<Rightarrow> (errno, unit) io" where
  "landlock_restrict_self ruleset_fd =
     io_then (sys (Ll (LandlockRestrict ruleset_fd))) (io_ret ())"

definition seccomp_set_mode_filter :: "sock_fprog \<Rightarrow> (errno, unit) io" where
  "seccomp_set_mode_filter fprog =
     io_then (sys0 (Attr PrSetNoNewPrivs)) (sys0 (Attr (SetFilter 0 fprog)))"

definition seccomp_available :: "('e, bool) io" where
  "seccomp_available = io_bind (io_call (Attr PrGetSeccomp)) (\<lambda>r. io_ret (ans_ret r \<ge> 0))"

definition seccomp_set_mode_filter_listener :: "sock_fprog \<Rightarrow> (errno, int) io" where
  "seccomp_set_mode_filter_listener fprog =
     io_then (sys0 (Attr PrSetNoNewPrivs))
       (io_bind (sys (Attr (SetFilter SECCOMP_FILTER_FLAG_NEW_LISTENER fprog)))
          (\<lambda>r. io_ret (ans_ret r)))"

text \<open>
  The kernel fills the notification struct passed to \<open>NOTIF_RECV\<close>: the answer carries its
  field values in order.
\<close>

definition notif_fields :: "int list \<Rightarrow> seccomp_notif" where
  "notif_fields vs =
     \<lparr>sn_id = of_int (vs ! 0), sn_pid = of_int (vs ! 1), sn_flags = of_int (vs ! 2),
      sn_data = \<lparr>sd_nr = of_int (vs ! 3), sd_arch = of_int (vs ! 4),
                 sd_instruction_pointer = of_int (vs ! 5),
                 sd_args = map of_int (take 6 (drop 6 vs))\<rparr>\<rparr>"

definition notif_recv :: "int \<Rightarrow> (errno, seccomp_notif) io" where
  "notif_recv listener_fd =
     io_bind (sys (Nt (NotifRecv listener_fd))) (\<lambda>r. io_ret (notif_fields (ans_vals r)))"

definition notif_send :: "int \<Rightarrow> seccomp_notif_resp \<Rightarrow> (errno, unit) io" where
  "notif_send listener_fd resp = io_then (sys (Nt (NotifSend listener_fd resp))) (io_ret ())"

definition notif_id_valid :: "int \<Rightarrow> u64 \<Rightarrow> (errno, unit) io" where
  "notif_id_valid listener_fd nid = io_then (sys (Nt (NotifIdValid listener_fd nid))) (io_ret ())"

definition notif_addfd :: "int \<Rightarrow> seccomp_notif_addfd \<Rightarrow> (errno, int) io" where
  "notif_addfd listener_fd addfd =
     io_bind (sys (Nt (NotifAddfd listener_fd addfd))) (\<lambda>r. io_ret (ans_ret r))"

lemmas wrapper_defs =
  landlock_abi_version_def landlock_create_ruleset_def landlock_add_rule_path_def
  landlock_restrict_self_def seccomp_set_mode_filter_def seccomp_available_def
  seccomp_set_mode_filter_listener_def notif_recv_def notif_send_def notif_id_valid_def notif_addfd_def

end
