(* ===== verification/Sandbox_Plan.thy ===== *)
theory Sandbox_Plan
  imports Std_Path "HOL-Library.AList"
begin

text \<open>
  \<open>evalbox-sandbox/src/plan.rs\<close>: the execution plan and its builder methods. A
  \<open>Duration\<close> is a number of nanoseconds; a \<open>HashMap\<close> of environment variables is an
  association list with one entry per key, whose order carries no meaning; a \<open>HashSet\<close> of
  syscall numbers is a set.
\<close>

section \<open>Durations\<close>

type_synonym duration = nat

definition from_secs :: "nat \<Rightarrow> duration" where
  "from_secs s = s * 1000000000"

definition as_secs :: "duration \<Rightarrow> nat" where
  "as_secs d = d div 1000000000"

definition as_millis :: "duration \<Rightarrow> nat" where
  "as_millis d = d div 1000000"

section \<open>Data\<close>

datatype notify_mode = Disabled | Monitor | Virtualize

record mount =
  mnt_source :: path
  mnt_target :: path
  mnt_writable :: bool
  mnt_executable :: bool

record syscalls =
  allowed :: "i64 set"
  denied :: "i64 set"

record landlock_config =
  read_paths :: "path list"
  write_paths :: "path list"
  execute_paths :: "path list"

record user_file =
  uf_path :: string
  uf_content :: "u8 list"
  uf_executable :: bool

type_synonym env = "(string \<times> string) list"

record plan =
  cmd :: "string list"
  binary_path :: "path option"
  env :: env
  stdin :: "u8 list option"
  cwd :: string
  mounts :: "mount list"
  user_files :: "user_file list"
  workspace_size :: u64
  timeout :: duration
  memory_limit :: u64
  max_pids :: u32
  max_output :: u64
  network_blocked :: bool
  syscalls_cfg :: "syscalls option"
  landlock_cfg :: "landlock_config option"
  notify_mode :: notify_mode

section \<open>Mounts\<close>

definition mount_ro :: "path \<Rightarrow> mount" where
  "mount_ro p = \<lparr>mnt_source = p, mnt_target = p, mnt_writable = False, mnt_executable = True\<rparr>"

definition mount_ro_noexec :: "path \<Rightarrow> mount" where
  "mount_ro_noexec p =
     \<lparr>mnt_source = p, mnt_target = p, mnt_writable = False, mnt_executable = False\<rparr>"

definition mount_rw :: "path \<Rightarrow> mount" where
  "mount_rw p = \<lparr>mnt_source = p, mnt_target = p, mnt_writable = True, mnt_executable = True\<rparr>"

definition mount_bind :: "path \<Rightarrow> path \<Rightarrow> mount" where
  "mount_bind src tgt =
     \<lparr>mnt_source = src, mnt_target = tgt, mnt_writable = False, mnt_executable = True\<rparr>"

definition make_writable :: "mount \<Rightarrow> mount" where
  "make_writable m = m\<lparr>mnt_writable := True\<rparr>"

definition noexec :: "mount \<Rightarrow> mount" where
  "noexec m = m\<lparr>mnt_executable := False\<rparr>"

section \<open>System call configuration\<close>

definition default_syscalls :: syscalls where
  "default_syscalls = \<lparr>allowed = {}, denied = {}\<rparr>"

definition allow :: "syscalls \<Rightarrow> i64 \<Rightarrow> syscalls" where
  "allow s nr = s\<lparr>allowed := insert nr (allowed s), denied := denied s - {nr}\<rparr>"

definition deny :: "syscalls \<Rightarrow> i64 \<Rightarrow> syscalls" where
  "deny s nr = s\<lparr>denied := insert nr (denied s), allowed := allowed s - {nr}\<rparr>"

primrec allow_many :: "syscalls \<Rightarrow> i64 list \<Rightarrow> syscalls" where
  "allow_many s [] = s"
| "allow_many s (nr # nrs) =
     allow_many (s\<lparr>allowed := insert nr (allowed s), denied := denied s - {nr}\<rparr>) nrs"

primrec deny_many :: "syscalls \<Rightarrow> i64 list \<Rightarrow> syscalls" where
  "deny_many s [] = s"
| "deny_many s (nr # nrs) =
     deny_many (s\<lparr>denied := insert nr (denied s), allowed := allowed s - {nr}\<rparr>) nrs"

section \<open>Landlock configuration and files\<close>

definition default_landlock :: landlock_config where
  "default_landlock = \<lparr>read_paths = [], write_paths = [], execute_paths = []\<rparr>"

definition allow_read :: "landlock_config \<Rightarrow> path \<Rightarrow> landlock_config" where
  "allow_read l p = l\<lparr>read_paths := read_paths l @ [p]\<rparr>"

definition allow_read_write :: "landlock_config \<Rightarrow> path \<Rightarrow> landlock_config" where
  "allow_read_write l p = l\<lparr>write_paths := write_paths l @ [p]\<rparr>"

definition allow_execute :: "landlock_config \<Rightarrow> path \<Rightarrow> landlock_config" where
  "allow_execute l p = l\<lparr>execute_paths := execute_paths l @ [p]\<rparr>"

definition new_user_file :: "string \<Rightarrow> u8 list \<Rightarrow> user_file" where
  "new_user_file p content = \<lparr>uf_path = p, uf_content = content, uf_executable = False\<rparr>"

definition make_executable :: "user_file \<Rightarrow> user_file" where
  "make_executable f = f\<lparr>uf_executable := True\<rparr>"

section \<open>Plans\<close>

text \<open>\<open>default_env\<close> asks whether \<open>/nix/store\<close> exists; the answer is its argument.\<close>

definition default_env :: "bool \<Rightarrow> env" where
  "default_env nix_store_exists =
    (let default_path =
       (if nix_store_exists
        then ''/run/current-system/sw/bin:/nix/var/nix/profiles/default/bin:/usr/local/bin:/usr/bin:/bin''
        else ''/usr/local/bin:/usr/bin:/bin'')
     in [(''PATH'', default_path), (''HOME'', ''/home''), (''USER'', ''sandbox''),
         (''LANG'', ''C.UTF-8''), (''LC_ALL'', ''C.UTF-8'')])"

definition default_plan :: "bool \<Rightarrow> plan" where
  "default_plan nix =
    \<lparr>cmd = [], binary_path = None, env = default_env nix, stdin = None, cwd = ''/work'',
     mounts = [], user_files = [], workspace_size = 64 * 1024 * 1024,
     timeout = from_secs 30, memory_limit = 256 * 1024 * 1024, max_pids = 64,
     max_output = 16 * 1024 * 1024, network_blocked = True, syscalls_cfg = None,
     landlock_cfg = None, notify_mode = Disabled\<rparr>"

definition new_plan :: "bool \<Rightarrow> string list \<Rightarrow> plan" where
  "new_plan nix c = (default_plan nix)\<lparr>cmd := c\<rparr>"

definition plan_env :: "plan \<Rightarrow> string \<Rightarrow> string \<Rightarrow> plan" where
  "plan_env p key value = p\<lparr>env := AList.update key value (env p)\<rparr>"

definition plan_stdin :: "plan \<Rightarrow> u8 list \<Rightarrow> plan" where
  "plan_stdin p data = p\<lparr>stdin := Some data\<rparr>"

definition plan_cwd :: "plan \<Rightarrow> string \<Rightarrow> plan" where
  "plan_cwd p c = p\<lparr>cwd := c\<rparr>"

definition plan_mount :: "plan \<Rightarrow> mount \<Rightarrow> plan" where
  "plan_mount p m = p\<lparr>mounts := mounts p @ [m]\<rparr>"

definition plan_mounts :: "plan \<Rightarrow> mount list \<Rightarrow> plan" where
  "plan_mounts p ms = p\<lparr>mounts := mounts p @ ms\<rparr>"

definition plan_binary_path :: "plan \<Rightarrow> path \<Rightarrow> plan" where
  "plan_binary_path p b = p\<lparr>binary_path := Some b\<rparr>"

definition plan_file :: "plan \<Rightarrow> string \<Rightarrow> u8 list \<Rightarrow> plan" where
  "plan_file p name content = p\<lparr>user_files := user_files p @ [new_user_file name content]\<rparr>"

definition plan_executable :: "plan \<Rightarrow> string \<Rightarrow> u8 list \<Rightarrow> plan" where
  "plan_executable p name content =
     p\<lparr>user_files := user_files p @ [make_executable (new_user_file name content)]\<rparr>"

definition plan_timeout :: "plan \<Rightarrow> duration \<Rightarrow> plan" where
  "plan_timeout p t = p\<lparr>timeout := t\<rparr>"

definition plan_memory_limit :: "plan \<Rightarrow> u64 \<Rightarrow> plan" where
  "plan_memory_limit p l = p\<lparr>memory_limit := l\<rparr>"

definition plan_max_pids :: "plan \<Rightarrow> u32 \<Rightarrow> plan" where
  "plan_max_pids p m = p\<lparr>max_pids := m\<rparr>"

definition plan_max_output :: "plan \<Rightarrow> u64 \<Rightarrow> plan" where
  "plan_max_output p m = p\<lparr>max_output := m\<rparr>"

definition plan_network_blocked :: "plan \<Rightarrow> bool \<Rightarrow> plan" where
  "plan_network_blocked p blocked = p\<lparr>network_blocked := blocked\<rparr>"

definition plan_network :: "plan \<Rightarrow> bool \<Rightarrow> plan" where
  "plan_network p enabled = p\<lparr>network_blocked := \<not> enabled\<rparr>"

definition plan_memory :: "plan \<Rightarrow> u64 \<Rightarrow> plan" where
  "plan_memory p l = plan_memory_limit p l"

definition plan_syscalls :: "plan \<Rightarrow> syscalls \<Rightarrow> plan" where
  "plan_syscalls p s = p\<lparr>syscalls_cfg := Some s\<rparr>"

definition plan_landlock :: "plan \<Rightarrow> landlock_config \<Rightarrow> plan" where
  "plan_landlock p l = p\<lparr>landlock_cfg := Some l\<rparr>"

definition plan_notify_mode :: "plan \<Rightarrow> notify_mode \<Rightarrow> plan" where
  "plan_notify_mode p m = p\<lparr>notify_mode := m\<rparr>"

lemmas plan_builder_defs =
  plan_env_def plan_stdin_def plan_cwd_def plan_mount_def plan_mounts_def plan_binary_path_def
  plan_file_def plan_executable_def plan_timeout_def plan_memory_limit_def plan_max_pids_def
  plan_max_output_def plan_network_blocked_def plan_network_def plan_memory_def
  plan_syscalls_def plan_landlock_def plan_notify_mode_def

section \<open>Invariants\<close>

text \<open>A configuration never both allows and denies a number.\<close>

definition syscalls_inv :: "syscalls \<Rightarrow> bool" where
  "syscalls_inv s \<longleftrightarrow> allowed s \<inter> denied s = {} \<and> finite (allowed s) \<and> finite (denied s)"

lemma syscalls_inv_default: "syscalls_inv default_syscalls"
  by (simp add: syscalls_inv_def default_syscalls_def)

lemma syscalls_inv_allow: "syscalls_inv s \<Longrightarrow> syscalls_inv (allow s nr)"
  by (auto simp: syscalls_inv_def allow_def)

lemma syscalls_inv_deny: "syscalls_inv s \<Longrightarrow> syscalls_inv (deny s nr)"
  by (auto simp: syscalls_inv_def deny_def)

lemma allow_many_fold: "allow_many s nrs = fold (\<lambda>nr s. allow s nr) nrs s"
  by (induction nrs arbitrary: s) (simp_all add: allow_def)

lemma deny_many_fold: "deny_many s nrs = fold (\<lambda>nr s. deny s nr) nrs s"
  by (induction nrs arbitrary: s) (simp_all add: deny_def)

lemma syscalls_inv_allow_many: "syscalls_inv s \<Longrightarrow> syscalls_inv (allow_many s nrs)"
  by (induction nrs arbitrary: s) (simp_all add: syscalls_inv_allow flip: allow_def)

lemma syscalls_inv_deny_many: "syscalls_inv s \<Longrightarrow> syscalls_inv (deny_many s nrs)"
  by (induction nrs arbitrary: s) (simp_all add: syscalls_inv_deny flip: deny_def)

lemma allow_many_sets:
  "allowed (allow_many s nrs) = set nrs \<union> allowed s"
  "denied (allow_many s nrs) = denied s - set nrs"
  by (induction nrs arbitrary: s) auto

lemma deny_many_sets:
  "denied (deny_many s nrs) = set nrs \<union> denied s"
  "allowed (deny_many s nrs) = allowed s - set nrs"
  by (induction nrs arbitrary: s) auto

text \<open>The environment keeps one entry per key, and the last write wins.\<close>

lemma default_env_distinct: "distinct (map fst (default_env nix))"
  by (simp add: default_env_def)

lemma plan_env_distinct:
  "distinct (map fst (env p)) \<Longrightarrow> distinct (map fst (env (plan_env p k v)))"
  by (simp add: plan_env_def distinct_update)

lemma plan_env_lookup: "map_of (env (plan_env p k v)) = (map_of (env p))(k \<mapsto> v)"
  by (simp add: plan_env_def update_conv')

end
