(* ===== verification/Lockdown.thy ===== *)
theory Lockdown
  imports Sys_Calls Sandbox_Plan
begin

text \<open>
  \<open>isolation/lockdown.rs\<close> and \<open>isolation/rlimits.rs\<close>: what the child does to itself before
  it runs the command. The order is \<open>NO_NEW_PRIVS\<close>, Landlock, resource limits, securebits,
  capabilities.
\<close>

unbundle bit_operations_syntax

section \<open>Resource limits\<close>

definition sat_add64 :: "u64 \<Rightarrow> u64 \<Rightarrow> u64" where
  "sat_add64 a b = (if unat a + unat b < 2 ^ 64 then a + b else - 1)"

definition sat_mul64 :: "u64 \<Rightarrow> u64 \<Rightarrow> u64" where
  "sat_mul64 a b = (if unat a * unat b < 2 ^ 64 then a * b else - 1)"

definition set_rlimit :: "rlimit_resource \<Rightarrow> u64 \<Rightarrow> (errno, unit) io" where
  "set_rlimit res lim = sys0 (Attr (Setrlimit res lim))"

definition cpu_secs :: "plan \<Rightarrow> u64" where
  "cpu_secs p = sat_add64 (sat_mul64 (of_nat (as_secs (timeout p))) 2) 60"

definition apply_rlimits :: "plan \<Rightarrow> (errno, unit) io" where
  "apply_rlimits p =
     io_then (set_rlimit RLIMIT_DATA (memory_limit p))
     (io_then (set_rlimit RLIMIT_CPU (cpu_secs p))
     (io_then (set_rlimit RLIMIT_FSIZE (max_output p))
     (io_then (set_rlimit RLIMIT_NOFILE 256)
     (io_then (set_rlimit RLIMIT_NPROC (ucast (max_pids p)))
     (io_then (set_rlimit RLIMIT_CORE 0)
              (set_rlimit RLIMIT_STACK (8 * 1024 * 1024)))))))"

section \<open>Landlock\<close>

datatype lockdown_error =
  LdLandlock errno | LdSeccomp errno | LdRlimit errno | LdCapability errno | LdSecurebits errno

definition open_path :: "path \<Rightarrow> (errno, int) io" where
  "open_path p =
     (if has_nul p then io_err EINVAL
      else io_bind (sys (Fd (OpenPath p))) (\<lambda>r. io_ret (ans_ret r)))"

text \<open>
  A path that cannot be opened is skipped, a rule that is refused is only logged; the
  descriptor of the path is closed when it goes out of scope.
\<close>

definition add_path_rule :: "int \<Rightarrow> path \<Rightarrow> u64 \<Rightarrow> (lockdown_error, unit) io" where
  "add_path_rule ruleset_fd p access =
     io_bind (io_try (open_path p)) (\<lambda>r. case r of
        Inl _ \<Rightarrow> io_ret ()
      | Inr fd \<Rightarrow>
          io_then (io_try (landlock_add_rule_path ruleset_fd
                             \<lparr>allowed_access = access, parent_fd = fd\<rparr>))
                  (invoke (Fd (Close fd))))"

definition mount_access :: "mount \<Rightarrow> u64" where
  "mount_access m =
     (if mnt_executable m then read_access
      else read_access AND NOT LANDLOCK_ACCESS_FS_EXECUTE)"

definition ruleset_attr :: "plan \<Rightarrow> u32 \<Rightarrow> landlock_ruleset_attr" where
  "ruleset_attr p abi =
     \<lparr>handled_access_fs = fs_access_for_abi abi,
      handled_access_net = (if network_blocked p \<and> abi \<ge> 4 then net_access_for_abi abi else 0),
      scoped = scope_for_abi abi\<rparr>"

definition system_paths :: "path list" where
  "system_paths = [''/usr'', ''/bin'', ''/lib'', ''/lib64'', ''/etc'']"

definition add_rule_if_exists :: "int \<Rightarrow> path \<Rightarrow> u64 \<Rightarrow> (lockdown_error, unit) io" where
  "add_rule_if_exists ruleset_fd p access =
     io_bind (io_call (Fs (Exists p)))
       (\<lambda>r. io_when (ans_ret r \<noteq> 0) (add_path_rule ruleset_fd p access))"

definition add_rules :: "int \<Rightarrow> plan \<Rightarrow> path \<Rightarrow> path list \<Rightarrow> (lockdown_error, unit) io" where
  "add_rules fd p root extra =
     io_then (io_for (mounts p) (\<lambda>m. io_when (\<not> mnt_writable m)
                                    (add_path_rule fd (mnt_source m) (mount_access m))))
     (io_then (io_for extra (\<lambda>q. add_path_rule fd q read_access))
     (io_then (add_path_rule fd (path_join root ''work'') write_access)
     (io_then (add_path_rule fd (path_join root ''tmp'') write_access)
     (io_then (add_path_rule fd (path_join root ''home'') write_access)
     (io_then (io_for system_paths (\<lambda>q. add_path_rule fd q read_access))
     (io_then (add_rule_if_exists fd ''/nix/store'' read_access)
     (io_then (add_rule_if_exists fd ''/run/current-system'' read_access)
     (io_then (add_path_rule fd ''/proc'' (read_access AND NOT LANDLOCK_ACCESS_FS_EXECUTE))
              (add_path_rule fd ''/dev''
                 ((read_access AND NOT LANDLOCK_ACCESS_FS_EXECUTE)
                    OR LANDLOCK_ACCESS_FS_WRITE_FILE))))))))))"

text \<open>The ruleset descriptor is closed on both ways out of the function.\<close>

definition apply_landlock_v5 :: "plan \<Rightarrow> path \<Rightarrow> path list \<Rightarrow> (lockdown_error, unit) io" where
  "apply_landlock_v5 p root extra =
     io_bind (io_try landlock_abi_version) (\<lambda>v. case v of
        Inl _ \<Rightarrow> io_ret ()
      | Inr abi \<Rightarrow>
          io_bind (io_map_err LdLandlock (landlock_create_ruleset (ruleset_attr p abi)))
            (\<lambda>fd. io_then (add_rules fd p root extra)
               (io_bind (io_try (landlock_restrict_self fd))
                  (\<lambda>r. io_then (invoke (Fd (Close fd)))
                         (io_map_err LdLandlock (io_lift r))))))"

section \<open>Privileges\<close>

definition SECBIT_NOROOT :: u64 where "SECBIT_NOROOT = push_bit 0 1"
definition SECBIT_NOROOT_LOCKED :: u64 where "SECBIT_NOROOT_LOCKED = push_bit 1 1"
definition SECBIT_NO_SETUID_FIXUP :: u64 where "SECBIT_NO_SETUID_FIXUP = push_bit 2 1"
definition SECBIT_NO_SETUID_FIXUP_LOCKED :: u64 where
  "SECBIT_NO_SETUID_FIXUP_LOCKED = push_bit 3 1"
definition SECBIT_KEEP_CAPS_LOCKED :: u64 where "SECBIT_KEEP_CAPS_LOCKED = push_bit 5 1"
definition SECBIT_NO_CAP_AMBIENT_RAISE :: u64 where
  "SECBIT_NO_CAP_AMBIENT_RAISE = push_bit 6 1"
definition SECBIT_NO_CAP_AMBIENT_RAISE_LOCKED :: u64 where
  "SECBIT_NO_CAP_AMBIENT_RAISE_LOCKED = push_bit 7 1"

definition securebits :: u64 where
  "securebits = SECBIT_NOROOT OR SECBIT_NOROOT_LOCKED OR SECBIT_NO_SETUID_FIXUP
     OR SECBIT_NO_SETUID_FIXUP_LOCKED OR SECBIT_KEEP_CAPS_LOCKED
     OR SECBIT_NO_CAP_AMBIENT_RAISE OR SECBIT_NO_CAP_AMBIENT_RAISE_LOCKED"

definition apply_securebits :: "(lockdown_error, unit) io" where
  "apply_securebits = invoke (Attr (PrSetSecurebits securebits))"

definition set_no_new_privs :: "(lockdown_error, unit) io" where
  "set_no_new_privs = io_map_err LdCapability (sys0 (Attr PrSetNoNewPrivs))"

definition drop_all_caps :: "(lockdown_error, unit) io" where
  "drop_all_caps =
     io_then (invoke (Attr PrCapAmbientClearAll))
       (io_for [0..<64] (\<lambda>cap. invoke (Attr (PrCapbsetDrop cap))))"

definition lockdown :: "plan \<Rightarrow> path \<Rightarrow> path list \<Rightarrow> (lockdown_error, unit) io" where
  "lockdown p root extra =
     io_then set_no_new_privs
     (io_then (apply_landlock_v5 p root extra)
     (io_then (io_map_err LdRlimit (apply_rlimits p))
     (io_then apply_securebits drop_all_caps)))"

definition close_extra_fds :: "('e, unit) io" where
  "close_extra_fds = invoke (Fd (CloseRange 3 (- 1) 0))"

section \<open>What a history shows\<close>

text \<open>
  \<open>rules_from G h\<close>: every rule added in \<open>h\<close> names the descriptor that the call just
  before it opened for a path, with rights \<open>G\<close> lists for that path.
\<close>

definition rules_from :: "(path \<times> u64) set \<Rightarrow> hist \<Rightarrow> bool" where
  "rules_from G h \<longleftrightarrow> (\<forall>i < length h. \<forall>fd r. fst (h ! i) = Ll (LandlockAddRule fd r) \<longrightarrow>
     0 < i \<and> (\<exists>p. fst (h ! (i - 1)) = Fd (OpenPath p)
                \<and> ans_ret (snd (h ! (i - 1))) = parent_fd r \<and> (p, allowed_access r) \<in> G))"

definition is_rule :: "call \<Rightarrow> bool" where
  "is_rule c \<longleftrightarrow> (\<exists>fd r. c = Ll (LandlockAddRule fd r))"

lemma rules_from_Nil [simp]: "rules_from G []"
  by (simp add: rules_from_def)

lemma rules_from_other:
  assumes "rules_from G h" and "\<forall>e \<in> set t. \<not> is_rule (fst e)"
  shows "rules_from G (h @ t)"
  unfolding rules_from_def
proof (intro allI impI)
  fix i fd r
  assume i: "i < length (h @ t)" and e: "fst ((h @ t) ! i) = Ll (LandlockAddRule fd r)"
  have "i < length h"
  proof (rule ccontr)
    assume "\<not> i < length h"
    then have "(h @ t) ! i \<in> set t" using i by (auto simp: nth_append)
    with e assms(2) show False by (auto simp: is_rule_def)
  qed
  with e assms(1) show "0 < i \<and> (\<exists>p. fst ((h @ t) ! (i - 1)) = Fd (OpenPath p)
      \<and> ans_ret (snd ((h @ t) ! (i - 1))) = parent_fd r \<and> (p, allowed_access r) \<in> G)"
    by (auto simp: rules_from_def nth_append)
qed

lemma rules_from_call: "rules_from G h \<Longrightarrow> \<not> is_rule c \<Longrightarrow> rules_from G (h @ [(c, a)])"
  by (simp add: rules_from_other)

lemma rules_from_rule:
  assumes "rules_from G (h @ [(Fd (OpenPath p), a)])" and "ans_ret a = parent_fd r"
    and "(p, allowed_access r) \<in> G"
  shows "rules_from G (h @ [(Fd (OpenPath p), a), (Ll (LandlockAddRule fd r), b)])"
  unfolding rules_from_def
proof (intro allI impI)
  let ?h = "h @ [(Fd (OpenPath p), a), (Ll (LandlockAddRule fd r), b)]"
  fix i fd' r'
  assume i: "i < length ?h" and e: "fst (?h ! i) = Ll (LandlockAddRule fd' r')"
  consider "i < length h + 1" | "i = length h + 1" using i by fastforce
  then show "0 < i \<and> (\<exists>p. fst (?h ! (i - 1)) = Fd (OpenPath p)
      \<and> ans_ret (snd (?h ! (i - 1))) = parent_fd r' \<and> (p, allowed_access r') \<in> G)"
  proof cases
    case 1
    then have "(h @ [(Fd (OpenPath p), a)]) ! i = ?h ! i"
      "(h @ [(Fd (OpenPath p), a)]) ! (i - 1) = ?h ! (i - 1)"
      by (auto simp: nth_append less_Suc_eq)
    with 1 e assms(1) show ?thesis by (auto simp: rules_from_def)
  next
    case 2
    with e assms(2,3) show ?thesis by (auto simp: nth_append)
  qed
qed

lemma is_rule_simps [simp]:
  "is_rule (Ll (LandlockAddRule fd r))" "\<not> is_rule (Attr c1)" "\<not> is_rule (Fd c2)"
  "\<not> is_rule (Fs c3)" "\<not> is_rule (Proc c4)" "\<not> is_rule (Nt c5)" "\<not> is_rule (Mio c6)"
  "\<not> is_rule (Ll LandlockVersion)" "\<not> is_rule (Ll (LandlockCreate at))"
  "\<not> is_rule (Ll (LandlockRestrict fd))"
  by (simp_all add: is_rule_def)

end
