(* ===== verification/Workspace.thy ===== *)
theory Workspace
  imports Sys_Calls
begin

text \<open>
  \<open>workspace.rs\<close>: the pipes, the event descriptors and the temporary directory of a sandbox.
  An owned descriptor that goes out of scope is closed; the model writes these closes out.
\<close>

section \<open>Pipes\<close>

record pipe =
  read_end :: int
  write_end :: int

record sync_pair =
  child_ready :: int
  parent_done :: int

record pipes =
  p_stdin :: pipe
  p_stdout :: pipe
  p_stderr :: pipe
  p_sync :: sync_pair

definition close_fd :: "int \<Rightarrow> ('e, unit) io" where
  "close_fd fd = invoke (Fd (Close fd))"

definition new_pipe :: "(io_error, pipe) io" where
  "new_pipe =
     io_bind (io_call (Fd Pipe2))
       (\<lambda>r. if ans_ret r \<noteq> 0 then io_err (Os (ans_errno r))
            else io_ret \<lparr>read_end = ans_vals r ! 0, write_end = ans_vals r ! 1\<rparr>)"

definition new_sync_pair :: "(io_error, sync_pair) io" where
  "new_sync_pair =
     io_bind (io_call (Fd Eventfd))
       (\<lambda>r. if ans_ret r < 0 then io_err (Os (ans_errno r))
            else io_bind (io_call (Fd Eventfd))
              (\<lambda>d. if ans_ret d < 0
                   then io_then (close_fd (ans_ret r)) (io_err (Os (ans_errno d)))
                   else io_ret \<lparr>child_ready = ans_ret r, parent_done = ans_ret d\<rparr>))"

definition drop_pipe :: "pipe \<Rightarrow> ('e, unit) io" where
  "drop_pipe p = io_then (close_fd (read_end p)) (close_fd (write_end p))"

definition drop_sync :: "sync_pair \<Rightarrow> ('e, unit) io" where
  "drop_sync s = io_then (close_fd (child_ready s)) (close_fd (parent_done s))"

definition new_pipes :: "(io_error, pipes) io" where
  "new_pipes =
     io_bind new_pipe (\<lambda>i. io_on_err
      (io_bind new_pipe (\<lambda>out. io_on_err
        (io_bind new_pipe (\<lambda>err. io_on_err
          (io_bind new_sync_pair (\<lambda>s.
             io_ret \<lparr>p_stdin = i, p_stdout = out, p_stderr = err, p_sync = s\<rparr>))
          (drop_pipe err)))
        (drop_pipe out)))
      (drop_pipe i))"

definition drop_pipes :: "pipes \<Rightarrow> ('e, unit) io" where
  "drop_pipes p =
     io_then (drop_pipe (p_stdin p)) (io_then (drop_pipe (p_stdout p))
       (io_then (drop_pipe (p_stderr p)) (drop_sync (p_sync p))))"

section \<open>The directory\<close>

record workspace =
  ws_root :: path
  ws_pipes :: pipes

definition fs_op :: "fs_call \<Rightarrow> (io_error, answer) io" where
  "fs_op c = io_map_err Os (sys (Fs c))"

definition remove_dir_all :: "path \<Rightarrow> ('e, unit) io" where
  "remove_dir_all p = invoke (Fs (RemoveDirAll p))"

definition workspace_with_prefix :: "string \<Rightarrow> (io_error, workspace) io" where
  "workspace_with_prefix pre =
     io_bind (fs_op (TempDir pre))
       (\<lambda>r. io_on_err
          (io_bind new_pipes (\<lambda>p. io_ret \<lparr>ws_root = ans_str r, ws_pipes = p\<rparr>))
          (remove_dir_all (ans_str r)))"

definition new_workspace :: "(io_error, workspace) io" where
  "new_workspace = workspace_with_prefix ''evalbox-''"

definition drop_workspace :: "workspace \<Rightarrow> ('e, unit) io" where
  "drop_workspace ws = io_then (drop_pipes (ws_pipes ws)) (remove_dir_all (ws_root ws))"

definition write_file :: "workspace \<Rightarrow> path \<Rightarrow> u8 list \<Rightarrow> bool \<Rightarrow> (io_error, path) io" where
  "write_file ws p content is_executable =
     (let full = path_join (ws_root ws) p in
      io_then (case path_parent full of
                 Some parent \<Rightarrow> io_then (fs_op (CreateDirAll parent)) (io_ret ())
               | None \<Rightarrow> io_ret ())
      (io_then (fs_op (FsWrite full content))
      (io_then (io_when is_executable (io_then (fs_op (SetMode full 0x1ED)) (io_ret ())))
        (io_ret full))))"

definition create_dir :: "workspace \<Rightarrow> path \<Rightarrow> (io_error, path) io" where
  "create_dir ws p =
     (let full = path_join (ws_root ws) p in
      io_then (fs_op (CreateDirAll full)) (io_ret full))"

definition setup_sandbox_dirs :: "workspace \<Rightarrow> (io_error, unit) io" where
  "setup_sandbox_dirs ws =
     io_for [''work'', ''tmp'', ''home''] (\<lambda>d. io_then (create_dir ws d) (io_ret ()))"

section \<open>Descriptors\<close>

definition pipes_fds :: "pipes \<Rightarrow> int list" where
  "pipes_fds p =
     [read_end (p_stdin p), write_end (p_stdin p), read_end (p_stdout p), write_end (p_stdout p),
      read_end (p_stderr p), write_end (p_stderr p), child_ready (p_sync p), parent_done (p_sync p)]"

text \<open>A constructor that leaves nothing open when it fails, and satisfies \<open>P\<close> when it
  succeeds.\<close>

definition all_or_nothing :: "(io_error, 'a) io \<Rightarrow> ('a \<Rightarrow> hist \<Rightarrow> bool) \<Rightarrow> bool" where
  "all_or_nothing m P \<longleftrightarrow>
     (\<forall>K h. runs m K (\<lambda>r t. case r of Inl e \<Rightarrow> leak_free t | Inr x \<Rightarrow> P x t) h)"

definition pipe_fds :: "pipe \<Rightarrow> int set" where
  "pipe_fds p = {read_end p, write_end p}"

lemma new_pipe_all: "all_or_nothing new_pipe (\<lambda>p. holding (pipe_fds p))"
  unfolding all_or_nothing_def runs_wp new_pipe_def
  by (simp add: wp_rules pipe_fds_def)

lemma new_sync_all:
  "all_or_nothing (io_bind new_sync_pair (\<lambda>s. io_ret \<lparr>p_stdin = i, p_stdout = out, p_stderr = err, p_sync = s\<rparr>))
     (\<lambda>p t. holding {child_ready (p_sync p), parent_done (p_sync p)} t
        \<and> p_stdin p = i \<and> p_stdout p = out \<and> p_stderr p = err)"
  unfolding all_or_nothing_def runs_wp new_sync_pair_def close_fd_def
  by (simp add: wp_rules)

lemma drop_pipe_runs:
  "runs (drop_pipe p) K (\<lambda>r t. r = Inr () \<and> leak_free t
     \<and> pipe_fds p \<subseteq> {fd. Fd (Close fd) \<in> fst ` set t}) h"
  unfolding runs_wp drop_pipe_def close_fd_def
  by (auto simp: wp_rules pipe_fds_def)

lemma runs_on_err:
  assumes "runs m K P h"
    and "\<And>x t. P (Inr x) t \<Longrightarrow> Q (Inr x) t"
    and "\<And>e t. P (Inl e) t \<Longrightarrow> runs c K (\<lambda>r u. Q (case r of Inl e' \<Rightarrow> Inl e' | Inr _ \<Rightarrow> Inl e) (t @ u)) (h @ t)"
  shows "runs (io_on_err m c) K Q h"
proof -
  from assms(1) obtain r t where m: "m K h = (r, h @ t)" "P r t" unfolding runs_def by blast
  show ?thesis
  proof (cases r)
    case (Inr x)
    with m assms(2) show ?thesis
      by (auto simp: runs_def io_on_err_def io_bind_def io_try_def io_ret_def)
  next
    case (Inl e)
    with m assms(3) obtain r' u where "c K (h @ t) = (r', (h @ t) @ u)"
      "Q (case r' of Inl e' \<Rightarrow> Inl e' | Inr _ \<Rightarrow> Inl e) (t @ u)" unfolding runs_def by blast
    with m Inl show ?thesis
      by (cases r') (auto simp: runs_def io_on_err_def io_bind_def io_try_def io_then_def io_err_def)
  qed
qed

lemma all_or_nothing_step:
  assumes "\<And>x. all_or_nothing (g x) (Pg x)"
    and "\<And>x y t u. holding (pipe_fds x) t \<Longrightarrow> Pg x y u \<Longrightarrow> P y (t @ u)"
  shows "all_or_nothing (io_bind new_pipe (\<lambda>x. io_on_err (g x) (drop_pipe x))) P"
proof -
  let ?Q = "\<lambda>r t. case r of Inl e \<Rightarrow> leak_free t | Inr x \<Rightarrow> P x t"
  have step: "runs (io_on_err (g x) (drop_pipe x)) K (\<lambda>r u. ?Q r (t @ u)) h"
    if t: "holding (pipe_fds x) t" for x t K h
  proof (rule runs_on_err [OF assms(1) [unfolded all_or_nothing_def, rule_format]])
    show "?Q (Inr y) (t @ u)" if "case Inr y of Inl e \<Rightarrow> leak_free u | Inr y \<Rightarrow> Pg x y u" for y u
      using assms(2) [OF t] that by simp
  next
    fix e u assume "case Inl e of Inl e \<Rightarrow> leak_free u | Inr y \<Rightarrow> Pg x y u"
    then have "holding {} (t @ u @ v)"
      if "leak_free v" "pipe_fds x \<subseteq> {fd. Fd (Close fd) \<in> fst ` set v}" for v
      using that by (intro holding_append [OF t] leak_free_append [unfolded leak_free_def])
        (auto simp: leak_free_def)
    then show "runs (drop_pipe x) K
        (\<lambda>r v. ?Q (case r of Inl e' \<Rightarrow> Inl e' | Inr _ \<Rightarrow> Inl e) (t @ u @ v)) (h @ u)"
      by (intro runs_mono [OF drop_pipe_runs]) (auto simp: leak_free_def)
  qed
  show ?thesis
    unfolding all_or_nothing_def
    using new_pipe_all
    by (auto simp: all_or_nothing_def intro!: runs_bind step)
qed

lemma new_pipes_all: "all_or_nothing new_pipes (\<lambda>p. holding (set (pipes_fds p)))"
proof -
  let ?sync = "\<lambda>p. {child_ready (p_sync p), parent_done (p_sync p)}"
  let ?last = "\<lambda>i out err. io_bind new_sync_pair
      (\<lambda>s. io_ret \<lparr>p_stdin = i, p_stdout = out, p_stderr = err, p_sync = s\<rparr>)"
  let ?three = "\<lambda>i out. io_bind new_pipe (\<lambda>err. io_on_err (?last i out err) (drop_pipe err))"
  let ?two = "\<lambda>i. io_bind new_pipe (\<lambda>out. io_on_err (?three i out) (drop_pipe out))"
  have 3: "all_or_nothing (?three i out) (\<lambda>p t. holding (pipe_fds (p_stderr p) \<union> ?sync p) t
      \<and> p_stdin p = i \<and> p_stdout p = out)" for i out
    by (rule all_or_nothing_step [OF new_sync_all])
      (auto intro: holding_append_mono)
  have 2: "all_or_nothing (?two i) (\<lambda>p t.
      holding (pipe_fds (p_stdout p) \<union> pipe_fds (p_stderr p) \<union> ?sync p) t \<and> p_stdin p = i)" for i
    by (rule all_or_nothing_step [OF 3])
      (auto intro: holding_append_mono)
  show ?thesis
    unfolding new_pipes_def
    by (rule all_or_nothing_step [OF 2])
      (auto simp: pipes_fds_def pipe_fds_def intro: holding_append_mono)
qed

text \<open>Creating the pipes is all or nothing: on failure every descriptor created so far has
  been closed again; on success, the descriptors not yet closed are the eight of the result.\<close>

theorem new_pipes_leak_free:
  "\<exists>t. snd (new_pipes K h) = h @ t
     \<and> (case fst (new_pipes K h) of Inl e \<Rightarrow> leak_free t | Inr p \<Rightarrow> holding (set (pipes_fds p)) t)"
  using runs_result [OF new_pipes_all [unfolded all_or_nothing_def, rule_format]] by blast

end
