(* ===== verification/Std_Text.thy ===== *)
theory Std_Text
  imports Prelude
begin

text \<open>
  The text functions of Rust's standard library that several components use: decimal
  formatting, UTF-8 validation (\<open>String::from_utf8\<close>), and bytes as characters. Strings are
  the byte sequences of their UTF-8 encoding.
\<close>

section \<open>Bytes and strings\<close>

definition bytes_to_string :: "u8 list \<Rightarrow> string" where
  "bytes_to_string bs = map (\<lambda>b. char_of (unat b)) bs"

definition string_to_bytes :: "string \<Rightarrow> u8 list" where
  "string_to_bytes s = map (\<lambda>c. of_nat (of_char c)) s"

lemma bytes_to_string_inverse [simp]: "bytes_to_string (string_to_bytes s) = s"
  by (induction s) (simp_all add: bytes_to_string_def string_to_bytes_def unat_of_nat)

lemma string_to_bytes_inverse [simp]: "string_to_bytes (bytes_to_string bs) = bs"
proof -
  have "unat b < 256" for b :: u8 using unsigned_less [of b] by simp
  then show ?thesis
    by (induction bs) (simp_all add: bytes_to_string_def string_to_bytes_def)
qed

section \<open>Decimal numbers\<close>

definition digit_char :: "nat \<Rightarrow> char" where
  "digit_char d = char_of (48 + d)"

fun dec :: "nat \<Rightarrow> string" where
  "dec n = (if n < 10 then [digit_char n] else dec (n div 10) @ [digit_char (n mod 10)])"

declare dec.simps [simp del]

text \<open>\<open>str::parse\<close> at an unsigned type whose largest value is \<open>max\<close>: an optional plus sign
  and at least one digit.\<close>

definition is_digit :: "char \<Rightarrow> bool" where
  "is_digit c \<longleftrightarrow> 48 \<le> (of_char c :: nat) \<and> (of_char c :: nat) \<le> 57"

definition digits_value :: "nat \<Rightarrow> string \<Rightarrow> nat" where
  "digits_value a s = foldl (\<lambda>a c. 10 * a + (of_char c - 48)) a s"

definition parse_unsigned :: "nat \<Rightarrow> string \<Rightarrow> nat option" where
  "parse_unsigned mx s =
    (let ds = (if s \<noteq> [] \<and> hd s = CHR ''+'' then tl s else s)
     in if ds = [] \<or> \<not> list_all is_digit ds then None
        else if digits_value 0 ds \<le> mx then Some (digits_value 0 ds) else None)"

definition parse_u32 :: "string \<Rightarrow> u32 option" where
  "parse_u32 s = map_option of_nat (parse_unsigned (2 ^ 32 - 1) s)"

lemma of_digit_char: "d < 10 \<Longrightarrow> (of_char (digit_char d) :: nat) = 48 + d"
  by (simp add: digit_char_def)

lemma is_digit_char: "d < 10 \<Longrightarrow> is_digit (digit_char d)"
  by (simp add: is_digit_def of_digit_char)

lemma dec_digits: "list_all is_digit (dec n) \<and> dec n \<noteq> []"
proof (induction n rule: dec.induct)
  case (1 n)
  show ?case
  proof (cases "n < 10")
    case True
    then show ?thesis by (simp add: dec.simps [of n] is_digit_char)
  next
    case False
    with 1 show ?thesis by (simp add: dec.simps [of n] is_digit_char)
  qed
qed

lemma digits_value_dec: "digits_value 0 (dec n) = n"
proof (induction n rule: dec.induct)
  case (1 n)
  then show ?case
    by (auto simp: dec.simps [of n] digits_value_def of_digit_char)
qed

lemma parse_dec: "n \<le> mx \<Longrightarrow> parse_unsigned mx (dec n) = Some n"
proof -
  have "hd (dec n) \<noteq> CHR ''+''"
    using dec_digits [of n] by (cases "dec n") (auto simp: is_digit_def)
  then show "n \<le> mx \<Longrightarrow> parse_unsigned mx (dec n) = Some n"
    using dec_digits [of n] by (simp add: parse_unsigned_def Let_def digits_value_dec)
qed

section \<open>UTF-8\<close>

definition in_range :: "nat \<Rightarrow> nat \<Rightarrow> u8 \<Rightarrow> bool" where
  "in_range lo hi b \<longleftrightarrow> lo \<le> unat b \<and> unat b \<le> hi"

abbreviation utf8_cont :: "u8 \<Rightarrow> bool" where
  "utf8_cont \<equiv> in_range 0x80 0xBF"

text \<open>What may follow a lead byte: the ranges of the continuation bytes, \<open>None\<close> for a byte
  that starts no character.\<close>

definition utf8_tail :: "u8 \<Rightarrow> (u8 \<Rightarrow> bool) list option" where
  "utf8_tail b =
    (if in_range 0 0x7F b then Some []
     else if in_range 0xC2 0xDF b then Some [utf8_cont]
     else if in_range 0xE0 0xE0 b then Some [in_range 0xA0 0xBF, utf8_cont]
     else if in_range 0xED 0xED b then Some [in_range 0x80 0x9F, utf8_cont]
     else if in_range 0xE1 0xEF b then Some [utf8_cont, utf8_cont]
     else if in_range 0xF0 0xF0 b then Some [in_range 0x90 0xBF, utf8_cont, utf8_cont]
     else if in_range 0xF1 0xF3 b then Some [utf8_cont, utf8_cont, utf8_cont]
     else if in_range 0xF4 0xF4 b then Some [in_range 0x80 0x8F, utf8_cont, utf8_cont]
     else None)"

fun utf8_check :: "(u8 \<Rightarrow> bool) list \<Rightarrow> u8 list \<Rightarrow> bool" where
  "utf8_check [] [] = True"
| "utf8_check (P # Ps) [] = False"
| "utf8_check (P # Ps) (b # bs) = (P b \<and> utf8_check Ps bs)"
| "utf8_check [] (b # bs) = (case utf8_tail b of None \<Rightarrow> False | Some Ps \<Rightarrow> utf8_check Ps bs)"

definition utf8_valid :: "u8 list \<Rightarrow> bool" where
  "utf8_valid bs = utf8_check [] bs"

lemma utf8_ascii: "\<forall>b \<in> set bs. unat b < 128 \<Longrightarrow> utf8_valid bs"
proof -
  have "\<forall>b \<in> set bs. unat b < 128 \<Longrightarrow> utf8_check [] bs"
    by (induction bs) (auto simp: utf8_tail_def in_range_def)
  then show "\<forall>b \<in> set bs. unat b < 128 \<Longrightarrow> utf8_valid bs" by (simp add: utf8_valid_def)
qed

section \<open>Lossy decoding\<close>

text \<open>
  \<open>String::from_utf8_lossy\<close>: every maximal prefix of a character that cannot be completed
  becomes one U+FFFD.
\<close>

definition replacement :: "u8 list" where
  "replacement = [0xEF, 0xBF, 0xBD]"

fun matched :: "(u8 \<Rightarrow> bool) list \<Rightarrow> u8 list \<Rightarrow> nat" where
  "matched (P # Ps) (b # bs) = (if P b then Suc (matched Ps bs) else 0)"
| "matched [] bs = 0"
| "matched (P # Ps) [] = 0"

lemma matched_le: "matched Ps bs \<le> length Ps" "matched Ps bs \<le> length bs"
  by (induction Ps bs rule: matched.induct) auto

function utf8_lossy :: "u8 list \<Rightarrow> u8 list" where
  "utf8_lossy [] = []"
| "utf8_lossy (b # bs) =
    (case utf8_tail b of
       None \<Rightarrow> replacement @ utf8_lossy bs
     | Some Ps \<Rightarrow>
        if matched Ps bs = length Ps
        then b # take (length Ps) bs @ utf8_lossy (drop (length Ps) bs)
        else replacement @ utf8_lossy (drop (matched Ps bs) bs))"
  by pat_completeness auto
termination by (relation "measure length") auto

lemma utf8_check_matched:
  "utf8_check Ps bs \<longleftrightarrow> matched Ps bs = length Ps \<and> utf8_check [] (drop (length Ps) bs)"
  by (induction Ps bs rule: matched.induct) (auto split: option.splits)

lemma utf8_lossy_valid_id: "utf8_valid bs \<Longrightarrow> utf8_lossy bs = bs"
proof (induction bs rule: utf8_lossy.induct)
  case (2 b bs)
  from "2.prems" obtain Ps where t: "utf8_tail b = Some Ps" and c: "utf8_check Ps bs"
    by (auto simp: utf8_valid_def split: option.splits)
  from c have m: "matched Ps bs = length Ps" and r: "utf8_valid (drop (length Ps) bs)"
    unfolding utf8_valid_def by (auto simp: utf8_check_matched [of Ps])
  have "utf8_lossy (drop (length Ps) bs) = drop (length Ps) bs"
    using "2.IH"(2) [OF t m] r by simp
  then show ?case using t m by simp
qed simp

lemma utf8_check_append:
  "matched Ps us = length Ps \<Longrightarrow> length us = length Ps \<Longrightarrow> utf8_check Ps (us @ bs) = utf8_check [] bs"
  by (induction Ps us rule: matched.induct) (auto split: if_splits)

lemma matched_take: "matched Ps (take (length Ps) bs) = matched Ps bs"
  by (induction Ps bs rule: matched.induct) auto

lemma utf8_lossy_valid: "utf8_valid (utf8_lossy bs)"
proof (induction bs rule: utf8_lossy.induct)
  case 1
  then show ?case by (simp add: utf8_valid_def)
next
  case (2 b bs)
  have rep: "utf8_valid (replacement @ u) = utf8_valid u" for u
    by (simp add: utf8_valid_def replacement_def utf8_tail_def in_range_def)
  show ?case
  proof (cases "utf8_tail b")
    case None
    with 2 show ?thesis by (simp add: rep)
  next
    case (Some Ps)
    show ?thesis
    proof (cases "matched Ps bs = length Ps")
      case True
      then have "length (take (length Ps) bs) = length Ps"
        using matched_le(2) [of Ps bs] by simp
      then have "utf8_check Ps (take (length Ps) bs @ u) = utf8_check [] u" for u
        using True by (intro utf8_check_append) (simp_all add: matched_take)
      then show ?thesis using 2(2) [OF Some True] Some True by (simp add: utf8_valid_def)
    next
      case False
      then show ?thesis using 2(3) [OF Some False] Some by (simp add: rep)
    qed
  qed
qed

text \<open>\<open>Path::to_str\<close> and \<open>to_string_lossy\<close>.\<close>

definition to_str :: "string \<Rightarrow> string option" where
  "to_str s = (if utf8_valid (string_to_bytes s) then Some s else None)"

definition to_string_lossy :: "string \<Rightarrow> string" where
  "to_string_lossy s = bytes_to_string (utf8_lossy (string_to_bytes s))"

lemma to_string_lossy_id: "to_str s = Some t \<Longrightarrow> to_string_lossy s = s \<and> t = s"
  by (auto simp: to_str_def to_string_lossy_def utf8_lossy_valid_id split: if_splits)

section \<open>Little-endian numbers\<close>

primrec to_le :: "nat \<Rightarrow> nat \<Rightarrow> u8 list" where
  "to_le 0 v = []"
| "to_le (Suc n) v = of_nat v # to_le n (v div 256)"

primrec from_le :: "u8 list \<Rightarrow> nat" where
  "from_le [] = 0"
| "from_le (b # bs) = unat b + 256 * from_le bs"

lemma length_to_le [simp]: "length (to_le n v) = n"
  by (induction n arbitrary: v) simp_all

lemma from_to_le: "v < 256 ^ n \<Longrightarrow> from_le (to_le n v) = v"
proof (induction n arbitrary: v)
  case (Suc n)
  then have "v div 256 < 256 ^ n" by (simp add: less_mult_imp_div_less mult.commute)
  then show ?case using Suc.IH by (simp add: unat_of_nat)
qed simp

lemma from_le_less: "from_le bs < 256 ^ length bs"
proof (induction bs)
  case (Cons b bs)
  have "unat b < 256" using unsigned_less [of b] by simp
  with Cons show ?case by simp
qed simp

end
