(* ===== verification/Scm_Rights.thy ===== *)
theory Scm_Rights
  imports Sys_Calls Std_Text
begin

text \<open>
  \<open>notify/scm_rights.rs\<close>: passing the listener descriptor from the child to the parent. The
  \<open>CMSG\<close> macros are those of \<open>cmsg(3)\<close> on a 64-bit target: a header of 16 bytes (the length
  as 8 bytes, level and type as 4 bytes each), the data, and alignment to 8 bytes.
\<close>

definition SOL_SOCKET :: nat where "SOL_SOCKET = 1"
definition SCM_RIGHTS :: nat where "SCM_RIGHTS = 1"
definition CMSG_HDR :: nat where "CMSG_HDR = 16"
definition CMSG_LEN :: "nat \<Rightarrow> nat" where "CMSG_LEN n = CMSG_HDR + n"
definition CMSG_SPACE :: "nat \<Rightarrow> nat" where "CMSG_SPACE n = CMSG_HDR + (n + 7) div 8 * 8"

definition create_socketpair :: "(io_error, int \<times> int) io" where
  "create_socketpair =
     io_bind (io_call (Fd Socketpair))
       (\<lambda>r. if ans_ret r < 0 then io_err (Os (ans_errno r))
            else io_ret (ans_vals r ! 0, ans_vals r ! 1))"

text \<open>The control buffer of \<open>send_fd\<close>: one header and one descriptor, then the padding the
  buffer was created with.\<close>

definition encode_cmsg :: "i32 \<Rightarrow> u8 list" where
  "encode_cmsg fd =
     to_le 8 (CMSG_LEN 4) @ to_le 4 SOL_SOCKET @ to_le 4 SCM_RIGHTS @ to_le 4 (unat fd)
     @ replicate (CMSG_SPACE 4 - CMSG_LEN 4) 0"

definition send_fd :: "int \<Rightarrow> int \<Rightarrow> (io_error, unit) io" where
  "send_fd socket fd =
     (if CMSG_SPACE 4 < CMSG_HDR then io_err (OtherError ''CMSG_FIRSTHDR null'')
      else io_bind (io_call (Fd (Sendmsg socket [0] (encode_cmsg (of_int fd)))))
       (\<lambda>r. if ans_ret r < 0 then io_err (Os (ans_errno r)) else io_ret ()))"

text \<open>
  \<open>recv_fd\<close> reads the control buffer, of which the kernel overwrites the first bytes and
  reports how many, without looking at the message's length field.
\<close>

definition decode_cmsg :: "nat \<Rightarrow> u8 list \<Rightarrow> io_error + i32" where
  "decode_cmsg controllen written =
     (let buf = take (CMSG_SPACE 4) (written @ replicate (CMSG_SPACE 4) 0);
          level = from_le (take 4 (drop 8 buf));
          ctype = from_le (take 4 (drop 12 buf))
      in if controllen < CMSG_HDR then Inl (InvalidData ''no control message received'')
         else if level \<noteq> SOL_SOCKET \<or> ctype \<noteq> SCM_RIGHTS
         then Inl (InvalidData ''unexpected control message type'')
         else Inr (of_nat (from_le (take 4 (drop 16 buf)))))"

definition recv_fd :: "int \<Rightarrow> (io_error, int) io" where
  "recv_fd socket =
     io_bind (io_call (Fd (Recvmsg socket 1 (CMSG_SPACE 4))))
       (\<lambda>r. if ans_ret r < 0 then io_err (Os (ans_errno r))
            else io_bind (io_lift (decode_cmsg (nat (ans_vals r ! 0)) (ans_data r)))
                   (\<lambda>fd. io_ret (sint fd)))"

section \<open>Properties\<close>

text \<open>C30: the control message \<open>send_fd\<close> builds fills its buffer and is read back by \<open>recv_fd\<close>
  as the same descriptor; an empty control message is refused.\<close>

theorem cmsg_round_trip:
  "length (encode_cmsg fd) = CMSG_SPACE 4
   \<and> decode_cmsg (CMSG_SPACE 4) (encode_cmsg fd) = Inr fd
   \<and> decode_cmsg 0 bs = Inl (InvalidData ''no control message received'')"
proof -
  have fd: "unat fd < 256 ^ 4" using unsigned_less [of fd] by simp
  have sizes: "CMSG_SPACE 4 = 24" "CMSG_LEN 4 = 20" "CMSG_HDR = 16"
    by (simp_all add: CMSG_SPACE_def CMSG_LEN_def CMSG_HDR_def)
  have len: "length (encode_cmsg fd) = 24" by (simp add: encode_cmsg_def sizes)
  have parts: "take 4 (drop 8 (encode_cmsg fd)) = to_le 4 SOL_SOCKET"
    "take 4 (drop 12 (encode_cmsg fd)) = to_le 4 SCM_RIGHTS"
    "take 4 (drop 16 (encode_cmsg fd)) = to_le 4 (unat fd)"
    by (simp_all add: encode_cmsg_def)
  have "from_le (to_le 4 (unat fd)) = unat fd" by (rule from_to_le [OF fd])
  then show ?thesis
    using len
    by (simp add: decode_cmsg_def Let_def sizes parts from_to_le SOL_SOCKET_def SCM_RIGHTS_def)
qed

end
