(* ===== verification/Sys_Check.thy ===== *)
theory Sys_Check
  imports Sys_Calls Std_Text "HOL-Library.Product_Lexorder"
begin

text \<open>
  \<open>evalbox-sys/src/check.rs\<close>: the check of the running system and its cache.
\<close>

type_synonym kernel_version = "u32 \<times> u32 \<times> u32"

record system_info =
  si_kernel_version :: kernel_version
  si_landlock_abi :: u32
  si_seccomp_enabled :: bool

datatype check_error =
  KernelTooOld kernel_version kernel_version
| LandlockNotAvailable
| LandlockAbiTooOld u32 u32
| SeccompNotAvailable
| KernelVersionReadFailed

definition MIN_KERNEL_VERSION :: kernel_version where "MIN_KERNEL_VERSION = (6, 7, 0)"
definition MIN_LANDLOCK_ABI :: u32 where "MIN_LANDLOCK_ABI = 4"

text \<open>The patch level may carry a suffix such as \<open>0-generic\<close>.\<close>

definition parse_patch :: "string list \<Rightarrow> u32" where
  "parse_patch parts =
    (if length parts > 2
     then unwrap_or (parse_u32 (hd (split_char CHR ''-'' (parts ! 2)))) 0
     else 0)"

definition parse_kernel_version :: "string \<Rightarrow> check_error + kernel_version" where
  "parse_kernel_version release =
    (let parts = split_char CHR ''.'' release
     in if length parts < 2 then Inl KernelVersionReadFailed
        else and_then (ok_or (parse_u32 (parts ! 0)) KernelVersionReadFailed) (\<lambda>major.
             and_then (ok_or (parse_u32 (parts ! 1)) KernelVersionReadFailed) (\<lambda>minor.
             Inr (major, minor, parse_patch parts))))"

definition get_kernel_version :: "(check_error, kernel_version) io" where
  "get_kernel_version =
     io_bind (io_call (Fs Uname))
       (\<lambda>uts. case to_str (ans_str uts) of
          None \<Rightarrow> io_err KernelVersionReadFailed
        | Some release \<Rightarrow> io_lift (parse_kernel_version release))"

definition check_impl :: "(check_error, system_info) io" where
  "check_impl =
     io_bind get_kernel_version (\<lambda>kernel_version.
       if kernel_version < MIN_KERNEL_VERSION
       then io_err (KernelTooOld MIN_KERNEL_VERSION kernel_version)
       else io_bind (io_try landlock_abi_version) (\<lambda>v.
         let landlock_abi = (case v of Inl _ \<Rightarrow> 0 | Inr abi \<Rightarrow> abi) in
         if landlock_abi = 0 then io_err LandlockNotAvailable
         else if landlock_abi < MIN_LANDLOCK_ABI
         then io_err (LandlockAbiTooOld MIN_LANDLOCK_ABI landlock_abi)
         else io_bind seccomp_available (\<lambda>seccomp_enabled.
           if \<not> seccomp_enabled then io_err SeccompNotAvailable
           else io_ret \<lparr>si_kernel_version = kernel_version, si_landlock_abi = landlock_abi,
                        si_seccomp_enabled = seccomp_enabled\<rparr>)))"

text \<open>The static \<open>OnceLock\<close>: the first result, good or bad, is kept.\<close>

type_synonym check_cache = "(check_error + system_info) option"

definition check :: "check_cache \<Rightarrow> ('e, (check_error + system_info) \<times> check_cache) io" where
  "check SYSTEM_INFO =
    (case SYSTEM_INFO of
       Some r \<Rightarrow> io_ret (r, SYSTEM_INFO)
     | None \<Rightarrow> io_bind (io_try check_impl) (\<lambda>r. io_ret (r, Some r)))"

section \<open>Lemmas\<close>

lemma split_no_char: "c \<notin> set w \<Longrightarrow> split_char c w = [w]"
  by (induction w) auto

lemma split_first: "c \<notin> set w \<Longrightarrow> split_char c (w @ c # ys) = w # split_char c ys"
  by (simp add: split_char_append split_no_char)

lemma dec_no_char: "\<not> is_digit c \<Longrightarrow> c \<notin> set (dec n)"
  using dec_digits [of n] by (auto simp: list_all_iff)

lemma parse_u32_dec: "parse_u32 (dec (unat n)) = Some n"
proof -
  have "unat n \<le> 2 ^ 32 - 1" using unsigned_less [where ?'a = nat and w = n] by simp
  then show ?thesis by (simp add: parse_u32_def parse_dec)
qed

lemma hd_split_dash: "hd (split_char CHR ''-'' (w @ rest)) = w"
  if "CHR ''-'' \<notin> set w" "rest = [] \<or> hd rest = CHR ''-''"
proof (cases rest)
  case Nil
  with that show ?thesis by (simp add: split_no_char)
next
  case (Cons c cs)
  with that show ?thesis by (simp add: split_first)
qed

section \<open>Properties\<close>

text \<open>A release string \<open>major.minor.patch\<close>, with any suffix that starts with a dash and has
  no dot, or with no patch level at all, is read as its three numbers (a missing patch level is
  zero), for all 32-bit numbers.\<close>

theorem parse_kernel_version_reads:
  assumes "CHR ''.'' \<notin> set sfx" and "sfx = [] \<or> hd sfx = CHR ''-''"
  shows "parse_kernel_version (dec (unat a) @ ''.'' @ dec (unat b) @ ''.'' @ dec (unat c) @ sfx)
           = Inr (a, b, c)
       \<and> parse_kernel_version (dec (unat a) @ ''.'' @ dec (unat b)) = Inr (a, b, 0)"
proof -
  have nodot: "CHR ''.'' \<notin> set (dec n)" "CHR ''-'' \<notin> set (dec n)" for n
    using dec_no_char [of "CHR ''.''" n] dec_no_char [of "CHR ''-''" n]
    by (simp_all add: is_digit_def)
  have "split_char CHR ''.'' (dec (unat a) @ ''.'' @ dec (unat b) @ ''.'' @ dec (unat c) @ sfx)
      = [dec (unat a), dec (unat b), dec (unat c) @ sfx]"
    using assms(1) by (simp add: split_first split_no_char nodot)
  moreover have "split_char CHR ''.'' (dec (unat a) @ ''.'' @ dec (unat b)) = [dec (unat a), dec (unat b)]"
    by (simp add: split_first split_no_char nodot)
  ultimately show ?thesis
    by (simp add: parse_kernel_version_def Let_def parse_u32_dec parse_patch_def
        hd_split_dash [OF nodot(2) assms(2)])
qed

theorem parse_kernel_version_reads_witness:
  "parse_kernel_version ''6.1.0-generic'' = Inr (6, 1, 0)
   \<and> parse_kernel_version ''6.1'' = Inr (6, 1, 0)"
proof -
  have "dec 6 = ''6''" "dec 1 = ''1''" "dec 0 = ''0''"
    by code_simp+
  then show ?thesis
    using parse_kernel_version_reads [of "''-generic''" 6 1 0] by simp
qed

text \<open>What an accepted check has asked the kernel, and the answers it got.\<close>

definition supported :: "system_info \<Rightarrow> hist \<Rightarrow> bool" where
  "supported info t \<longleftrightarrow>
     (6, 7, 0) \<le> si_kernel_version info \<and> 4 \<le> si_landlock_abi info \<and> si_seccomp_enabled info
     \<and> (\<exists>u l s. t = [(Fs Uname, u), (Ll LandlockVersion, l), (Attr PrGetSeccomp, s)]
          \<and> parse_kernel_version (ans_str u) = Inr (si_kernel_version info)
          \<and> 0 \<le> ans_ret l \<and> si_landlock_abi info = of_int (ans_ret l) \<and> 0 \<le> ans_ret s)"

text \<open>Why a refused check has refused.\<close>

definition refused :: "check_error \<Rightarrow> hist \<Rightarrow> bool" where
  "refused e t \<longleftrightarrow> (\<exists>u rest. t = (Fs Uname, u) # rest \<and>
     (case e of
        KernelVersionReadFailed \<Rightarrow> rest = []
          \<and> (to_str (ans_str u) = None \<or> (\<exists>e. parse_kernel_version (ans_str u) = Inl e))
      | KernelTooOld req v \<Rightarrow> rest = [] \<and> req = (6, 7, 0) \<and> v < req
          \<and> parse_kernel_version (ans_str u) = Inr v
      | LandlockNotAvailable \<Rightarrow> (\<exists>l. rest = [(Ll LandlockVersion, l)]
          \<and> (ans_ret l < 0 \<or> of_int (ans_ret l) = (0 :: u32)))
      | LandlockAbiTooOld req found \<Rightarrow> (\<exists>l. rest = [(Ll LandlockVersion, l)]
          \<and> req = 4 \<and> found < req \<and> found = of_int (ans_ret l))
      | SeccompNotAvailable \<Rightarrow> (\<exists>l s. rest = [(Ll LandlockVersion, l), (Attr PrGetSeccomp, s)]
          \<and> ans_ret s < 0)))"

lemma parse_kernel_version_error:
  "parse_kernel_version r = Inl e \<Longrightarrow> e = KernelVersionReadFailed"
  by (auto simp: parse_kernel_version_def Let_def and_then_eq_Inl ok_or_def split: if_splits option.splits)

lemma check_impl_runs:
  "runs check_impl K (\<lambda>r t. case r of Inl e \<Rightarrow> refused e t | Inr info \<Rightarrow> supported info t) h"
  unfolding runs_wp check_impl_def get_kernel_version_def landlock_abi_version_def
    seccomp_available_def Let_def
  by (auto simp: wp_rules MIN_KERNEL_VERSION_def MIN_LANDLOCK_ABI_def not_less to_str_def
      supported_def refused_def split: option.splits sum.splits)
    (frule parse_kernel_version_error, simp)

text \<open>The check accepts a system exactly when its kernel version can be read and is at least
  6.7.0, Landlock answers with an ABI version of at least 4, and seccomp is available, and it
  reports those values; otherwise the error names the first condition that failed, with the
  values found. The result, accepted or not, is cached: a second check asks the kernel nothing
  and gives the same answer.\<close>

theorem check_accepts_supported:
  "\<exists>r t. check None K h = (Inr (r, Some r), h @ t)
     \<and> (case r of Inl e \<Rightarrow> refused e t | Inr info \<Rightarrow> supported info t)
     \<and> check (Some r) K h = (Inr (r, Some r), h)"
proof -
  from check_impl_runs [of K h] obtain r t where "check_impl K h = (r, h @ t)"
    "case r of Inl e \<Rightarrow> refused e t | Inr info \<Rightarrow> supported info t"
    unfolding runs_def by blast
  then show ?thesis
    by (intro exI [of _ r] exI [of _ t])
      (simp add: check_def io_bind_def io_try_def io_ret_def)
qed

end
