(* ===== verification/Sysinfo.thy ===== *)
theory Sysinfo
  imports Sys_Calls Std_Text Sandbox_Plan
begin

text \<open>
  \<open>sysinfo.rs\<close> and \<open>resolve.rs\<close>: what kind of system the sandbox runs on, and from it the
  mounts a command needs. The lazily initialised static is an optional value.
\<close>

definition path_exists :: "path \<Rightarrow> ('e, bool) io" where
  "path_exists p = io_bind (io_call (Fs (Exists p))) (\<lambda>r. io_ret (ans_ret r \<noteq> 0))"

definition is_symlink :: "path \<Rightarrow> ('e, bool) io" where
  "is_symlink p = io_bind (io_call (Fs (IsSymlink p))) (\<lambda>r. io_ret (ans_ret r \<noteq> 0))"

definition read_link :: "path \<Rightarrow> (errno, path) io" where
  "read_link p = io_bind (sys (Fs (ReadLink p))) (\<lambda>r. io_ret (ans_str r))"

primrec filter_existing :: "path list \<Rightarrow> ('e, path list) io" where
  "filter_existing [] = io_ret []"
| "filter_existing (p # ps) =
     io_bind (path_exists p) (\<lambda>b. io_bind (filter_existing ps)
       (\<lambda>qs. io_ret (if b then p # qs else qs)))"

section \<open>System type\<close>

datatype system_type = NixOS | Guix | Fhs

text \<open>
  A store directory alone is not enough: \<open>/bin/sh\<close> must link into it or be absent. The
  function continues with \<open>otherwise\<close> when the store decides nothing.
\<close>

definition detect_store :: "path \<Rightarrow> system_type \<Rightarrow> ('e, system_type) io \<Rightarrow> ('e, system_type) io" where
  "detect_store store ty otherwise =
     io_bind (path_exists store) (\<lambda>b. if \<not> b then otherwise else
       io_bind (io_try (read_link ''/bin/sh'')) (\<lambda>target.
         if (case target of Inr t \<Rightarrow> str_contains store (to_string_lossy t) | Inl _ \<Rightarrow> False)
         then io_ret ty
         else io_bind (path_exists ''/bin/sh'') (\<lambda>sh. if \<not> sh then io_ret ty else otherwise)))"

definition detect_system_type :: "('e, system_type) io" where
  "detect_system_type =
     io_bind (path_exists ''/etc/NIXOS'') (\<lambda>nixos.
       if nixos then io_ret NixOS
       else detect_store ''/nix/store'' NixOS (detect_store ''/gnu/store'' Guix (io_ret Fhs)))"

definition is_nix_like :: "system_type \<Rightarrow> bool" where
  "is_nix_like t \<longleftrightarrow> t = NixOS \<or> t = Guix"

section \<open>System paths\<close>

record sys_paths =
  system_type :: system_type
  readonly_mounts :: "path list"
  default_path :: string

definition nixos_paths :: "('e, sys_paths) io" where
  "nixos_paths =
     io_bind (filter_existing [''/nix/store'', ''/run/current-system/sw'']) (\<lambda>ms.
     io_bind (filter_existing [''/run/current-system/sw/bin'', ''/nix/var/nix/profiles/default/bin''])
       (\<lambda>dirs. let default_path = join_with '':'' dirs in
        io_ret \<lparr>system_type = NixOS, readonly_mounts = ms,
                default_path = (if default_path = [] then ''/bin'' else default_path)\<rparr>))"

definition guix_paths :: "('e, sys_paths) io" where
  "guix_paths =
     io_bind (filter_existing [''/gnu/store'']) (\<lambda>ms.
       io_ret \<lparr>system_type = Guix, readonly_mounts = ms,
               default_path = ''/run/current-system/profile/bin''\<rparr>)"

definition FHS_DIRS :: "path list" where
  "FHS_DIRS = [''/usr'', ''/bin'', ''/lib'', ''/lib64'', ''/sbin'']"

definition fhs_paths :: "('e, sys_paths) io" where
  "fhs_paths =
     io_bind (filter_existing FHS_DIRS) (\<lambda>ms.
       io_ret \<lparr>system_type = Fhs, readonly_mounts = ms,
               default_path = ''/usr/local/bin:/usr/bin:/bin''\<rparr>)"

definition detect_sys_paths :: "('e, sys_paths) io" where
  "detect_sys_paths =
     io_bind detect_system_type (\<lambda>t. case t of
        NixOS \<Rightarrow> nixos_paths | Guix \<Rightarrow> guix_paths | Fhs \<Rightarrow> fhs_paths)"

definition SYSTEM_PATHS :: "sys_paths option \<Rightarrow> ('e, sys_paths) io" where
  "SYSTEM_PATHS cached = (case cached of Some s \<Rightarrow> io_ret s | None \<Rightarrow> detect_sys_paths)"

definition landlock_readonly_paths :: "sys_paths \<Rightarrow> path list" where
  "landlock_readonly_paths s = readonly_mounts s"

definition is_nix_store_path :: "path \<Rightarrow> bool" where
  "is_nix_store_path p = path_starts_with p ''/nix/store''"

definition is_guix_store_path :: "path \<Rightarrow> bool" where
  "is_guix_store_path p = path_starts_with p ''/gnu/store''"

definition get_store_path :: "path \<Rightarrow> path option" where
  "get_store_path p =
     find (\<lambda>store. prefix store (to_string_lossy p)) [''/nix/store'', ''/gnu/store'']"

section \<open>Resolving a command\<close>

record resolved_binary =
  rb_path :: path
  required_mounts :: "mount list"

datatype resolve_error = ResolveNotFound string

definition add_if_missing :: "mount list \<Rightarrow> path \<Rightarrow> ('e, mount list) io" where
  "add_if_missing ms p =
     (if list_ex (\<lambda>m. path_eq (mnt_source m) p) ms then io_ret ms
      else io_bind (path_exists p) (\<lambda>b. io_ret (if b then ms @ [mount_ro p] else ms)))"

definition detect_mounts :: "path \<Rightarrow> sys_paths \<Rightarrow> ('e, mount list) io" where
  "detect_mounts binary sp =
     (let path_str = to_string_lossy binary;
          ms = map mount_ro (readonly_mounts sp)
      in if system_type sp = Fhs
         then if prefix ''/usr'' path_str then add_if_missing ms ''/usr''
              else if prefix ''/bin'' path_str \<or> prefix ''/sbin'' path_str
              then io_bind (is_symlink ''/bin'') (\<lambda>b.
                     if b then add_if_missing ms ''/usr'' else add_if_missing ms ''/bin'')
              else io_ret ms
         else io_ret ms)"

definition resolve_binary :: "sys_paths option \<Rightarrow> string \<Rightarrow> (resolve_error, resolved_binary) io" where
  "resolve_binary cached c =
     io_bind
       (if is_absolute c
        then io_bind (path_exists c) (\<lambda>b.
          if \<not> b \<and> \<not> prefix ''/work/'' c then io_err (ResolveNotFound c) else io_ret c)
        else io_map_err (\<lambda>_. ResolveNotFound c)
               (io_bind (sys (Fs (Which c))) (\<lambda>r. io_ret (ans_str r))))
       (\<lambda>p. io_bind (SYSTEM_PATHS cached) (\<lambda>sp. io_bind (detect_mounts p sp)
          (\<lambda>ms. io_ret \<lparr>rb_path = p, required_mounts = ms\<rparr>)))"

section \<open>Lemmas\<close>

lemma filter_existing_result:
  "wp (filter_existing ps) K (\<lambda>qs _. set qs \<subseteq> set ps) E h"
proof (induction ps arbitrary: h)
  case Nil
  then show ?case by (simp add: wp_ret)
next
  case (Cons p ps)
  show ?case
    unfolding filter_existing.simps path_exists_def wp_bind wp_call wp_ret
    by (rule wp_mono [OF Cons]) auto
qed

end
