(* ===== verification/Validate.thy ===== *)
theory Validate
  imports Std_Path
begin

text \<open>
  \<open>evalbox-sandbox/src/validate.rs\<close>: the checks on commands and relative paths. A path that
  passes stays below every directory it is joined to.
\<close>

datatype validation_error =
  EmptyCommand | EmptyArgument nat | NullByte | PathTraversal | AbsolutePath | EmptyPath

fun validate_args :: "nat \<Rightarrow> string list \<Rightarrow> validation_error + unit" where
  "validate_args i [] = Inr ()"
| "validate_args i (arg # args) =
    (if arg = [] then Inl (EmptyArgument i)
     else if has_nul arg then Inl NullByte
     else validate_args (Suc i) args)"

definition validate_cmd :: "string list \<Rightarrow> validation_error + unit" where
  "validate_cmd cmd = (if cmd = [] then Inl EmptyCommand else validate_args 0 cmd)"

definition has_traversal :: "path \<Rightarrow> bool" where
  "has_traversal p \<longleftrightarrow> list_ex (\<lambda>c. c = ParentDir) (components p)"

definition validate_path :: "path \<Rightarrow> validation_error + unit" where
  "validate_path p =
    (if p = [] then Inl EmptyPath
     else if has_nul p then Inl NullByte
     else if is_absolute p then Inl AbsolutePath
     else if has_traversal p then Inl PathTraversal
     else Inr ())"

section \<open>Lemmas\<close>

definition good_arg :: "string \<Rightarrow> bool" where
  "good_arg a \<longleftrightarrow> a \<noteq> [] \<and> \<not> has_nul a"

lemma validate_args_ok: "validate_args i args = Inr () \<longleftrightarrow> (\<forall>a \<in> set args. good_arg a)"
  by (induction args arbitrary: i) (auto simp: good_arg_def)

definition arg_fault :: "nat \<Rightarrow> string \<Rightarrow> validation_error" where
  "arg_fault i a = (if a = [] then EmptyArgument i else NullByte)"

definition arg_error :: "nat \<Rightarrow> string list \<Rightarrow> validation_error \<Rightarrow> bool" where
  "arg_error i args e \<longleftrightarrow>
     (\<exists>pre a post. args = pre @ a # post \<and> list_all good_arg pre \<and> \<not> good_arg a
        \<and> e = arg_fault (i + length pre) a)"

lemma arg_errorI:
  assumes "list_all good_arg pre" "\<not> good_arg a"
  shows "arg_error i (pre @ a # post) (arg_fault (i + length pre) a)"
  using assms unfolding arg_error_def by blast

lemma arg_error_good:
  assumes "good_arg x"
  shows "arg_error i (x # args) e \<longleftrightarrow> arg_error (Suc i) args e"
proof
  assume "arg_error i (x # args) e"
  then obtain pre a post where *: "x # args = pre @ a # post" "list_all good_arg pre"
    "\<not> good_arg a" "e = arg_fault (i + length pre) a"
    unfolding arg_error_def by blast
  with assms obtain pre' where "pre = x # pre'" by (cases pre) auto
  with * arg_errorI [of pre' a "Suc i" post] show "arg_error (Suc i) args e" by simp
next
  assume "arg_error (Suc i) args e"
  then obtain pre a post where *: "args = pre @ a # post" "list_all good_arg pre"
    "\<not> good_arg a" "e = arg_fault (Suc i + length pre) a"
    unfolding arg_error_def by blast
  with assms arg_errorI [of "x # pre" a i post] show "arg_error i (x # args) e" by simp
qed

lemma arg_error_bad:
  assumes "\<not> good_arg x"
  shows "arg_error i (x # args) e \<longleftrightarrow> e = arg_fault i x"
proof
  assume "arg_error i (x # args) e"
  then obtain pre a post where *: "x # args = pre @ a # post" "list_all good_arg pre"
    "e = arg_fault (i + length pre) a"
    unfolding arg_error_def by blast
  with assms have "pre = []" by (cases pre) auto
  with * show "e = arg_fault i x" by simp
next
  assume "e = arg_fault i x"
  with arg_errorI [of "[]" x i args] assms show "arg_error i (x # args) e" by simp
qed

lemma validate_args_error: "validate_args i args = Inl e \<longleftrightarrow> arg_error i args e"
proof (induction args arbitrary: i)
  case Nil
  then show ?case by (simp add: arg_error_def)
next
  case (Cons x args)
  have "validate_args i (x # args) =
      (if good_arg x then validate_args (Suc i) args else Inl (arg_fault i x))"
    by (simp add: good_arg_def arg_fault_def)
  with Cons show ?case
    by (cases "good_arg x") (auto simp: arg_error_good arg_error_bad simp del: validate_args.simps)
qed

section \<open>Properties\<close>

text \<open>A path is accepted exactly when it is a non-empty relative path without NUL bytes and
  without \<open>..\<close>; joined to any directory, an accepted path denotes a place below it.\<close>

theorem validate_path_confines:
  assumes "base \<noteq> []"
  shows "(validate_path p = Inr () \<longleftrightarrow>
            p \<noteq> [] \<and> \<not> has_nul p \<and> \<not> is_absolute p \<and> ParentDir \<notin> set (components p))
     \<and> (validate_path p = Inr () \<longrightarrow> prefix (resolve base) (resolve (path_join base p)))"
proof -
  have "validate_path p = Inr () \<longleftrightarrow>
      p \<noteq> [] \<and> \<not> has_nul p \<and> \<not> is_absolute p \<and> ParentDir \<notin> set (components p)"
    by (auto simp: validate_path_def has_traversal_def list_ex_iff)
  moreover from this have "validate_path p = Inr () \<longrightarrow>
      prefix (resolve base) (resolve (path_join base p))"
    using resolve_join_below [OF _ assms] by (simp add: ParentDir_components)
  ultimately show ?thesis by blast
qed

theorem validate_path_confines_witness:
  "validate_path ''a/./b.py'' = Inr ()
    \<and> prefix (resolve ''/tmp/eb/work'') (resolve (path_join ''/tmp/eb/work'' ''a/./b.py''))"
proof -
  have "validate_path ''a/./b.py'' = Inr ()" by code_simp
  with validate_path_confines [of "''/tmp/eb/work''" "''a/./b.py''"] show ?thesis by simp
qed

text \<open>A command is accepted exactly when it has arguments and all of them can be passed to
  \<open>execve\<close>; otherwise the error is that of the first bad argument, with its index.\<close>

theorem validate_cmd_first_error:
  "(validate_cmd cmd = Inr () \<longleftrightarrow> cmd \<noteq> [] \<and> list_all good_arg cmd)
   \<and> (validate_cmd cmd = Inl e \<longleftrightarrow>
        cmd = [] \<and> e = EmptyCommand
        \<or> (\<exists>pre a post. cmd = pre @ a # post \<and> list_all good_arg pre \<and> \<not> good_arg a
             \<and> e = (if a = [] then EmptyArgument (length pre) else NullByte)))"
  using validate_args_error [of 0 cmd e] validate_args_ok [of 0 cmd]
  by (auto simp: validate_cmd_def list_all_iff arg_error_def arg_fault_def)

end
