(* ===== verification/Sandbox_Child.thy ===== *)
theory Sandbox_Child
  imports Lockdown Workspace Scm_Rights Sys_Check Sysinfo Validate
begin

text \<open>
  The child's half of \<open>executor.rs\<close>: what the forked process does to itself before it becomes
  the command. \<open>tgt\<close> and \<open>SYS\<close> are the compilation target and libc's system call numbers;
  \<open>hash_order\<close> is the order in which a \<open>HashSet\<close> yields its elements. A call to \<open>execve\<close> that
  succeeds ends the process, so the code after it describes a failed one.
\<close>

section \<open>Errors and execution info\<close>

text \<open>
  The last two constructors are not errors of the code: a panic, and the end of the process
  by \<open>_exit\<close>, neither of which returns a value to the caller.
\<close>

datatype executor_error =
  SystemCheck check_error | Validation validation_error | WorkspaceErr io_error | ForkErr errno
| LockdownErr lockdown_error | ExecErr errno | MonitorErr io_error | ChildSetup string
| PidfdErr errno | CommandNotFound string | SeccompNotify string io_error | IoErr io_error
| Panicked panic | ProcessExit int

record execution_info =
  ei_binary_path :: path
  extra_mounts :: "mount list"

definition from_resolved :: "resolved_binary \<Rightarrow> execution_info" where
  "from_resolved resolved =
     \<lparr>ei_binary_path = rb_path resolved,
      extra_mounts = map (\<lambda>m. mount_bind (mnt_source m) (mnt_target m)) (required_mounts resolved)\<rparr>"

definition from_plan :: "plan \<Rightarrow> execution_info option" where
  "from_plan p =
     map_option (\<lambda>b. \<lparr>ei_binary_path = b, extra_mounts = []\<rparr>) (binary_path p)"

section \<open>Installing the filters\<close>

definition effective_whitelist ::
  "target_arch \<Rightarrow> sysno \<Rightarrow> (i64 set \<Rightarrow> i64 list) \<Rightarrow> plan \<Rightarrow> i64 list" where
  "effective_whitelist tgt SYS hash_order p =
    (let base = default_whitelist tgt SYS in
     case syscalls_cfg p of
       Some s \<Rightarrow> hash_order ((set base - denied s) \<union> allowed s)
     | None \<Rightarrow> base)"

definition filter_prog :: "sock_filter list \<Rightarrow> sock_fprog" where
  "filter_prog f = \<lparr>fp_len = of_nat (length f), fp_filter = f\<rparr>"

definition apply_seccomp ::
  "target_arch \<Rightarrow> sysno \<Rightarrow> (i64 set \<Rightarrow> i64 list) \<Rightarrow> plan \<Rightarrow> (executor_error, unit) io" where
  "apply_seccomp tgt SYS hash_order p =
     io_bind (io_map_err Panicked
        (io_lift (build_whitelist_filter tgt SYS (effective_whitelist tgt SYS hash_order p))))
      (\<lambda>f. io_map_err (\<lambda>e. LockdownErr (LdSeccomp e)) (seccomp_set_mode_filter (filter_prog f)))"

definition install_notify ::
  "target_arch \<Rightarrow> sysno \<Rightarrow> int option \<Rightarrow> (executor_error, unit) io" where
  "install_notify tgt SYS notify_socket =
     io_bind (io_map_err Panicked (io_lift (build_notify_filter tgt (notify_fs_syscalls tgt SYS))))
      (\<lambda>f. io_bind (io_map_err (\<lambda>e. SeccompNotify ''failed to install notify filter'' (Os e))
                     (seccomp_set_mode_filter_listener (filter_prog f)))
        (\<lambda>fd. io_bind (io_try
            (case notify_socket of
               Some sock \<Rightarrow> io_map_err (SeccompNotify ''failed to send listener fd'') (send_fd sock fd)
             | None \<Rightarrow> io_ret ()))
          (\<lambda>r. io_then (close_fd fd) (io_lift r))))"

section \<open>Standard streams and execve\<close>

definition dup2 :: "int \<Rightarrow> int \<Rightarrow> (executor_error, unit) io" where
  "dup2 old new =
     io_then (io_map_err ExecErr (sys (Fd (Dup2 old new)))) (io_ret ())"

definition setup_stdio :: "workspace \<Rightarrow> (executor_error, unit) io" where
  "setup_stdio ws =
     (let stdin_fd = read_end (p_stdin (ws_pipes ws));
          stdout_fd = write_end (p_stdout (ws_pipes ws));
          stderr_fd = write_end (p_stderr (ws_pipes ws))
      in io_then (close_fd 0) (io_then (close_fd 1) (io_then (close_fd 2)
         (io_then (dup2 stdin_fd 0) (io_then (dup2 stdout_fd 1) (dup2 stderr_fd 2))))))"

text \<open>\<open>CString::new\<close> refuses a string with a NUL byte.\<close>

definition cstring :: "string \<Rightarrow> (executor_error, string) io" where
  "cstring s = (if has_nul s then io_err (ExecErr EINVAL) else io_ret s)"

primrec cstrings :: "string list \<Rightarrow> (executor_error, string list) io" where
  "cstrings [] = io_ret []"
| "cstrings (s # ss) =
     io_bind (cstring s) (\<lambda>c. io_bind (cstrings ss) (\<lambda>cs. io_ret (c # cs)))"

definition exec_command :: "plan \<Rightarrow> execution_info \<Rightarrow> (executor_error, unit) io" where
  "exec_command p exec_info =
     io_bind (cstring (to_string_lossy (ei_binary_path exec_info))) (\<lambda>cmd_path.
     io_bind (cstrings (drop 1 (cmd p))) (\<lambda>args.
     io_bind (cstrings (map (\<lambda>(k, v). k @ ''='' @ v) (env p))) (\<lambda>envp.
     io_bind (io_call (Proc (Execve cmd_path (cmd_path # args) envp)))
       (\<lambda>r. io_err (ExecErr (ans_errno r))))))"

section \<open>The child\<close>

definition eventfd_value :: "u8 list" where
  "eventfd_value = to_le 8 1"

definition eventfd_write :: "int \<Rightarrow> executor_error \<Rightarrow> (executor_error, unit) io" where
  "eventfd_write fd e =
     io_bind (io_call (Fd (Write fd eventfd_value)))
       (\<lambda>r. if ans_ret r \<noteq> 8 then io_err e else io_ret ())"

definition eventfd_read :: "int \<Rightarrow> executor_error \<Rightarrow> (executor_error, unit) io" where
  "eventfd_read fd e =
     io_bind (io_call (Fd (Read fd 8)))
       (\<lambda>r. if ans_ret r \<noteq> 8 then io_err e else io_ret ())"

definition enter_work_dir :: "workspace \<Rightarrow> (executor_error, unit) io" where
  "enter_work_dir ws =
     io_bind (cstring (to_string_lossy (path_join (ws_root ws) ''work''))) (\<lambda>dir.
       io_map_err ExecErr (sys0 (Proc (Chdir dir))))"

definition child_process ::
  "target_arch \<Rightarrow> sysno \<Rightarrow> (i64 set \<Rightarrow> i64 list) \<Rightarrow> workspace \<Rightarrow> plan \<Rightarrow> execution_info
     \<Rightarrow> int option \<Rightarrow> (executor_error, unit) io" where
  "child_process tgt SYS hash_order ws p exec_info notify_socket =
     io_then (close_fd (write_end (p_stdin (ws_pipes ws))))
     (io_then (close_fd (read_end (p_stdout (ws_pipes ws))))
     (io_then (close_fd (read_end (p_stderr (ws_pipes ws))))
     (io_then (setup_stdio ws)
     (io_then (enter_work_dir ws)
     (io_then (io_map_err LockdownErr
        (lockdown p (ws_root ws)
           (List.map_filter (\<lambda>m. to_str (mnt_source m)) (extra_mounts exec_info))))
     (io_then (io_when (notify_mode p \<noteq> Disabled) (install_notify tgt SYS notify_socket))
     (io_then (apply_seccomp tgt SYS hash_order p)
     (io_then (eventfd_write (child_ready (p_sync (ws_pipes ws))) (ChildSetup ''eventfd write failed''))
     (io_then (eventfd_read (parent_done (p_sync (ws_pipes ws))) (ChildSetup ''eventfd read failed''))
     (io_then close_extra_fds
       (exec_command p exec_info)))))))))))"

end
