(* ===== verification/Monitor_Loop.thy ===== *)
theory Monitor_Loop
  imports Workspace Sandbox_Plan
begin

text \<open>
  \<open>monitor.rs\<close>: waiting for the child and collecting its output. A successful read answers
  with the bytes read; times are nanoseconds of the monotonic clock. The loop may run for as
  long as the kernel makes it: it is given a number of iterations and returns \<open>None\<close> when they
  do not suffice.
\<close>

unbundle bit_operations_syntax

section \<open>Data\<close>

datatype status = Exited | Signaled | Timeout | OutputLimitExceeded

record sandbox_output =
  out_stdout :: "u8 list"
  out_stderr :: "u8 list"
  out_status :: status
  out_duration :: duration
  out_exit_code :: "int option"
  out_signal :: "int option"

definition output_success :: "sandbox_output \<Rightarrow> bool" where
  "output_success out \<longleftrightarrow> out_status out = Exited \<and> out_exit_code out = Some 0"

section \<open>Helpers\<close>

definition clock_now :: "('e, nat) io" where
  "clock_now = io_bind (io_call (Proc Now)) (\<lambda>r. io_ret (nat (ans_ret r)))"

definition send_kill :: "int \<Rightarrow> ('e, unit) io" where
  "send_kill pidfd = invoke (Proc (PidfdKill pidfd))"

definition O_NONBLOCK :: i32 where "O_NONBLOCK = 0x800"

definition set_nonblocking :: "int \<Rightarrow> (io_error, unit) io" where
  "set_nonblocking fd =
     io_bind (io_map_err Os (sys (Fd (FcntlGetFl fd))))
       (\<lambda>flags. io_then
          (io_map_err Os (sys (Fd (FcntlSetFl fd (of_int (ans_ret flags) OR O_NONBLOCK)))))
          (io_ret ()))"

definition read_nonblocking :: "int \<Rightarrow> (io_error, u8 list) io" where
  "read_nonblocking fd =
     io_bind (io_map_err Os (sys (Fd (Read fd 4096))))
       (\<lambda>r. io_ret (take (nat (ans_ret r)) (ans_data r)))"

definition CLD_EXITED :: int where "CLD_EXITED = 1"
definition CLD_KILLED :: int where "CLD_KILLED = 2"
definition CLD_DUMPED :: int where "CLD_DUMPED = 3"

definition decode_exit :: "int \<Rightarrow> int \<Rightarrow> int option \<times> int option" where
  "decode_exit code st =
     (if code = CLD_EXITED then (Some st, None)
      else if code = CLD_KILLED \<or> code = CLD_DUMPED then (None, Some st)
      else (None, None))"

definition wait_for_exit :: "int \<Rightarrow> (io_error, int option \<times> int option) io" where
  "wait_for_exit pidfd =
     io_bind (io_map_err Os (sys (Proc (Waitid pidfd))))
       (\<lambda>r. io_ret (decode_exit (ans_vals r ! 0) (ans_vals r ! 1)))"

text \<open>Writing all of the input: a write may take a part of it.\<close>

primrec write_all :: "nat \<Rightarrow> int \<Rightarrow> u8 list \<Rightarrow> (io_error, unit option) io" where
  "write_all 0 fd data = io_ret (if data = [] then Some () else None)"
| "write_all (Suc n) fd data =
    (if data = [] then io_ret (Some ())
     else io_bind (io_map_err Os (sys (Fd (Write fd data))))
            (\<lambda>r. write_all n fd (drop (nat (ans_ret r)) data)))"

definition write_stdin :: "nat \<Rightarrow> workspace \<Rightarrow> u8 list \<Rightarrow> (io_error, unit option) io" where
  "write_stdin fuel ws data = write_all fuel (write_end (p_stdin (ws_pipes ws))) data"

text \<open>
  Draining a pipe: the recursion is on the room left below the limit, which every round that
  reads something shrinks.
\<close>

lemma io_bind_cong [fundef_cong]:
  assumes "m = m'" and "\<And>x. f x = g x"
  shows "io_bind m f = io_bind m' g"
proof -
  have "f = g" by (rule ext) (rule assms(2))
  with assms(1) show ?thesis by simp
qed

function drain_remaining :: "int \<Rightarrow> u8 list \<Rightarrow> nat \<Rightarrow> (io_error, u8 list) io" where
  "drain_remaining fd out mx =
    (if length out \<ge> mx then io_ret out
     else io_bind (io_try (read_nonblocking fd)) (\<lambda>r. case r of
            Inl _ \<Rightarrow> io_ret out
          | Inr data \<Rightarrow>
              if data = [] then io_ret out
              else drain_remaining fd (out @ take (min (length data) (mx - length out)) data) mx))"
  by pat_completeness auto
termination
  by (relation "measure (\<lambda>(fd, out, mx). mx - length out)") (auto simp: neq_Nil_conv)

declare drain_remaining.simps [simp del]

section \<open>The loop\<close>

record monitor_state =
  ms_stdout :: "u8 list"
  ms_stderr :: "u8 list"
  ms_status :: status
  ms_exit_code :: "int option"
  ms_signal :: "int option"

datatype round = Again monitor_state | Stop monitor_state

definition POLLIN :: u16 where "POLLIN = 1"
definition POLLHUP :: u16 where "POLLHUP = 0x10"

definition has_event :: "answer \<Rightarrow> nat \<Rightarrow> u16 \<Rightarrow> bool" where
  "has_event a i flag \<longleftrightarrow> (of_int (ans_vals a ! i) :: u16) AND flag \<noteq> 0"

text \<open>One readable output pipe: what is read either fits below the limit, or ends the run.\<close>

definition take_output ::
  "int \<Rightarrow> int \<Rightarrow> nat \<Rightarrow> bool \<Rightarrow> (monitor_state \<Rightarrow> u8 list)
     \<Rightarrow> ((u8 list \<Rightarrow> u8 list) \<Rightarrow> monitor_state \<Rightarrow> monitor_state) \<Rightarrow> monitor_state
     \<Rightarrow> (io_error, round) io" where
  "take_output pidfd fd mx ready get upd st =
    (if \<not> ready then io_ret (Again st)
     else io_bind (io_try (read_nonblocking fd)) (\<lambda>r. case r of
            Inl _ \<Rightarrow> io_ret (Again st)
          | Inr data \<Rightarrow>
              if data = [] then io_ret (Again st)
              else if length (get st) + length data > mx
              then io_then (send_kill pidfd) (io_then (wait_for_exit pidfd)
                     (io_ret (Stop (st\<lparr>ms_status := OutputLimitExceeded\<rparr>))))
              else io_ret (Again (upd (\<lambda>b. b @ data) st))))"

definition collect_exit :: "int \<Rightarrow> monitor_state \<Rightarrow> (io_error, round) io" where
  "collect_exit pidfd st =
     io_bind (wait_for_exit pidfd) (\<lambda>(ec, sig).
       io_ret (Stop (st\<lparr>ms_exit_code := ec, ms_signal := sig,
                       ms_status := (if sig \<noteq> None then Signaled else ms_status st)\<rparr>)))"

definition and_again :: "(io_error, round) io \<Rightarrow> (monitor_state \<Rightarrow> (io_error, round) io) \<Rightarrow> (io_error, round) io" where
  "and_again m f = io_bind m (\<lambda>r. case r of Again st \<Rightarrow> f st | Stop st \<Rightarrow> io_ret (Stop st))"

definition poll_round ::
  "int \<Rightarrow> workspace \<Rightarrow> plan \<Rightarrow> answer \<Rightarrow> monitor_state \<Rightarrow> (io_error, round) io" where
  "poll_round pidfd ws p a st =
     (let stdout_fd = read_end (p_stdout (ws_pipes ws));
          stderr_fd = read_end (p_stderr (ws_pipes ws));
          mx = unat (max_output p)
      in and_again (take_output pidfd stdout_fd mx (has_event a 0 POLLIN) ms_stdout ms_stdout_update st)
          (\<lambda>st. and_again (take_output pidfd stderr_fd mx (has_event a 1 POLLIN) ms_stderr ms_stderr_update st)
            (\<lambda>st. if has_event a 2 POLLIN then collect_exit pidfd st
                  else if has_event a 0 POLLHUP \<and> has_event a 1 POLLHUP then collect_exit pidfd st
                  else io_ret (Again st))))"

definition monitor_round ::
  "int \<Rightarrow> workspace \<Rightarrow> plan \<Rightarrow> nat \<Rightarrow> monitor_state \<Rightarrow> (io_error, round) io" where
  "monitor_round pidfd ws p deadline st =
     io_bind clock_now (\<lambda>now. let timeout_remaining = deadline - now in
       if timeout_remaining = 0
       then io_then (send_kill pidfd) (io_then (wait_for_exit pidfd)
              (io_ret (Stop (st\<lparr>ms_status := Timeout\<rparr>))))
       else
        (let poll_timeout = int (min (as_millis timeout_remaining) 100) in
         io_bind (io_call (Fd (Poll [read_end (p_stdout (ws_pipes ws)),
                                     read_end (p_stderr (ws_pipes ws)), pidfd] poll_timeout)))
          (\<lambda>a. if ans_ret a < 0
               then if ans_errno a = EINTR then io_ret (Again st) else io_err (Os (ans_errno a))
               else poll_round pidfd ws p a st)))"

primrec monitor_loop ::
  "nat \<Rightarrow> int \<Rightarrow> workspace \<Rightarrow> plan \<Rightarrow> nat \<Rightarrow> monitor_state \<Rightarrow> (io_error, monitor_state option) io" where
  "monitor_loop 0 pidfd ws p deadline st = io_ret None"
| "monitor_loop (Suc n) pidfd ws p deadline st =
     io_bind (monitor_round pidfd ws p deadline st) (\<lambda>r. case r of
        Again st' \<Rightarrow> monitor_loop n pidfd ws p deadline st'
      | Stop st' \<Rightarrow> io_ret (Some st'))"

definition initial_state :: monitor_state where
  "initial_state = \<lparr>ms_stdout = [], ms_stderr = [], ms_status = Exited, ms_exit_code = None,
                    ms_signal = None\<rparr>"

text \<open>The function owns the process descriptor and closes it on every way out.\<close>

definition owning_fd :: "int \<Rightarrow> ('e, 'a) io \<Rightarrow> ('e, 'a) io" where
  "owning_fd fd m = io_bind (io_try m) (\<lambda>r. io_then (close_fd fd) (io_lift r))"

definition monitor_body :: "nat \<Rightarrow> int \<Rightarrow> workspace \<Rightarrow> plan \<Rightarrow> (io_error, sandbox_output option) io" where
  "monitor_body fuel pidfd ws p =
     io_bind clock_now (\<lambda>start.
     io_then (set_nonblocking (read_end (p_stdout (ws_pipes ws))))
     (io_then (set_nonblocking (read_end (p_stderr (ws_pipes ws))))
     (io_bind (monitor_loop fuel pidfd ws p (start + timeout p) initial_state) (\<lambda>r. case r of
        None \<Rightarrow> io_ret None
      | Some st \<Rightarrow>
          io_bind (drain_remaining (read_end (p_stdout (ws_pipes ws))) (ms_stdout st) (unat (max_output p)))
           (\<lambda>out. io_bind (drain_remaining (read_end (p_stderr (ws_pipes ws))) (ms_stderr st) (unat (max_output p)))
           (\<lambda>err. io_bind clock_now (\<lambda>now.
              io_ret (Some \<lparr>out_stdout = out, out_stderr = err, out_status = ms_status st,
                            out_duration = now - start, out_exit_code = ms_exit_code st,
                            out_signal = ms_signal st\<rparr>))))))))"

definition monitor :: "nat \<Rightarrow> int \<Rightarrow> workspace \<Rightarrow> plan \<Rightarrow> (io_error, sandbox_output option) io" where
  "monitor fuel pidfd ws p = owning_fd pidfd (monitor_body fuel pidfd ws p)"

end
