(* ===== verification/Sandbox_Parent.thy ===== *)
theory Sandbox_Parent
  imports Sandbox_Child Monitor_Loop
begin

text \<open>
  The parent's half of \<open>executor.rs\<close>: preparing a workspace, forking, the handshake with the
  child, and the two ways on: waiting for the child (\<open>run\<close>) or handing a record of it to the
  event loop (\<open>spawn_sandbox\<close>). Values that own a descriptor are dropped where Rust drops them,
  in reverse order of declaration. In the branch where \<open>fork\<close> answers 0 the code is the child's.
  Loops that the kernel can prolong take a number of iterations and answer \<open>None\<close> when it does
  not suffice.
\<close>

section \<open>What the process runs on\<close>

text \<open>The compilation target and its system call numbers, the iteration order of a \<open>HashSet\<close>,
  and what earlier calls have cached in the two process-wide cells.\<close>

record host =
  h_target :: target_arch
  h_sysno :: sysno
  h_hash_order :: "i64 set \<Rightarrow> i64 list"
  h_system_info :: check_cache
  h_system_paths :: "sys_paths option"

type_synonym sockets = "(int \<times> int) option"

definition io_bind_some :: "('e, 'a option) io \<Rightarrow> ('a \<Rightarrow> ('e, 'b option) io) \<Rightarrow> ('e, 'b option) io" where
  "io_bind_some m f = io_bind m (\<lambda>r. case r of None \<Rightarrow> io_ret None | Some x \<Rightarrow> f x)"

definition close_opt :: "int option \<Rightarrow> ('e, unit) io" where
  "close_opt fd = (case fd of None \<Rightarrow> io_ret () | Some n \<Rightarrow> close_fd n)"

definition drop_sockets :: "sockets \<Rightarrow> ('e, unit) io" where
  "drop_sockets s = (case s of None \<Rightarrow> io_ret () | Some (a, b) \<Rightarrow> io_then (close_fd a) (close_fd b))"

section \<open>Preparing and forking\<close>

definition find_command :: "host \<Rightarrow> plan \<Rightarrow> (executor_error, execution_info) io" where
  "find_command host p =
     io_then (io_map_err Validation (io_lift (validate_cmd (cmd p))))
     (io_bind (check (h_system_info host)) (\<lambda>(r, _). case r of
        Inl e \<Rightarrow> io_err (SystemCheck e)
      | Inr _ \<Rightarrow>
          (case from_plan p of
             Some info \<Rightarrow> io_ret info
           | None \<Rightarrow>
               io_bind (io_map_err (\<lambda>e. case e of ResolveNotFound c \<Rightarrow> CommandNotFound c)
                          (resolve_binary (h_system_paths host) (cmd p ! 0)))
                 (\<lambda>b. io_ret (from_resolved b)))))"

definition write_user_files :: "workspace \<Rightarrow> plan \<Rightarrow> (io_error, unit) io" where
  "write_user_files ws p =
     io_for (user_files p) (\<lambda>f.
       io_then (write_file ws (''work/'' @ uf_path f) (uf_content f) (uf_executable f)) (io_ret ()))"

definition notify_sockets :: "plan \<Rightarrow> (io_error, sockets) io" where
  "notify_sockets p =
     (if notify_mode p \<noteq> Disabled then io_bind create_socketpair (\<lambda>s. io_ret (Some s))
      else io_ret None)"

text \<open>The child of the fork. It ends by \<open>_exit\<close>, unless it panics: then the stack unwinds, which
  drops the values of the parent's code in the child.\<close>

definition child_branch ::
  "host \<Rightarrow> workspace \<Rightarrow> plan \<Rightarrow> execution_info \<Rightarrow> sockets \<Rightarrow> (executor_error, 'a) io" where
  "child_branch host ws p info socks =
     io_then (close_opt (map_option fst socks))
     (io_bind (io_try (child_process (h_target host) (h_sysno host) (h_hash_order host) ws p info
                         (map_option snd socks)))
       (\<lambda>r. case r of
          Inl (Panicked e) \<Rightarrow>
            io_then (close_opt (map_option snd socks))
              (io_then (drop_workspace ws) (io_err (Panicked e)))
        | Inl e \<Rightarrow> io_then (invoke (Proc (Exit 126))) (io_err (ProcessExit 126))
        | Inr _ \<Rightarrow> io_then (invoke (Proc (Exit 127))) (io_err (ProcessExit 127))))"

text \<open>The common beginning of \<open>run\<close> and \<open>spawn_sandbox\<close>, up to the return of \<open>fork\<close> in the
  parent: the child's identifier, the workspace and the sockets.\<close>

definition launch :: "host \<Rightarrow> plan \<Rightarrow> (executor_error, int \<times> workspace \<times> sockets) io" where
  "launch host p =
     io_bind (find_command host p) (\<lambda>info.
     io_bind (io_map_err WorkspaceErr (workspace_with_prefix ''evalbox-'')) (\<lambda>ws.
     io_bind (io_on_err
        (io_map_err WorkspaceErr
          (io_then (setup_sandbox_dirs ws) (io_then (write_user_files ws p) (notify_sockets p))))
        (drop_workspace ws)) (\<lambda>socks.
     io_bind (io_call (Proc Fork)) (\<lambda>r.
       if ans_ret r < 0
       then io_then (drop_sockets socks) (io_then (drop_workspace ws) (io_err (ForkErr (ans_errno r))))
       else if ans_ret r = 0 then child_branch host ws p info socks
       else io_ret (ans_ret r, ws, socks)))))"

section \<open>The handshake\<close>

definition close_parent_pipe_ends :: "workspace \<Rightarrow> ('e, unit) io" where
  "close_parent_pipe_ends ws =
     io_then (close_fd (read_end (p_stdin (ws_pipes ws))))
       (io_then (close_fd (write_end (p_stdout (ws_pipes ws))))
         (close_fd (write_end (p_stderr (ws_pipes ws)))))"

definition kill_child :: "int \<Rightarrow> string \<Rightarrow> (executor_error, 'a) io" where
  "kill_child child_pid msg = io_then (invoke (Proc (Kill child_pid))) (io_err (ChildSetup msg))"

definition poll_or_kill :: "int \<Rightarrow> int \<Rightarrow> string \<Rightarrow> (executor_error, unit) io" where
  "poll_or_kill fd child_pid msg =
     io_bind (io_call (Fd (Poll [fd] 30000)))
       (\<lambda>r. if ans_ret r \<le> 0 then kill_child child_pid msg else io_ret ())"

definition sync_with_child :: "workspace \<Rightarrow> int \<Rightarrow> (executor_error, unit) io" where
  "sync_with_child ws child_pid =
     (let child_ready_fd = child_ready (p_sync (ws_pipes ws));
          parent_done_fd = parent_done (p_sync (ws_pipes ws))
      in io_then (poll_or_kill child_ready_fd child_pid ''timeout waiting for child'')
         (io_bind (io_call (Fd (Read child_ready_fd 8))) (\<lambda>r.
            if ans_ret r \<noteq> 8 then kill_child child_pid ''eventfd read failed''
            else io_bind (io_call (Fd (Write parent_done_fd eventfd_value))) (\<lambda>w.
              if ans_ret w \<noteq> 8 then kill_child child_pid ''eventfd write failed''
              else io_ret ()))))"

text \<open>Receiving the listener; the parent's socket is closed on every way out, the child's is
  still held.\<close>

definition receive_notify :: "sockets \<Rightarrow> int \<Rightarrow> (executor_error, int option) io" where
  "receive_notify socks child_pid = (case socks of
       None \<Rightarrow> io_ret None
     | Some (parent_socket, _) \<Rightarrow>
         owning_fd parent_socket
           (io_then (poll_or_kill parent_socket child_pid ''timeout waiting for notify fd'')
             (io_bind (io_map_err (SeccompNotify '''') (recv_fd parent_socket))
               (\<lambda>fd. io_ret (Some fd)))))"

definition pidfd_open :: "int \<Rightarrow> (executor_error, int) io" where
  "pidfd_open pid = io_bind (io_map_err PidfdErr (sys (Proc (PidfdOpen pid)))) (\<lambda>r. io_ret (ans_ret r))"

definition write_plan_stdin :: "nat \<Rightarrow> workspace \<Rightarrow> plan \<Rightarrow> (executor_error, unit option) io" where
  "write_plan_stdin fuel ws p = (case stdin p of
       Some data \<Rightarrow> io_map_err MonitorErr (write_stdin fuel ws data)
     | None \<Rightarrow> io_ret (Some ()))"

section \<open>Waiting for one sandbox\<close>

text \<open>The workspace is not dropped here: when the handshake or the input fails, its descriptors
  stay open and its directory stays.\<close>

definition blocking_parent ::
  "nat \<Rightarrow> int \<Rightarrow> int \<Rightarrow> int option \<Rightarrow> workspace \<Rightarrow> plan \<Rightarrow> (executor_error, sandbox_output option) io" where
  "blocking_parent fuel child_pid pidfd notify_fd ws p =
     io_then (close_parent_pipe_ends ws)
     (io_bind_some
       (io_on_err
         (io_then (sync_with_child ws child_pid) (write_plan_stdin fuel ws p))
         (io_then (close_opt notify_fd) (close_fd pidfd)))
       (\<lambda>_. io_then (close_fd (write_end (p_stdin (ws_pipes ws))))
         (io_bind (io_try (io_map_err MonitorErr (monitor fuel pidfd ws p))) (\<lambda>result.
            io_then (close_fd (read_end (p_stdout (ws_pipes ws))))
            (io_then (close_fd (read_end (p_stderr (ws_pipes ws))))
            (io_then (drop_sync (p_sync (ws_pipes ws)))
            (io_then (remove_dir_all (ws_root ws))
            (io_then (close_opt notify_fd) (io_lift result)))))))))"

definition run :: "nat \<Rightarrow> host \<Rightarrow> plan \<Rightarrow> (executor_error, sandbox_output option) io" where
  "run fuel host p =
     io_bind (launch host p) (\<lambda>(child_pid, ws, socks).
     io_bind (io_on_err (pidfd_open child_pid) (io_then (drop_sockets socks) (drop_workspace ws))) (\<lambda>pidfd.
     io_bind (io_on_err (receive_notify socks child_pid)
        (io_then (close_fd pidfd)
          (io_then (close_opt (map_option snd socks)) (drop_workspace ws)))) (\<lambda>notify_fd.
     io_bind (io_try (blocking_parent fuel child_pid pidfd notify_fd ws p)) (\<lambda>r.
       io_then (close_opt (map_option snd socks)) (io_lift r)))))"

text \<open>\<open>Plan::exec\<close>.\<close>

definition plan_exec :: "nat \<Rightarrow> host \<Rightarrow> plan \<Rightarrow> (executor_error, sandbox_output option) io" where
  "plan_exec fuel host p = run fuel host p"

section \<open>Spawning a sandbox\<close>

record spawned_sandbox =
  sp_pidfd :: int
  sp_stdin :: int
  sp_stdout :: int
  sp_stderr :: int
  sp_notify :: "int option"
  sp_workspace :: workspace

definition close_if_open :: "int \<Rightarrow> ('e, unit) io" where
  "close_if_open fd = io_when (0 \<le> fd) (close_fd fd)"

definition drop_spawned :: "spawned_sandbox \<Rightarrow> ('e, unit) io" where
  "drop_spawned sp =
     io_then (close_if_open (sp_stdin sp)) (io_then (close_if_open (sp_stdout sp))
     (io_then (close_if_open (sp_stderr sp)) (io_then (remove_dir_all (ws_root (sp_workspace sp)))
     (io_then (close_fd (sp_pidfd sp)) (close_opt (sp_notify sp))))))"

text \<open>From the handshake to the record. The raw closes do not disarm the owners in the workspace:
  an error after them closes the same descriptors again.\<close>

definition finish_spawn ::
  "nat \<Rightarrow> int \<Rightarrow> int \<Rightarrow> int option \<Rightarrow> workspace \<Rightarrow> plan \<Rightarrow> (executor_error, spawned_sandbox option) io" where
  "finish_spawn fuel child_pid pidfd notify_fd ws p =
     (let stdin_write_fd = write_end (p_stdin (ws_pipes ws));
          stdout_read_fd = read_end (p_stdout (ws_pipes ws));
          stderr_read_fd = read_end (p_stderr (ws_pipes ws))
      in io_then (sync_with_child ws child_pid)
         (io_bind_some (write_plan_stdin fuel ws p) (\<lambda>_.
            io_then (io_when (stdin p \<noteq> None) (close_fd stdin_write_fd))
            (io_then (io_map_err MonitorErr (set_nonblocking stdout_read_fd))
            (io_then (io_map_err MonitorErr (set_nonblocking stderr_read_fd))
            (io_then (drop_sync (p_sync (ws_pipes ws)))
              (io_ret (Some \<lparr>sp_pidfd = pidfd,
                 sp_stdin = (if stdin p \<noteq> None then -1 else stdin_write_fd),
                 sp_stdout = stdout_read_fd, sp_stderr = stderr_read_fd, sp_notify = notify_fd,
                 sp_workspace = ws\<rparr>))))))))"

definition spawn_sandbox :: "nat \<Rightarrow> host \<Rightarrow> plan \<Rightarrow> (executor_error, spawned_sandbox option) io" where
  "spawn_sandbox fuel host p =
     io_bind (launch host p) (\<lambda>(child_pid, ws, socks).
     io_bind (io_on_err (pidfd_open child_pid) (io_then (drop_sockets socks) (drop_workspace ws))) (\<lambda>pidfd.
     io_then (close_parent_pipe_ends ws)
     (io_bind (io_on_err
        (io_bind (receive_notify socks child_pid) (\<lambda>notify_fd.
           io_on_err (finish_spawn fuel child_pid pidfd notify_fd ws p) (close_opt notify_fd)))
        (io_then (close_fd pidfd)
          (io_then (close_opt (map_option snd socks)) (drop_workspace ws)))) (\<lambda>r.
       io_then (close_opt (map_option snd socks)) (io_ret r)))))"

end
