(* ===== verification/Lockdown_Guarantees.thy ===== *)
theory Lockdown_Guarantees
  imports Lockdown Sys_Check
begin

text \<open>
  What \<open>lockdown\<close> guarantees, whatever the kernel answers: which Landlock rules it can
  add, what has succeeded when it returns, how each failure is reported, and which parts of
  the plan it does not look at.
\<close>

unbundle bit_operations_syntax

section \<open>The rules that can be added\<close>

text \<open>The specification: each path with the rights the sandbox gives below it.\<close>

definition grants :: "plan \<Rightarrow> path \<Rightarrow> path list \<Rightarrow> (path \<times> u64) set" where
  "grants p root extra =
     {(mnt_source m, mount_access m) | m. m \<in> set (mounts p) \<and> \<not> mnt_writable m}
     \<union> {(q, read_access) | q. q \<in> set extra}
     \<union> {(path_join root d, write_access) | d. d \<in> {''work'', ''tmp'', ''home''}}
     \<union> {(q, read_access) | q. q \<in> set system_paths \<union> {''/nix/store'', ''/run/current-system''}}
     \<union> {(''/proc'', read_access AND NOT LANDLOCK_ACCESS_FS_EXECUTE),
        (''/dev'', (read_access AND NOT LANDLOCK_ACCESS_FS_EXECUTE)
                     OR LANDLOCK_ACCESS_FS_WRITE_FILE)}"

text \<open>The rights that change the file system.\<close>

definition modify_rights :: u64 where
  "modify_rights = fs_access_for_abi 5 AND NOT read_access"

text \<open>The rules that were added after the history \<open>h0\<close>.\<close>

definition rules_since :: "hist \<Rightarrow> (path \<times> u64) set \<Rightarrow> hist \<Rightarrow> bool" where
  "rules_since h0 G h \<longleftrightarrow> (\<exists>t. h = h0 @ t \<and> rules_from G t)"

lemma rules_since_Nil: "rules_since [] G h \<longleftrightarrow> rules_from G h"
  by (simp add: rules_since_def)

lemma rules_since_start: "rules_since h G h"
  by (simp add: rules_since_def)

lemma rules_since_other: "rules_since h0 G h \<Longrightarrow> \<forall>e \<in> set t. \<not> is_rule (fst e) \<Longrightarrow> rules_since h0 G (h @ t)"
  unfolding rules_since_def using rules_from_other by fastforce

lemma rules_since_call: "rules_since h0 G h \<Longrightarrow> \<not> is_rule c \<Longrightarrow> rules_since h0 G (h @ [(c, a)])"
  by (simp add: rules_since_other)

lemma rules_since_block:
  assumes "rules_since h0 G h" and "ans_ret a = parent_fd r" and "(p, allowed_access r) \<in> G"
  shows "rules_since h0 G (h @ [(Fd (OpenPath p), a), (Ll (LandlockAddRule fd r), b),
                            (Fd (Close c), d)])"
proof -
  obtain t where t: "h = h0 @ t" "rules_from G t" using assms(1) by (auto simp: rules_since_def)
  have "rules_from G (t @ [(Fd (OpenPath p), a), (Ll (LandlockAddRule fd r), b), (Fd (Close c), d)])"
    using rules_from_call [OF rules_from_rule [OF rules_from_call [OF t(2), of "Fd (OpenPath p)" a]
          assms(2,3)], of "Fd (Close c)" fd b d]
    by simp
  with t(1) show ?thesis by (auto simp: rules_since_def)
qed

lemma add_path_rule_rules:
  assumes "rules_since h0 G h" and "(p, a) \<in> G"
  shows "wp (add_path_rule fd p a) K (\<lambda>_. rules_since h0 G) E h"
  using assms
  by (auto simp: add_path_rule_def open_path_def landlock_add_rule_path_def wp_rules
      intro!: rules_since_call rules_since_block)

lemma add_rule_if_exists_rules:
  assumes "rules_since h0 G h" and "(p, a) \<in> G"
  shows "wp (add_rule_if_exists fd p a) K (\<lambda>_. rules_since h0 G) E h"
  using assms
  by (auto simp: add_rule_if_exists_def wp_rules intro!: rules_since_call add_path_rule_rules)

lemma wp_step: "wp m K (\<lambda>_. I) E h \<Longrightarrow> (\<And>h'. I h' \<Longrightarrow> wp n K Q E h') \<Longrightarrow> wp (io_then m n) K Q E h"
  unfolding wp_then by (erule wp_mono) auto

lemma add_rules_rules:
  assumes "rules_since h0 (grants p root extra) h"
  shows "wp (add_rules fd p root extra) K (\<lambda>_. rules_since h0 (grants p root extra)) E h"
  unfolding add_rules_def
  by (intro wp_step [where I = "rules_since h0 (grants p root extra)"] wp_for assms
      add_path_rule_rules add_rule_if_exists_rules)
    (auto simp: wp_when grants_def intro!: add_path_rule_rules)

lemma only_rules_from:
  assumes "only (\<lambda>c. \<not> is_rule c) m" and "rules_since h0 G h"
  shows "wp m K (\<lambda>_. rules_since h0 G) (\<lambda>_. rules_since h0 G) h"
  using assms by (intro only_wp) (auto intro: rules_since_other)

lemma apply_landlock_rules:
  assumes "rules_since h0 (grants p root extra) h"
  shows "wp (apply_landlock_v5 p root extra) K
           (\<lambda>_. rules_since h0 (grants p root extra)) (\<lambda>_. rules_since h0 (grants p root extra)) h"
proof -
  let ?I = "rules_since h0 (grants p root extra)"
  have tail: "wp (io_then (add_rules fd p root extra)
        (io_bind (io_try (landlock_restrict_self fd))
           (\<lambda>r. io_then (invoke (Fd (Close fd))) (io_map_err LdLandlock (io_lift r)))))
        K (\<lambda>_. ?I) (\<lambda>_. ?I) h'" if "?I h'" for fd h'
    by (rule wp_step [OF add_rules_rules [OF that]])
      (auto simp: wp_rules landlock_restrict_self_def rules_since_other)
  show ?thesis
    unfolding apply_landlock_v5_def landlock_abi_version_def landlock_create_ruleset_def
    by (auto simp: wp_bind wp_try wp_sys wp_ret wp_map_err rules_since_other assms intro!: tail)
qed

lemma rlimits_only: "only (\<lambda>c. \<exists>r l. c = Attr (Setrlimit r l)) (apply_rlimits p)"
  by (simp add: apply_rlimits_def set_rlimit_def only_rules)

lemma lockdown_rules:
  assumes "rules_since h0 (grants p root extra) h"
  shows "wp (lockdown p root extra) K
           (\<lambda>_. rules_since h0 (grants p root extra)) (\<lambda>_. rules_since h0 (grants p root extra)) h"
proof -
  let ?I = "rules_since h0 (grants p root extra)"
  have rest: "only (\<lambda>c. \<not> is_rule c)
      (io_then (io_map_err LdRlimit (apply_rlimits p)) (io_then apply_securebits drop_all_caps))"
    by (intro only_rules only_mono [OF rlimits_only])
      (auto simp: apply_securebits_def drop_all_caps_def intro!: only_rules)
  have "only (\<lambda>c. \<not> is_rule c) set_no_new_privs"
    by (simp add: set_no_new_privs_def only_rules)
  from only_rules_from [OF this assms] show ?thesis
    unfolding lockdown_def wp_then
    by (rule wp_mono) (auto intro!: wp_mono [OF apply_landlock_rules]
        wp_mono [OF only_rules_from [OF rest, unfolded wp_then]])
qed

section \<open>What has happened when lockdown returns\<close>

definition limits :: "plan \<Rightarrow> (rlimit_resource \<times> u64) list" where
  "limits p =
     [(RLIMIT_DATA, memory_limit p), (RLIMIT_CPU, cpu_secs p), (RLIMIT_FSIZE, max_output p),
      (RLIMIT_NOFILE, 256), (RLIMIT_NPROC, ucast (max_pids p)), (RLIMIT_CORE, 0),
      (RLIMIT_STACK, 8 * 1024 * 1024)]"

text \<open>Either the kernel has no Landlock, or a ruleset with the plan's rights is enforced.\<close>

definition landlock_enforced :: "plan \<Rightarrow> hist \<Rightarrow> bool" where
  "landlock_enforced p t \<longleftrightarrow>
     (\<exists>v. t = [(Ll LandlockVersion, v)] \<and> ans_ret v < 0)
     \<or> (\<exists>v c body r cl.
          t = [(Ll LandlockVersion, v),
               (Ll (LandlockCreate (ruleset_attr p (of_int (ans_ret v)))), c)]
              @ body @ [(Ll (LandlockRestrict (ans_ret c)), r), (Fd (Close (ans_ret c)), cl)]
          \<and> 0 \<le> ans_ret v \<and> 0 \<le> ans_ret c \<and> 0 \<le> ans_ret r)"

definition limits_set :: "plan \<Rightarrow> hist \<Rightarrow> bool" where
  "limits_set p t \<longleftrightarrow>
     map fst t = map (\<lambda>(r, l). Attr (Setrlimit r l)) (limits p)
     \<and> (\<forall>e \<in> set t. ans_ret (snd e) = 0)"

definition caps_dropped :: "hist \<Rightarrow> bool" where
  "caps_dropped t \<longleftrightarrow>
     map fst t = Attr (PrSetSecurebits securebits) # Attr PrCapAmbientClearAll
                   # map (\<lambda>cap. Attr (PrCapbsetDrop cap)) [0..<64]"

text \<open>A run adds \<open>t\<close> to the history, and \<open>t\<close> satisfies \<open>P\<close> when it succeeds.\<close>

abbreviation adds :: "('e, 'a) io \<Rightarrow> os \<Rightarrow> (hist \<Rightarrow> bool) \<Rightarrow> hist \<Rightarrow> bool" where
  "adds m K P h \<equiv> wp m K (\<lambda>_ h'. \<exists>t. h' = h @ t \<and> P t) (\<lambda>_ _. True) h"

lemma adds_any:
  assumes "only C m"
  shows "adds m K (\<lambda>_. True) h"
proof -
  obtain t where "snd (m K h) = h @ t" using assms unfolding only_def by blast
  then show ?thesis by (auto simp: wp_def split: prod.splits sum.splits)
qed

lemma adds_then:
  assumes "adds m K P h" and "\<And>h. adds n K Q h"
    and "\<And>t u. P t \<Longrightarrow> Q u \<Longrightarrow> R (t @ u)"
  shows "adds (io_then m n) K R h"
  unfolding wp_then
proof (rule wp_mono [OF assms(1)])
  fix h' assume "\<exists>t. h' = h @ t \<and> P t"
  then obtain t where "h' = h @ t" "P t" by blast
  then show "wp n K (\<lambda>_ h'. \<exists>t. h' = h @ t \<and> R t) (\<lambda>_ _. True) h'"
    using wp_mono [OF assms(2) [of h'], of "\<lambda>_ h'. \<exists>t. h' = h @ t \<and> R t"] assms(3)
    by (metis (no_types, lifting) append.assoc)
qed auto

lemma apply_rlimits_adds: "adds (apply_rlimits p) K (limits_set p) h"
  by (simp add: apply_rlimits_def set_rlimit_def wp_then wp_sys0 limits_set_def limits_def)

lemma invoke_all_adds:
  "wp (io_for xs (\<lambda>x. invoke (f x))) K (\<lambda>_ h'. \<exists>t. h' = h @ t \<and> map fst t = map f xs) E h"
proof (induction xs arbitrary: h)
  case Nil
  then show ?case by (simp add: wp_ret)
next
  case (Cons x xs)
  show ?case
    unfolding io_for.simps wp_then wp_invoke
    by (rule wp_mono [OF Cons]) auto
qed

lemma drop_caps_adds: "adds (io_then apply_securebits drop_all_caps) K caps_dropped h"
  unfolding apply_securebits_def drop_all_caps_def wp_then wp_invoke
  by (rule wp_mono [OF invoke_all_adds]) (auto simp: caps_dropped_def)

lemma add_path_rule_only:
  "only (\<lambda>c. True) (add_path_rule fd p a)"
  by (auto simp: add_path_rule_def open_path_def landlock_add_rule_path_def
      intro!: only_rules split: sum.split)

lemma add_rules_only: "only (\<lambda>c. True) (add_rules fd p root extra)"
  by (auto simp: add_rules_def add_rule_if_exists_def intro!: only_rules add_path_rule_only)

lemma apply_landlock_adds: "adds (apply_landlock_v5 p root extra) K (landlock_enforced p) h"
proof -
  let ?tail = "\<lambda>fd. io_then (add_rules fd p root extra)
        (io_bind (io_try (landlock_restrict_self fd))
           (\<lambda>r. io_then (invoke (Fd (Close fd))) (io_map_err LdLandlock (io_lift r))))"
  have tail: "adds (?tail fd) K (\<lambda>t. \<exists>body r cl.
        t = body @ [(Ll (LandlockRestrict fd), r), (Fd (Close fd), cl)] \<and> 0 \<le> ans_ret r) h'"
    for fd h'
    by (rule adds_then [OF adds_any [OF add_rules_only], where
          Q = "\<lambda>u. \<exists>r cl. u = [(Ll (LandlockRestrict fd), r), (Fd (Close fd), cl)] \<and> 0 \<le> ans_ret r"])
      (auto simp: wp_rules landlock_restrict_self_def)
  have create: "wp (?tail (ans_ret (K h' c))) K
        (\<lambda>_ h''. \<exists>t. h'' = h @ t \<and> landlock_enforced p t) (\<lambda>_ _. True) (h' @ [(c, K h' c)])"
    if "h' = h @ [(Ll LandlockVersion, v)]" "0 \<le> ans_ret v"
       "c = Ll (LandlockCreate (ruleset_attr p (of_int (ans_ret v))))" "0 \<le> ans_ret (K h' c)"
     for h' c v
    by (rule wp_mono [OF tail]) (use that in \<open>fastforce simp: landlock_enforced_def\<close>)+
  show ?thesis
    unfolding apply_landlock_v5_def landlock_abi_version_def landlock_create_ruleset_def
    by (auto simp: wp_bind wp_try wp_sys wp_ret wp_map_err landlock_enforced_def [of _ "[_]"]
        simp del: append_assoc append_Cons append_Nil intro!: create)
qed

section \<open>Properties\<close>

lemma modify_rights_value: "modify_rights = 0xfff2"
  by (simp add: modify_rights_def fs_access_values grant_values)

lemma grant_bits:
  "read_access AND NOT LANDLOCK_ACCESS_FS_EXECUTE = 0xc"
  "(read_access AND NOT LANDLOCK_ACCESS_FS_EXECUTE) OR LANDLOCK_ACCESS_FS_WRITE_FILE = 0xe"
  "LANDLOCK_ACCESS_FS_WRITE_FILE = 2" "mount_access m \<in> {0xd, 0xc}"
  by (simp_all add: landlock_bits mount_access_def)

lemma grants_cases:
  assumes "(q, a) \<in> grants p root extra"
  shows "a \<in> {0xd, 0xc} \<or> a = 0xe \<and> q = ''/dev''
    \<or> a = 0x55bf \<and> q \<in> {path_join root ''work'', path_join root ''tmp'', path_join root ''home''}"
  using assms grant_bits(4)
  unfolding grants_def grant_bits(2) unfolding grant_bits(1) unfolding grant_values by blast



text \<open>The grants give the right to change the file system below the three workspace
  directories only, apart from opening existing files of \<open>/dev\<close> for writing; no grant
  exceeds the write mask, and from Landlock ABI 3 on every grant is within the handled rights,
  so that the kernel takes the rule.\<close>

theorem grants_confined:
  assumes "(q, a) \<in> grants p root extra"
  shows "subrights a write_access
    \<and> (a AND modify_rights = 0
       \<or> q \<in> {path_join root ''work'', path_join root ''tmp'', path_join root ''home''}
       \<or> q = ''/dev'' \<and> a AND modify_rights = LANDLOCK_ACCESS_FS_WRITE_FILE)
    \<and> (3 \<le> abi \<longrightarrow> subrights a (fs_access_for_abi abi))"
proof -
  have w: "subrights a write_access"
    using grants_cases [OF assms] by (auto simp: subrights_def grant_values)
  have "a AND modify_rights = 0
       \<or> q \<in> {path_join root ''work'', path_join root ''tmp'', path_join root ''home''}
       \<or> q = ''/dev'' \<and> a AND modify_rights = LANDLOCK_ACCESS_FS_WRITE_FILE"
    using grants_cases [OF assms] by (auto simp: modify_rights_value grant_bits(3))
  then show ?thesis
    using w subrights_trans [OF w grants_handled(2)] by blast
qed

theorem grants_confined_witness:
  "subrights write_access write_access
    \<and> (write_access AND modify_rights = 0
       \<or> ''/tmp/eb/work'' \<in> {path_join ''/tmp/eb'' ''work'', path_join ''/tmp/eb'' ''tmp'',
            path_join ''/tmp/eb'' ''home''}
       \<or> ''/tmp/eb/work'' = ''/dev'' \<and> write_access AND modify_rights = LANDLOCK_ACCESS_FS_WRITE_FILE)
    \<and> subrights write_access (fs_access_for_abi 3)"
proof -
  have "''/tmp/eb/work'' = path_join ''/tmp/eb'' ''work''"
    by (simp add: path_join_def is_absolute_def)
  then have "(''/tmp/eb/work'', write_access) \<in> grants (default_plan False) ''/tmp/eb'' []"
    unfolding grants_def by blast
  from grants_confined [OF this, of 3] show ?thesis by simp
qed

lemma add_rules_total: "wp (add_rules fd p root extra) K (\<lambda>_ _. True) (\<lambda>_ _. False) h"
proof -
  have one: "wp (add_path_rule fd q a) K (\<lambda>_ _. True) (\<lambda>_ _. False) h" for q a h
    by (simp add: add_path_rule_def open_path_def landlock_add_rule_path_def wp_rules)
  show ?thesis
    unfolding add_rules_def
    by (intro wp_step [where I = "\<lambda>_. True"] wp_for)
      (auto simp: wp_when add_rule_if_exists_def wp_bind wp_call one)
qed

lemma landlock_all_ok:
  assumes "\<And>h c. ans_ret (K h (Ll c)) = 0"
  shows "wp (apply_landlock_v5 p root extra) K (\<lambda>_ _. True) (\<lambda>_ _. False) h"
  unfolding apply_landlock_v5_def landlock_abi_version_def landlock_create_ruleset_def
  by (auto simp: wp_rules assms landlock_restrict_self_def intro!: wp_mono [OF add_rules_total])

lemma drop_caps_total:
  "wp (io_then apply_securebits drop_all_caps) K (\<lambda>_ _. True) (\<lambda>_ _. False) h"
  unfolding apply_securebits_def drop_all_caps_def wp_then wp_invoke
  by (rule wp_mono [OF invoke_all_adds [where E = "\<lambda>_ _. False"]]) auto

lemma lockdown_total:
  assumes "\<And>h c. ans_ret (K h (Ll c)) = 0" and "\<And>h c. ans_ret (K h (Attr c)) = 0"
  shows "wp (lockdown p root extra) K (\<lambda>_ _. True) (\<lambda>_ _. False) h"
  unfolding lockdown_def set_no_new_privs_def wp_then wp_map_err wp_sys0
  by (auto simp: assms apply_rlimits_def set_rlimit_def wp_rules
      intro!: wp_mono [OF landlock_all_ok] drop_caps_total [unfolded wp_then])

lemma lockdown_all_ok: "fst (lockdown p root extra (\<lambda>_ _. ok_answer) h) = Inr ()"
proof -
  have "wp (lockdown p root extra) (\<lambda>_ _. ok_answer) (\<lambda>_ _. True) (\<lambda>_ _. False) h"
    by (rule lockdown_total) (simp_all add: ok_answer_def)
  then show ?thesis by (auto simp: wp_def split: prod.splits sum.splits)
qed

text \<open>C5: when \<open>lockdown\<close> succeeds, the calls it made are, in this order: \<open>NO_NEW_PRIVS\<close>,
  which succeeded; Landlock, where either the kernel has none or the ruleset of the plan was
  created and enforced; the seven resource limits of the plan, all of which succeeded; the
  securebits; and the drop of the ambient set and of all 64 capabilities.\<close>

theorem lockdown_success:
  assumes "lockdown p root extra K h = (Inr (), h')"
  shows "\<exists>a ll rl caps. h' = h @ [(Attr PrSetNoNewPrivs, a)] @ ll @ rl @ caps
     \<and> ans_ret a = 0 \<and> landlock_enforced p ll \<and> limits_set p rl \<and> caps_dropped caps"
proof -
  let ?nnp = "\<lambda>t. \<exists>a. t = [(Attr PrSetNoNewPrivs, a)] \<and> ans_ret a = 0"
  let ?rest = "\<lambda>t. \<exists>ll rl caps. t = ll @ rl @ caps
                 \<and> landlock_enforced p ll \<and> limits_set p rl \<and> caps_dropped caps"
  have rl: "adds (io_map_err LdRlimit (apply_rlimits p)) K (limits_set p) h0" for h0
    unfolding wp_map_err by (rule apply_rlimits_adds)
  have rest: "adds (io_then (apply_landlock_v5 p root extra)
      (io_then (io_map_err LdRlimit (apply_rlimits p)) (io_then apply_securebits drop_all_caps)))
      K ?rest h0" for h0
    by (rule adds_then [OF apply_landlock_adds
          adds_then [OF rl drop_caps_adds, where R = "\<lambda>t. \<exists>rl caps. t = rl @ caps
              \<and> limits_set p rl \<and> caps_dropped caps"]]) blast+
  have nnp: "adds set_no_new_privs K ?nnp h"
    by (simp add: set_no_new_privs_def wp_rules)
  have "adds (lockdown p root extra) K
      (\<lambda>t. \<exists>a ll rl caps. t = [(Attr PrSetNoNewPrivs, a)] @ ll @ rl @ caps \<and> ans_ret a = 0
          \<and> landlock_enforced p ll \<and> limits_set p rl \<and> caps_dropped caps) h"
    unfolding lockdown_def by (rule adds_then [OF nnp rest]) blast
  from wp_Inr [OF this assms] show ?thesis by blast
qed

theorem lockdown_success_witness:
  "\<exists>a ll rl caps.
     snd (lockdown (default_plan False) ''/tmp/evalbox'' [] (\<lambda>_ _. ok_answer) [])
       = [] @ [(Attr PrSetNoNewPrivs, a)] @ ll @ rl @ caps
     \<and> ans_ret a = 0 \<and> landlock_enforced (default_plan False) ll
     \<and> limits_set (default_plan False) rl \<and> caps_dropped caps"
proof -
  have "lockdown (default_plan False) ''/tmp/evalbox'' [] (\<lambda>_ _. ok_answer) [] =
      (Inr (), snd (lockdown (default_plan False) ''/tmp/evalbox'' [] (\<lambda>_ _. ok_answer) []))"
    by (simp add: prod_eq_iff lockdown_all_ok)
  then show ?thesis by (rule lockdown_success)
qed

text \<open>The failed call that \<open>lockdown\<close> reports is the last one, apart from closing the ruleset.\<close>

definition reported :: "hist \<Rightarrow> lockdown_error \<Rightarrow> bool" where
  "reported h e \<longleftrightarrow>
     (\<exists>pre c a. h = pre @ [(c, a)] \<and>
        (e = LdCapability (ans_errno a) \<and> c = Attr PrSetNoNewPrivs \<and> ans_ret a \<noteq> 0
         \<or> (\<exists>at. e = LdLandlock (ans_errno a) \<and> c = Ll (LandlockCreate at) \<and> ans_ret a < 0)
         \<or> (\<exists>r l. e = LdRlimit (ans_errno a) \<and> c = Attr (Setrlimit r l) \<and> ans_ret a \<noteq> 0)))
     \<or> (\<exists>pre fd a b. h = pre @ [(Ll (LandlockRestrict fd), a), (Fd (Close fd), b)]
          \<and> e = LdLandlock (ans_errno a) \<and> ans_ret a < 0)"

lemma reported_calls [simp]:
  "ans_ret a \<noteq> 0 \<Longrightarrow> reported (h @ [(Attr PrSetNoNewPrivs, a)]) (LdCapability (ans_errno a))"
  "ans_ret a < 0 \<Longrightarrow> reported (h @ [(Ll (LandlockCreate at), a)]) (LdLandlock (ans_errno a))"
  "ans_ret a \<noteq> 0 \<Longrightarrow> reported (h @ [(Attr (Setrlimit r l), a)]) (LdRlimit (ans_errno a))"
  "ans_ret a < 0 \<Longrightarrow> reported (h @ [(Ll (LandlockRestrict fd), a), (Fd (Close fd), b)])
     (LdLandlock (ans_errno a))"
  by (auto simp: reported_def)

text \<open>C10: \<open>lockdown\<close> fails closed. Whenever it returns an error, the last call it made (closing
  the ruleset apart) is the one that failed, and the error carries that call's \<open>errno\<close> under
  the stage it belongs to; nothing is attempted after it.\<close>

theorem lockdown_fails_closed:
  assumes "lockdown p root extra K h = (Inl e, h')"
  shows "reported h' e"
proof -
  let ?E = "\<lambda>e h'. reported h' e" and ?T = "\<lambda>_ _. True"
  have tail: "wp (io_then (add_rules fd p root extra)
        (io_bind (io_try (landlock_restrict_self fd))
           (\<lambda>r. io_then (invoke (Fd (Close fd))) (io_map_err LdLandlock (io_lift r)))))
        K ?T ?E h0" for fd h0
    unfolding wp_then
    by (rule wp_mono [OF add_rules_total]) (auto simp: wp_rules landlock_restrict_self_def)
  have ll: "wp (apply_landlock_v5 p root extra) K ?T ?E h0" for h0
    unfolding apply_landlock_v5_def landlock_abi_version_def landlock_create_ruleset_def
    by (auto simp: wp_bind wp_try wp_sys wp_ret wp_map_err tail
        simp del: append_assoc append_Cons append_Nil)
  have rl: "wp (io_map_err LdRlimit (apply_rlimits p)) K ?T ?E h0" for h0
    by (simp add: apply_rlimits_def set_rlimit_def wp_map_err wp_then wp_sys0
        del: append_assoc append_Cons append_Nil)
  have caps: "wp (io_then apply_securebits drop_all_caps) K ?T ?E h0" for h0
    by (rule wp_mono [OF drop_caps_total]) auto
  have "wp (lockdown p root extra) K ?T ?E h"
    unfolding lockdown_def set_no_new_privs_def wp_map_err wp_then wp_sys0
    by (auto intro!: wp_mono [OF ll] wp_mono [OF rl [unfolded wp_map_err]] caps [unfolded wp_then])
  from wp_Inl [OF this assms] show ?thesis .
qed

text \<open>A kernel on which the fifth resource limit is refused with \<open>EINVAL\<close>.\<close>

definition refuse_nproc :: os where
  "refuse_nproc = (\<lambda>_ c. case c of
      Attr (Setrlimit RLIMIT_NPROC l) \<Rightarrow> ok_answer\<lparr>ans_ret := - 1, ans_errno := EINVAL\<rparr>
    | _ \<Rightarrow> ok_answer)"

theorem lockdown_fails_closed_witness:
  "reported (snd (lockdown (default_plan False) ''/tmp/evalbox'' [] refuse_nproc []))
     (LdRlimit EINVAL)"
proof -
  have "fst (lockdown (default_plan False) ''/tmp/evalbox'' [] refuse_nproc []) = Inl (LdRlimit EINVAL)"
  proof -
    have "wp (lockdown (default_plan False) ''/tmp/evalbox'' []) refuse_nproc
        (\<lambda>_ _. False) (\<lambda>e _. e = LdRlimit EINVAL) []"
      unfolding lockdown_def set_no_new_privs_def wp_then wp_map_err wp_sys0
      by (auto simp: refuse_nproc_def ok_answer_def apply_rlimits_def set_rlimit_def wp_rules
          intro!: wp_mono [OF landlock_all_ok])
    then show ?thesis by (auto simp: wp_def split: prod.splits sum.splits)
  qed
  then have "lockdown (default_plan False) ''/tmp/evalbox'' [] refuse_nproc [] = (Inl (LdRlimit EINVAL),
      snd (lockdown (default_plan False) ''/tmp/evalbox'' [] refuse_nproc []))"
    by (simp add: prod_eq_iff)
  then show ?thesis by (rule lockdown_fails_closed)
qed

text \<open>What \<open>lockdown\<close> does not depend on. Removing every writable mount, and changing the
  Landlock configuration, the working directory, the workspace size or the mount targets of the
  plan makes no difference: a writable mount gets no rule at all.\<close>

theorem lockdown_ignores:
  "lockdown (p\<lparr>mounts := map (\<lambda>m. m\<lparr>mnt_target := tgt\<rparr>) (filter (\<lambda>m. \<not> mnt_writable m) (mounts p)),
              landlock_cfg := ll, cwd := c, workspace_size := sz\<rparr>) root extra
   = lockdown p root extra"
proof -
  have for_drop: "io_for (map g (filter (\<lambda>m. \<not> w m) ms)) f K h = io_for ms f K h"
    if "\<And>m. w m \<Longrightarrow> f m = io_ret ()" "\<And>m. f (g m) = f m"
    for w :: "mount \<Rightarrow> bool" and g :: "mount \<Rightarrow> mount" and f :: "mount \<Rightarrow> (lockdown_error, unit) io"
      and K h ms
    by (induction ms arbitrary: h)
      (auto simp: that io_then_def io_bind_def io_ret_def split: prod.split sum.split)
  let ?p = "p\<lparr>mounts := map (\<lambda>m. m\<lparr>mnt_target := tgt\<rparr>) (filter (\<lambda>m. \<not> mnt_writable m) (mounts p)),
              landlock_cfg := ll, cwd := c, workspace_size := sz\<rparr>"
  have m: "io_for (mounts ?p) (\<lambda>m. io_when (\<not> mnt_writable m) (add_path_rule fd (mnt_source m) (mount_access m)))
    = io_for (mounts p) (\<lambda>m. io_when (\<not> mnt_writable m) (add_path_rule fd (mnt_source m) (mount_access m)))"
    for fd :: int
    by (intro ext) (simp add: for_drop io_when_def mount_access_def)
  have "add_rules fd ?p root extra = add_rules fd p root extra" for fd
    unfolding add_rules_def m ..
  moreover have "ruleset_attr ?p = ruleset_attr p" "apply_rlimits ?p = apply_rlimits p"
    by (simp_all add: ruleset_attr_def apply_rlimits_def cpu_secs_def fun_eq_iff)
  ultimately show ?thesis
    unfolding lockdown_def apply_landlock_v5_def by (simp only:)
qed

section \<open>Which kernels take the ruleset\<close>

text \<open>The rights and scopes that Linux documents for each Landlock ABI: \<open>REFER\<close> came with 2, \<open>TRUNCATE\<close>
  with 3, the network with 4, \<open>IOCTL_DEV\<close> with 5, scopes with 6.\<close>

definition known_fs_rights :: "u32 \<Rightarrow> u64" where
  "known_fs_rights v = (if v < 2 then 0x1fff else if v < 3 then 0x3fff else if v < 5 then 0x7fff else 0xffff)"

definition known_attr :: "u32 \<Rightarrow> landlock_ruleset_attr \<Rightarrow> bool" where
  "known_attr v at \<longleftrightarrow> subrights (handled_access_fs at) (known_fs_rights v)
     \<and> subrights (handled_access_net at) (if v < 4 then 0 else 3) \<and> subrights (scoped at) (if v < 6 then 0 else 3)"

lemma ruleset_attr_known: "known_attr v (ruleset_attr p v) \<longleftrightarrow> v \<noteq> 4 \<and> v \<noteq> 5"
proof -
  consider "v < 2" | "v = 2" | "v = 3" | "v = 4" | "v = 5" | "6 \<le> v"
    by (fastforce simp: word_less_nat_alt word_le_nat_alt word_unat_eq_iff)
  then show ?thesis
  proof cases
    case 1
    then have "\<not> 4 \<le> v" "\<not> 5 \<le> v" "v < 4" "v < 6" "v \<noteq> 4" "v \<noteq> 5" "v < 5"
      by (auto simp: word_less_nat_alt word_le_nat_alt word_unat_eq_iff)
    with 1 show ?thesis
      by (simp add: known_attr_def ruleset_attr_def fs_access_values scope_values known_fs_rights_def subrights_def)
  next
    case 6
    then have "4 \<le> v" "5 \<le> v" "\<not> v < 2" "\<not> v < 3" "\<not> v < 4" "\<not> v < 5" "\<not> v < 6" "v \<noteq> 4" "v \<noteq> 5"
      by (auto simp: word_less_nat_alt word_le_nat_alt word_unat_eq_iff)
    then show ?thesis
      by (simp add: known_attr_def ruleset_attr_def fs_access_values scope_values net_access_values known_fs_rights_def
          subrights_def)
  qed (simp_all add: known_attr_def ruleset_attr_def fs_access_values scope_values net_access_values known_fs_rights_def
      subrights_def)
qed

text \<open>C11: On a kernel with Landlock ABI 4 or 5 that refuses, as documented, rulesets with rights or
  scopes it does not know, \<open>lockdown\<close> always fails, for every plan, although the system check
  requires only ABI 4: it asks for \<open>IOCTL_DEV\<close> one version and for the scopes one version too
  early. With every other ABI the ruleset has known rights only.\<close>
theorem lockdown_refused_by_abi:
  assumes version: "\<And>h. ans_ret (K h (Ll LandlockVersion)) = uint (v :: u32)"
    and refuses: "\<And>h at. \<not> known_attr v at \<Longrightarrow> ans_ret (K h (Ll (LandlockCreate at))) < 0"
  shows "if v = 4 \<or> v = 5 then (\<exists>e. fst (lockdown p root extra K h) = Inl e) \<and> MIN_LANDLOCK_ABI \<le> v
    else known_attr v (ruleset_attr p v)"
proof (cases "v = 4 \<or> v = 5")
  case True
  then have "ans_ret (K h (Ll (LandlockCreate (ruleset_attr p v)))) < 0" for h
    by (intro refuses) (auto simp: ruleset_attr_known)
  then have "wp (lockdown p root extra) K (\<lambda>_ _. False) (\<lambda>_ _. True) h"
    by (simp add: lockdown_def apply_landlock_v5_def landlock_abi_version_def landlock_create_ruleset_def
        set_no_new_privs_def wp_rules version)
  then have "\<exists>e. fst (lockdown p root extra K h) = Inl e"
    by (auto simp: wp_def split: prod.splits sum.splits)
  with True show ?thesis by (auto simp: MIN_LANDLOCK_ABI_def)
next
  case False
  then show ?thesis by (simp add: ruleset_attr_known)
qed

definition abi4_os :: os where
  "abi4_os = (\<lambda>h c. case c of
      Ll LandlockVersion \<Rightarrow> ok_answer\<lparr>ans_ret := 4\<rparr>
    | Ll (LandlockCreate at) \<Rightarrow> if known_attr 4 at then ok_answer else ok_answer\<lparr>ans_ret := -1, ans_errno := EINVAL\<rparr>
    | _ \<Rightarrow> ok_answer)"

theorem lockdown_refused_by_abi_witness:
  "\<exists>e. fst (lockdown (new_plan False [''id'']) ''/tmp/eb'' [] abi4_os []) = Inl e"
proof -
  have version: "ans_ret (abi4_os h (Ll LandlockVersion)) = uint (4 :: u32)" for h
    by (simp add: abi4_os_def)
  have refuses: "ans_ret (abi4_os h (Ll (LandlockCreate at))) < 0" if "\<not> known_attr 4 at" for h at
    using that by (simp add: abi4_os_def)
  show ?thesis
    using lockdown_refused_by_abi [where K = abi4_os and h = "[]", OF version refuses]
    by simp
qed

text \<open>The CPU limit is twice the timeout's seconds plus 60, saturating at the largest
  \<open>u64\<close>; so it never wraps below the wall clock timeout.\<close>

theorem cpu_limit_saturates:
  assumes "as_secs (timeout p) < 2 ^ 64"
  shows "unat (cpu_secs p) = min (2 * as_secs (timeout p) + 60) (2 ^ 64 - 1)
    \<and> as_secs (timeout p) \<le> unat (cpu_secs p)"
proof -
  let ?s = "as_secs (timeout p)"
  have max: "unat (- 1 :: u64) = 2 ^ 64 - 1" by (simp add: unsigned_minus_1_eq_mask mask_eq_exp_minus_1)
  have add: "unat (sat_add64 a b) = min (unat a + unat b) (2 ^ 64 - 1)" for a b
    by (auto simp: sat_add64_def unat_word_ariths max)
  have mul: "unat (sat_mul64 a b) = min (unat a * unat b) (2 ^ 64 - 1)" for a b
    by (auto simp: sat_mul64_def unat_word_ariths max)
  have s: "unat (of_nat ?s :: u64) = ?s" using assms by (simp add: unat_of_nat)
  have "unat (cpu_secs p) = min (min (?s * 2) (2 ^ 64 - 1) + 60) (2 ^ 64 - 1)"
    by (simp add: cpu_secs_def add mul s)
  with assms show ?thesis by auto
qed

theorem cpu_limit_saturates_witness:
  "unat (cpu_secs (default_plan False)) = min (2 * 30 + 60) (2 ^ 64 - 1)
    \<and> 30 \<le> unat (cpu_secs (default_plan False))"
  using cpu_limit_saturates [of "default_plan False"]
  by (simp add: default_plan_def from_secs_def as_secs_def)

section \<open>Descriptors\<close>

lemma add_path_rule_leak_free: "runs (add_path_rule fd p a) K (\<lambda>_. leak_free) h"
  unfolding runs_wp add_path_rule_def open_path_def landlock_add_rule_path_def
  by (simp add: wp_rules)

lemma add_rules_leak_free: "runs (add_rules fd p root extra) K (\<lambda>_. leak_free) h"
proof -
  have exists: "runs (add_rule_if_exists fd q a) K (\<lambda>_. leak_free) h" for q a h
    unfolding add_rule_if_exists_def
    by (rule runs_bind [OF runs_call [where P = "\<lambda>_. leak_free"]])
      (auto simp: io_when_def intro!: runs_ret runs_mono [OF add_path_rule_leak_free] leak_free_append)
  show ?thesis
    unfolding add_rules_def
    by (intro leak_free_then leak_free_for)
      (auto simp: io_when_def intro!: runs_ret add_path_rule_leak_free exists)
qed

lemma apply_landlock_leak_free: "runs (apply_landlock_v5 p root extra) K (\<lambda>_. leak_free) h"
proof -
  let ?rest = "\<lambda>fd. io_bind (io_try (landlock_restrict_self fd))
           (\<lambda>r. io_then (invoke (Fd (Close fd))) (io_map_err LdLandlock (io_lift r)))"
  have rest: "runs (?rest fd) K (\<lambda>_ t. leak_free t \<and> Fd (Close fd) \<in> fst ` set t) h0" for fd h0
    unfolding runs_wp landlock_restrict_self_def by (simp add: wp_rules)
  have tail: "runs (io_then (add_rules fd p root extra) (?rest fd)) K
      (\<lambda>_ t. leak_free t \<and> Fd (Close fd) \<in> fst ` set t) h0" for fd h0
    by (rule runs_then [OF runs_and_wp [OF add_rules_leak_free add_rules_total]])
      (auto intro!: runs_mono [OF rest] leak_free_append)
  have create: "runs (io_map_err LdLandlock (landlock_create_ruleset at)) K
      (\<lambda>r t. \<exists>a. t = [(Ll (LandlockCreate at), a)]
          \<and> r = (if ans_ret a < 0 then Inl (LdLandlock (ans_errno a)) else Inr (ans_ret a))) h0" for at h0
    unfolding runs_wp landlock_create_ruleset_def by (simp add: wp_rules)
  have version: "runs (io_try landlock_abi_version) K (\<lambda>_. leak_free) h"
    unfolding runs_wp landlock_abi_version_def by (simp add: wp_rules)
  have body: "runs (io_bind (io_map_err LdLandlock (landlock_create_ruleset (ruleset_attr p abi)))
      (\<lambda>fd. io_then (add_rules fd p root extra) (?rest fd))) K (\<lambda>_. leak_free) h0" for abi h0
    by (rule runs_bind [OF create]) (auto intro!: runs_mono [OF tail] rev_image_eqI split: if_splits)
  show ?thesis
    unfolding apply_landlock_v5_def
    by (rule runs_bind [OF version])
      (auto intro!: runs_ret runs_mono [OF body] leak_free_append split: sum.split)
qed

text \<open>\<open>lockdown\<close> leaks no descriptor into the sandboxed program: whatever fails, the ruleset
  and every path it opened are closed before it returns.\<close>

theorem lockdown_closes_fds:
  "\<exists>t. snd (lockdown p root extra K h) = h @ t \<and> leak_free t"
proof -
  have attr: "only (\<lambda>c. \<forall>a. fd_results (c, a) = {})
      (io_then (io_map_err LdRlimit (apply_rlimits p)) (io_then apply_securebits drop_all_caps))"
    by (intro only_rules only_mono [OF rlimits_only])
      (auto simp: apply_securebits_def drop_all_caps_def intro!: only_rules)
  have "only (\<lambda>c. \<forall>a. fd_results (c, a) = {}) set_no_new_privs"
    by (simp add: set_no_new_privs_def only_rules)
  then have "runs (lockdown p root extra) K (\<lambda>_. leak_free) h"
    unfolding lockdown_def
    by (intro leak_free_then leak_free_only [OF attr] apply_landlock_leak_free) (rule leak_free_only)
  from runs_result [OF this] show ?thesis by blast
qed

end
