(* ===== verification/Bpf_Machine.thy ===== *)
theory Bpf_Machine
  imports Seccomp_Filter
begin

text \<open>
  What the filters rely on from the kernel: the meaning of the classic BPF instructions they
  are made of. \<open>run P d pc acc\<close> is the verdict of the program \<open>P\<close> on the data \<open>d\<close>, from
  instruction \<open>pc\<close> with accumulator \<open>acc\<close>. The locale states one documented law per
  instruction, with the opcode as the kernel encodes it; \<open>bpf_exec\<close> is an evaluator that
  satisfies them, so the laws can hold together.
\<close>

unbundle bit_operations_syntax

section \<open>The interface\<close>

locale bpf_machine =
  fixes run :: "sock_filter list \<Rightarrow> seccomp_data \<Rightarrow> nat \<Rightarrow> u32 \<Rightarrow> u32 option"
  assumes ld_w_abs:
      "\<lbrakk>pc < length P; sf_code (P ! pc) = 0x20; seccomp_data_load d (sf_k (P ! pc)) = Some w\<rbrakk>
       \<Longrightarrow> run P d pc acc = run P d (Suc pc) w"
    and jmp_jeq_k:
      "\<lbrakk>pc < length P; sf_code (P ! pc) = 0x15\<rbrakk>
       \<Longrightarrow> run P d pc acc =
           run P d (Suc pc + (if acc = sf_k (P ! pc) then unat (sf_jt (P ! pc))
                              else unat (sf_jf (P ! pc)))) acc"
    and jmp_jset_k:
      "\<lbrakk>pc < length P; sf_code (P ! pc) = 0x45\<rbrakk>
       \<Longrightarrow> run P d pc acc =
           run P d (Suc pc + (if acc AND sf_k (P ! pc) \<noteq> 0 then unat (sf_jt (P ! pc))
                              else unat (sf_jf (P ! pc)))) acc"
    and alu_and_k:
      "\<lbrakk>pc < length P; sf_code (P ! pc) = 0x54\<rbrakk>
       \<Longrightarrow> run P d pc acc = run P d (Suc pc) (acc AND sf_k (P ! pc))"
    and ret_k:
      "\<lbrakk>pc < length P; sf_code (P ! pc) = 0x06\<rbrakk>
       \<Longrightarrow> run P d pc acc = Some (sf_k (P ! pc))"

section \<open>An evaluator\<close>

text \<open>
  Jumps only go forward, so the evaluator recurses on the rest of the program. An unknown
  opcode, a load outside the data or falling off the end is no verdict.
\<close>

function bpf_exec :: "sock_filter list \<Rightarrow> seccomp_data \<Rightarrow> u32 \<Rightarrow> u32 option" where
  "bpf_exec [] d acc = None"
| "bpf_exec (i # P) d acc =
    (if sf_code i = 0x20 then
       (case seccomp_data_load d (sf_k i) of None \<Rightarrow> None | Some w \<Rightarrow> bpf_exec P d w)
     else if sf_code i = 0x15 then
       bpf_exec (drop (if acc = sf_k i then unat (sf_jt i) else unat (sf_jf i)) P) d acc
     else if sf_code i = 0x45 then
       bpf_exec (drop (if acc AND sf_k i \<noteq> 0 then unat (sf_jt i) else unat (sf_jf i)) P) d acc
     else if sf_code i = 0x54 then bpf_exec P d (acc AND sf_k i)
     else if sf_code i = 0x06 then Some (sf_k i)
     else None)"
  by pat_completeness auto
termination
  by (relation "measure (\<lambda>(P, d, acc). length P)") auto

definition bpf_run :: "sock_filter list \<Rightarrow> seccomp_data \<Rightarrow> nat \<Rightarrow> u32 \<Rightarrow> u32 option" where
  "bpf_run P d pc acc = bpf_exec (drop pc P) d acc"

lemma bpf_run_at:
  "pc < length P \<Longrightarrow> bpf_run P d pc acc = bpf_exec (P ! pc # drop (Suc pc) P) d acc"
  by (simp add: bpf_run_def Cons_nth_drop_Suc)

interpretation bpf: bpf_machine bpf_run
proof unfold_locales
  fix pc w acc and P :: "sock_filter list" and d :: seccomp_data
  assume "pc < length P" "sf_code (P ! pc) = 0x20"
    and "seccomp_data_load d (sf_k (P ! pc)) = Some w"
  then show "bpf_run P d pc acc = bpf_run P d (Suc pc) w"
    by (simp add: bpf_run_at) (simp add: bpf_run_def)
qed (auto simp: bpf_run_at, auto simp: bpf_run_def drop_drop add.commute)

section \<open>Code fragments\<close>

text \<open>
  The laws for a fragment \<open>Q\<close> placed inside a larger program: execution at offset
  \<open>length pre + j\<close> runs \<open>Q ! j\<close>.
\<close>

definition code_at :: "sock_filter list \<Rightarrow> nat \<Rightarrow> sock_filter list \<Rightarrow> bool" where
  "code_at P pc Q \<longleftrightarrow> pc + length Q \<le> length P \<and> (\<forall>j < length Q. P ! (pc + j) = Q ! j)"

lemma code_at_append: "code_at (pre @ Q @ post) (length pre) Q"
  by (simp add: code_at_def nth_append)

lemma code_at_Cons:
  "code_at P pc (i # Q) \<longleftrightarrow> pc < length P \<and> P ! pc = i \<and> code_at P (Suc pc) Q"
  by (auto simp: code_at_def All_less_Suc2)

lemma code_at_Nil: "code_at P pc [] \<longleftrightarrow> pc \<le> length P"
  by (simp add: code_at_def)

lemma code_at_appendD:
  "code_at P pc (Q @ R) \<Longrightarrow> code_at P pc Q \<and> code_at P (pc + length Q) R"
  proof (induction Q arbitrary: pc)
  case Nil
  then show ?case by (simp add: code_at_def)
next
  case (Cons i Q)
  from Cons.prems have "code_at P (Suc pc) (Q @ R)" and "pc < length P" "P ! pc = i"
    by (simp_all add: code_at_Cons)
  with Cons.IH [of "Suc pc"] show ?case by (simp add: code_at_Cons)
qed

text \<open>The opcodes the code builds are the ones the laws name.\<close>

lemma opcode_values:
  "BPF_LD OR BPF_W OR BPF_ABS = 0x20"
  "BPF_JMP OR BPF_JEQ OR BPF_K = 0x15"
  "BPF_JMP OR BPF_JSET OR BPF_K = 0x45"
  "BPF_ALU OR BPF_AND OR BPF_K = 0x54"
  "BPF_RET OR BPF_K = 0x06"
  by (simp_all add: const_defs)

lemma instr_sel [simp]:
  "sf_code (stmt c k) = c" "sf_k (stmt c k) = k"
  "sf_code (jump c k t f) = c" "sf_k (jump c k t f) = k"
  "sf_jt (jump c k t f) = t" "sf_jf (jump c k t f) = f"
  by (simp_all add: stmt_def jump_def)

context bpf_machine
begin

lemma run_load:
  "\<lbrakk>pc < length P; P ! pc = stmt (BPF_LD OR BPF_W OR BPF_ABS) k; seccomp_data_load d k = Some w\<rbrakk>
   \<Longrightarrow> run P d pc acc = run P d (Suc pc) w"
  by (rule ld_w_abs) (simp_all add: opcode_values)

lemma run_jeq:
  "\<lbrakk>pc < length P; P ! pc = jump (BPF_JMP OR BPF_JEQ OR BPF_K) k t f\<rbrakk>
   \<Longrightarrow> run P d pc acc = run P d (Suc pc + (if acc = k then unat t else unat f)) acc"
  using jmp_jeq_k [of pc P d acc] by (simp add: opcode_values)

lemma run_jset:
  "\<lbrakk>pc < length P; P ! pc = jump (BPF_JMP OR BPF_JSET OR BPF_K) k t f\<rbrakk>
   \<Longrightarrow> run P d pc acc = run P d (Suc pc + (if acc AND k \<noteq> 0 then unat t else unat f)) acc"
  using jmp_jset_k [of pc P d acc] by (simp add: opcode_values)

lemma run_and:
  "\<lbrakk>pc < length P; P ! pc = stmt (BPF_ALU OR BPF_AND OR BPF_K) k\<rbrakk>
   \<Longrightarrow> run P d pc acc = run P d (Suc pc) (acc AND k)"
  using alu_and_k [of pc P d acc] by (simp add: opcode_values)

lemma run_ret:
  "\<lbrakk>pc < length P; P ! pc = stmt (BPF_RET OR BPF_K) k\<rbrakk> \<Longrightarrow> run P d pc acc = Some k"
  using ret_k [of pc P d acc] by (simp add: opcode_values)

lemmas run_instr = run_load run_jeq run_jset run_and run_ret

end

end
