(* ===== verification/Seccomp_Policy.thy ===== *)
theory Seccomp_Policy
  imports Bpf_Machine
begin

text \<open>
  What the seccomp filters promise, stated without reference to instructions, and the proof
  that the emitted programs decide exactly that on every system call.
\<close>

unbundle bit_operations_syntax

section \<open>The policy\<close>

definition arg_lo :: "seccomp_data \<Rightarrow> nat \<Rightarrow> u32" where
  "arg_lo d i = lo32 (sd_args d ! i)"

definition clone_policy :: "seccomp_data \<Rightarrow> u32" where
  "clone_policy d =
     (if arg_lo d 0 AND BLOCKED_CLONE_FLAGS \<noteq> 0 then SECCOMP_RET_KILL_PROCESS
      else SECCOMP_RET_ALLOW)"

definition socket_policy :: "seccomp_data \<Rightarrow> u32" where
  "socket_policy d =
     (if arg_lo d 0 = AF_NETLINK \<or> arg_lo d 1 AND 0xF = SOCK_RAW
      then SECCOMP_RET_KILL_PROCESS else SECCOMP_RET_ALLOW)"

definition ioctl_policy :: "seccomp_data \<Rightarrow> u32" where
  "ioctl_policy d =
     (if arg_lo d 1 \<in> {TIOCSTI, TIOCSETD, TIOCLINUX}
      then SECCOMP_RET_KILL_PROCESS else SECCOMP_RET_ALLOW)"

definition whitelist_policy :: "target_arch \<Rightarrow> sysno \<Rightarrow> i64 list \<Rightarrow> seccomp_data \<Rightarrow> u32" where
  "whitelist_policy tgt SYS syscalls d =
     (if sd_arch d \<noteq> AUDIT_ARCH tgt then SECCOMP_RET_KILL_PROCESS
      else if sd_nr d = ucast (SYS ''clone3'') then SECCOMP_RET_ERRNO_ENOSYS
      else if sd_nr d = ucast (SYS ''clone'') then clone_policy d
      else if sd_nr d = ucast (SYS ''socket'') then socket_policy d
      else if sd_nr d = ucast (SYS ''ioctl'') then ioctl_policy d
      else if sd_nr d \<in> ucast ` set syscalls then SECCOMP_RET_ALLOW
      else SECCOMP_RET_KILL_PROCESS)"

definition notify_policy :: "target_arch \<Rightarrow> i64 list \<Rightarrow> seccomp_data \<Rightarrow> u32" where
  "notify_policy tgt syscalls d =
     (if sd_arch d = AUDIT_ARCH tgt \<and> sd_nr d \<in> ucast ` set syscalls
      then SECCOMP_RET_USER_NOTIF else SECCOMP_RET_ALLOW)"

definition has_six_args :: "seccomp_data \<Rightarrow> bool" where
  "has_six_args d \<longleftrightarrow> length (sd_args d) = 6"

lemma has_six_args_load:
  assumes "has_six_args d"
  shows "seccomp_data_load d OFFSET_ARGS_0 = Some (arg_lo d 0)"
    and "seccomp_data_load d OFFSET_ARGS_1 = Some (arg_lo d 1)"
proof -
  from assms obtain a0 a1 as where "sd_args d = a0 # a1 # as"
    by (auto simp: has_six_args_def length_Suc_conv eval_nat_numeral)
  then show "seccomp_data_load d OFFSET_ARGS_0 = Some (arg_lo d 0)"
    and "seccomp_data_load d OFFSET_ARGS_1 = Some (arg_lo d 1)"
    by (simp_all add: arg_lo_def const_defs)
qed

lemmas load_simps =
  has_six_args_load OFFSET_SYSCALL_NR_def OFFSET_ARCH_def

section \<open>The fragments\<close>

lemma forward_jumps:
  "pc + 2 = Suc (Suc pc)" "pc + 3 = Suc (Suc (Suc pc))" "pc + 4 = Suc (Suc (Suc (Suc pc)))"
  for pc :: nat
  by simp_all

lemma length_list_checks [simp]: "length (list_checks syscalls) = length syscalls"
  by (simp add: list_checks_def)

lemma list_checks_nth:
  "i < length syscalls \<Longrightarrow>
   list_checks syscalls ! i =
     jump (BPF_JMP OR BPF_JEQ OR BPF_K) (ucast (syscalls ! i))
       (of_nat (length syscalls - i)) 0"
  by (simp add: list_checks_def nth_enumerate_eq)

lemma fragment_lengths [simp]:
  "length (arch_check tgt mismatch) = 4"
  "length (special_checks SYS n) = 4"
  "length whitelist_verdicts = 3"
  "length clone_handler = 4"
  "length socket_handler = 7"
  "length ioctl_handler = 6"
  "length notify_verdicts = 2"
  by (simp_all add: arch_check_def special_checks_def whitelist_verdicts_def clone_handler_def
      socket_handler_def ioctl_handler_def notify_verdicts_def)

text \<open>Where each fragment sits in the two programs.\<close>

lemma whitelist_filter_parts:
  assumes "build_whitelist_filter tgt SYS syscalls = Inr F"
  shows "length syscalls \<le> 200"
    and "code_at F 0 (arch_check tgt SECCOMP_RET_KILL_PROCESS)"
    and "code_at F 4 (special_checks SYS (length syscalls))"
    and "code_at F 8 (list_checks syscalls)"
    and "code_at F (8 + length syscalls) whitelist_verdicts"
    and "code_at F (11 + length syscalls) clone_handler"
    and "code_at F (15 + length syscalls) socket_handler"
    and "code_at F (22 + length syscalls) ioctl_handler"
proof -
  from assms have F: "F = arch_check tgt SECCOMP_RET_KILL_PROCESS
      @ special_checks SYS (length syscalls) @ list_checks syscalls @ whitelist_verdicts
      @ clone_handler @ socket_handler @ ioctl_handler"
    and n: "length syscalls \<le> 200"
    by (auto simp: build_whitelist_filter_def Let_def MAX_WHITELIST_SIZE_def split: if_splits)
  show "length syscalls \<le> 200" by (rule n)
  have "code_at F 0 F" by (simp add: code_at_def)
  then have "code_at F 0 (arch_check tgt SECCOMP_RET_KILL_PROCESS
      @ special_checks SYS (length syscalls) @ list_checks syscalls @ whitelist_verdicts
      @ clone_handler @ socket_handler @ ioctl_handler)"
    by (simp only: F [symmetric])
  then show "code_at F 0 (arch_check tgt SECCOMP_RET_KILL_PROCESS)"
    and "code_at F 4 (special_checks SYS (length syscalls))"
    and "code_at F 8 (list_checks syscalls)"
    and "code_at F (8 + length syscalls) whitelist_verdicts"
    and "code_at F (11 + length syscalls) clone_handler"
    and "code_at F (15 + length syscalls) socket_handler"
    and "code_at F (22 + length syscalls) ioctl_handler"
    by (auto dest!: code_at_appendD simp: add.commute)
qed

lemma notify_filter_parts:
  assumes "build_notify_filter tgt syscalls = Inr F"
  shows "length syscalls \<le> 200"
    and "code_at F 0 (arch_check tgt SECCOMP_RET_ALLOW)"
    and "code_at F 4 (list_checks syscalls)"
    and "code_at F (4 + length syscalls) notify_verdicts"
proof -
  from assms have F: "F = arch_check tgt SECCOMP_RET_ALLOW @ list_checks syscalls
      @ notify_verdicts"
    and n: "length syscalls \<le> 200"
    by (auto simp: build_notify_filter_def MAX_WHITELIST_SIZE_def split: if_splits)
  show "length syscalls \<le> 200" by (rule n)
  have "code_at F 0 F" by (simp add: code_at_def)
  then have "code_at F 0 (arch_check tgt SECCOMP_RET_ALLOW @ list_checks syscalls
      @ notify_verdicts)"
    by (simp only: F [symmetric])
  then show "code_at F 0 (arch_check tgt SECCOMP_RET_ALLOW)"
    and "code_at F 4 (list_checks syscalls)"
    and "code_at F (4 + length syscalls) notify_verdicts"
    by (auto dest!: code_at_appendD simp: add.commute)
qed

context bpf_machine
begin

lemma run_clone_handler:
  assumes "code_at P pc clone_handler" and "has_six_args d"
  shows "run P d pc acc = Some (clone_policy d)"
  using assms
  by (simp add: clone_handler_def code_at_Cons run_instr load_simps clone_policy_def)

lemma run_socket_handler:
  assumes "code_at P pc socket_handler" and "has_six_args d"
  shows "run P d pc acc = Some (socket_policy d)"
  using assms
  by (simp add: socket_handler_def code_at_Cons run_instr load_simps socket_policy_def
      forward_jumps)

lemma run_ioctl_handler:
  assumes "code_at P pc ioctl_handler" and "has_six_args d"
  shows "run P d pc acc = Some (ioctl_policy d)"
  using assms
  by (simp add: ioctl_handler_def code_at_Cons run_instr load_simps ioctl_policy_def
      forward_jumps)

lemma run_list_checks:
  assumes P: "code_at P pc (list_checks nrs)" and small: "length nrs < 256" and "i \<le> length nrs"
  shows "run P d (pc + i) acc =
    (if acc \<in> ucast ` set (drop i nrs) then run P d (Suc (pc + length nrs)) acc
     else run P d (pc + length nrs) acc)"
  using \<open>i \<le> length nrs\<close>
proof (induction rule: inc_induct)
  case base
  then show ?case by simp
next
  case (step i)
  have at: "pc + i < length P" "P ! (pc + i) = list_checks nrs ! i"
    using P \<open>i < length nrs\<close> by (auto simp: code_at_def)
  have "run P d (pc + i) acc =
      run P d (Suc (pc + i) + (if acc = ucast (nrs ! i) then length nrs - i else 0)) acc"
    using run_jeq [OF at(1)] at(2) list_checks_nth [OF \<open>i < length nrs\<close>] small
    by (simp add: unat_of_nat_u8)
  with step show ?case
    by (auto simp: set_drop_Suc)
qed

lemma run_arch_check:
  assumes "code_at P 0 (arch_check tgt mismatch)"
  shows "run P d 0 acc =
    (if sd_arch d = AUDIT_ARCH tgt then run P d 4 (sd_nr d) else Some mismatch)"
  using assms
  by (simp add: arch_check_def code_at_Cons run_instr load_simps eval_nat_numeral)

lemma run_special_checks:
  assumes "code_at P 4 (special_checks SYS n)" and "n \<le> 200"
  shows "run P d 4 acc =
      (if acc = ucast (SYS ''clone3'') then run P d (10 + n) acc
       else if acc = ucast (SYS ''clone'') then run P d (11 + n) acc
       else if acc = ucast (SYS ''socket'') then run P d (15 + n) acc
       else if acc = ucast (SYS ''ioctl'') then run P d (22 + n) acc
       else run P d 8 acc)"
proof -
  have off: "unat (of_nat (3 + n + 2) :: u8) = 5 + n" "unat (of_nat (2 + n + 3) :: u8) = 5 + n"
    "unat (of_nat (1 + n + 3 + 4) :: u8) = 8 + n" "unat (of_nat (n + 3 + 4 + 7) :: u8) = 14 + n"
    using \<open>n \<le> 200\<close> by (simp_all add: unat_of_nat_u8 del: of_nat_add)
  have at: "4 < length P" "P ! 4 = jump (BPF_JMP OR BPF_JEQ OR BPF_K) (ucast (SYS ''clone3'')) (of_nat (3 + n + 2)) 0"
    "5 < length P" "P ! 5 = jump (BPF_JMP OR BPF_JEQ OR BPF_K) (ucast (SYS ''clone'')) (of_nat (2 + n + 3)) 0"
    "6 < length P" "P ! 6 = jump (BPF_JMP OR BPF_JEQ OR BPF_K) (ucast (SYS ''socket'')) (of_nat (1 + n + 3 + 4)) 0"
    "7 < length P" "P ! 7 = jump (BPF_JMP OR BPF_JEQ OR BPF_K) (ucast (SYS ''ioctl'')) (of_nat (n + 3 + 4 + 7)) 0"
    using assms(1) by (simp_all add: special_checks_def code_at_Cons)
  note steps = run_jeq [OF at(1,2), of d acc] run_jeq [OF at(3,4), of d acc]
    run_jeq [OF at(5,6), of d acc] run_jeq [OF at(7,8), of d acc]
  show ?thesis
    using steps unfolding off by (simp add: add.commute)
qed

lemma run_whitelist_verdicts:
  assumes "code_at P pc whitelist_verdicts"
  shows "run P d pc acc = Some SECCOMP_RET_KILL_PROCESS"
    and "run P d (Suc pc) acc = Some SECCOMP_RET_ALLOW"
    and "run P d (Suc (Suc pc)) acc = Some SECCOMP_RET_ERRNO_ENOSYS"
  using assms by (simp_all add: whitelist_verdicts_def code_at_Cons run_ret)

lemma run_notify_verdicts:
  assumes "code_at P pc notify_verdicts"
  shows "run P d pc acc = Some SECCOMP_RET_ALLOW"
    and "run P d (Suc pc) acc = Some SECCOMP_RET_USER_NOTIF"
  using assms by (simp_all add: notify_verdicts_def code_at_Cons run_ret)

lemma whitelist_filter_verdict:
  assumes built: "build_whitelist_filter tgt SYS syscalls = Inr F" and d: "has_six_args d"
  shows "run F d 0 acc = Some (whitelist_policy tgt SYS syscalls d)"
proof -
  let ?n = "length syscalls" and ?nr = "sd_nr d"
  note parts = whitelist_filter_parts [OF built]
  have list: "run F d 8 ?nr = Some (if ?nr \<in> ucast ` set syscalls then SECCOMP_RET_ALLOW
       else SECCOMP_RET_KILL_PROCESS)"
    using run_list_checks [OF parts(4), of 0 d ?nr] run_whitelist_verdicts [OF parts(5)] parts(1)
    by simp
  have "run F d (10 + ?n) a = Some SECCOMP_RET_ERRNO_ENOSYS" for a
    using run_whitelist_verdicts(3) [OF parts(5)] by simp
  then show ?thesis
    using run_arch_check [OF parts(2)] run_special_checks [OF parts(3,1)] list
      run_clone_handler [OF parts(6) d] run_socket_handler [OF parts(7) d]
      run_ioctl_handler [OF parts(8) d]
    by (simp add: whitelist_policy_def)
qed

lemma notify_filter_verdict:
  assumes built: "build_notify_filter tgt syscalls = Inr F"
  shows "run F d 0 acc = Some (notify_policy tgt syscalls d)"
proof -
  let ?n = "length syscalls" and ?nr = "sd_nr d"
  note parts = notify_filter_parts [OF built]
  have "run F d 4 ?nr = Some (if ?nr \<in> ucast ` set syscalls then SECCOMP_RET_USER_NOTIF
       else SECCOMP_RET_ALLOW)"
    using run_list_checks [OF parts(3), of 0 d ?nr] run_notify_verdicts [OF parts(4)] parts(1)
    by simp
  then show ?thesis
    using run_arch_check [OF parts(2)] by (simp add: notify_policy_def)
qed

end

end
