(* ===== verification/Syscall_Names.thy ===== *)
theory Syscall_Names
  imports Seccomp_Filter
begin

text \<open>
  The names of the system calls the repository mentions, and what the proofs need to know
  about \<open>libc\<close>'s numbers for them: on each target, distinct names have distinct numbers.
  The x86\_64 table gives one \<open>SYS\<close> with that property.
\<close>

section \<open>Names\<close>

definition special_syscalls :: "string list" where
  "special_syscalls = [''clone3'', ''clone'', ''socket'', ''ioctl'']"

text \<open>
  The system calls \<open>seccomp.rs\<close> lists as removed for security, then those
  \<open>docs/SECURITY_MODEL.md\<close> lists as blocked.
\<close>

definition blocked_syscalls :: "string list" where
  "blocked_syscalls =
   [''memfd_create'', ''execveat'', ''setresuid'', ''setresgid'', ''setsid'', ''setpgid'',
    ''unshare'', ''setns'', ''mount'', ''umount2'', ''pivot_root'', ''ptrace'',
    ''process_vm_readv'', ''process_vm_writev'', ''reboot'', ''kexec_load'', ''init_module'',
    ''setuid'', ''setgid'', ''setgroups'', ''keyctl'', ''bpf'', ''perf_event_open'']"

definition known_syscalls :: "target_arch \<Rightarrow> string list" where
  "known_syscalls tgt =
     BASE_WHITELIST @ LEGACY_WHITELIST tgt @ special_syscalls @ blocked_syscalls"

definition nr_of :: "sysno \<Rightarrow> string \<Rightarrow> u32" where
  "nr_of SYS name = ucast (SYS name)"

definition libc_table :: "target_arch \<Rightarrow> sysno \<Rightarrow> bool" where
  "libc_table tgt SYS \<longleftrightarrow> inj_on (nr_of SYS) (set (known_syscalls tgt))"

section \<open>The x86\_64 numbers\<close>

definition x86_64_table :: "(string \<times> int) list" where
  "x86_64_table =
   [(''read'', 0), (''write'', 1), (''close'', 3), (''futex'', 202), (''mmap'', 9),
    (''mprotect'', 10), (''munmap'', 11), (''brk'', 12), (''rt_sigaction'', 13),
    (''rt_sigprocmask'', 14), (''rt_sigreturn'', 15), (''openat'', 257), (''lseek'', 8),
    (''close_range'', 436), (''pread64'', 17), (''pwrite64'', 18), (''readv'', 19),
    (''writev'', 20), (''preadv'', 295), (''pwritev'', 296), (''preadv2'', 327),
    (''pwritev2'', 328), (''dup'', 32), (''dup3'', 292), (''fcntl'', 72), (''flock'', 73),
    (''fsync'', 74), (''fdatasync'', 75), (''ftruncate'', 77), (''fadvise64'', 221),
    (''pipe2'', 293), (''ppoll'', 271), (''pselect6'', 270), (''sendfile'', 40),
    (''copy_file_range'', 326), (''splice'', 275), (''tee'', 276), (''mremap'', 25),
    (''msync'', 26), (''mincore'', 27), (''madvise'', 28), (''membarrier'', 324),
    (''mlock'', 149), (''mlock2'', 325), (''munlock'', 150), (''mlockall'', 151),
    (''munlockall'', 152), (''getpid'', 39), (''getppid'', 110), (''gettid'', 186),
    (''getuid'', 102), (''getgid'', 104), (''geteuid'', 107), (''getegid'', 108),
    (''getresuid'', 118), (''getresgid'', 120), (''getgroups'', 115), (''getsid'', 124),
    (''uname'', 63), (''getrusage'', 98), (''times'', 100), (''sysinfo'', 99),
    (''clock_gettime'', 228), (''clock_getres'', 229), (''clock_nanosleep'', 230),
    (''gettimeofday'', 96), (''nanosleep'', 35), (''unlinkat'', 263), (''renameat'', 264),
    (''renameat2'', 316), (''mkdirat'', 258), (''symlinkat'', 266), (''linkat'', 265),
    (''fchmod'', 91), (''fchmodat'', 268), (''fchown'', 93), (''fchownat'', 260),
    (''utimensat'', 280), (''faccessat'', 269), (''faccessat2'', 439), (''newfstatat'', 262),
    (''statfs'', 137), (''fstatfs'', 138), (''statx'', 332), (''getdents64'', 217),
    (''getcwd'', 79), (''chdir'', 80), (''fchdir'', 81), (''readlinkat'', 267),
    (''rt_sigsuspend'', 130), (''rt_sigpending'', 127), (''rt_sigtimedwait'', 128),
    (''sigaltstack'', 131), (''kill'', 62), (''tgkill'', 234), (''tkill'', 200),
    (''execve'', 59), (''exit'', 60), (''exit_group'', 231), (''wait4'', 61),
    (''waitid'', 247), (''set_tid_address'', 218), (''get_robust_list'', 274),
    (''set_robust_list'', 273), (''sched_yield'', 24), (''sched_getaffinity'', 204),
    (''sched_setaffinity'', 203), (''sched_getparam'', 143), (''sched_setparam'', 142),
    (''sched_getscheduler'', 145), (''sched_get_priority_max'', 146),
    (''sched_get_priority_min'', 147), (''prctl'', 157), (''getrandom'', 318),
    (''prlimit64'', 302), (''rseq'', 334), (''ioprio_get'', 252), (''eventfd2'', 290),
    (''epoll_create1'', 291), (''epoll_ctl'', 233), (''epoll_pwait'', 281),
    (''epoll_pwait2'', 441), (''timerfd_create'', 283), (''timerfd_settime'', 286),
    (''timerfd_gettime'', 287), (''signalfd4'', 289), (''socketpair'', 53), (''connect'', 42),
    (''bind'', 49), (''listen'', 50), (''accept'', 43), (''accept4'', 288),
    (''getsockname'', 51), (''getpeername'', 52), (''sendto'', 44), (''recvfrom'', 45),
    (''setsockopt'', 54), (''getsockopt'', 55), (''shutdown'', 48), (''sendmsg'', 46),
    (''recvmsg'', 47), (''sendmmsg'', 307), (''recvmmsg'', 299), (''fstat'', 5),
    (''dup2'', 33), (''access'', 21), (''pipe'', 22), (''select'', 23), (''poll'', 7),
    (''open'', 2), (''creat'', 85), (''unlink'', 87), (''rename'', 82), (''mkdir'', 83),
    (''rmdir'', 84), (''symlink'', 88), (''link'', 86), (''chmod'', 90), (''chown'', 92),
    (''lchown'', 94), (''stat'', 4), (''lstat'', 6), (''getdents'', 78), (''readlink'', 89),
    (''fork'', 57), (''vfork'', 58), (''getpgrp'', 111), (''arch_prctl'', 158),
    (''eventfd'', 284), (''epoll_create'', 213), (''epoll_wait'', 232), (''signalfd'', 282),
    (''clone3'', 435), (''clone'', 56), (''socket'', 41), (''ioctl'', 16),
    (''memfd_create'', 319), (''execveat'', 322), (''setresuid'', 117), (''setresgid'', 119),
    (''setsid'', 112), (''setpgid'', 109), (''unshare'', 272), (''setns'', 308),
    (''mount'', 165), (''umount2'', 166), (''pivot_root'', 155), (''ptrace'', 101),
    (''process_vm_readv'', 310), (''process_vm_writev'', 311), (''reboot'', 169),
    (''kexec_load'', 246), (''init_module'', 175), (''setuid'', 105), (''setgid'', 106),
    (''setgroups'', 116), (''keyctl'', 250), (''bpf'', 321), (''perf_event_open'', 298)]"

definition x86_64_SYS :: sysno where
  "x86_64_SYS name = (case map_of x86_64_table name of None \<Rightarrow> -1 | Some n \<Rightarrow> of_int n)"

section \<open>Lemmas\<close>

lemma known_syscalls_Aarch64: "set (known_syscalls Aarch64) \<subseteq> set (known_syscalls X86_64)"
  by (auto simp: known_syscalls_def)

lemma whitelist_excludes_special:
  "set (BASE_WHITELIST @ LEGACY_WHITELIST X86_64) \<inter> set special_syscalls = {}"
  by (simp add: BASE_WHITELIST_def special_syscalls_def)

lemma whitelist_excludes_blocked:
  "set (BASE_WHITELIST @ LEGACY_WHITELIST X86_64) \<inter> set blocked_syscalls = {}"
  by (simp add: BASE_WHITELIST_def blocked_syscalls_def)

lemma special_excludes_blocked: "set special_syscalls \<inter> set blocked_syscalls = {}"
  by (simp add: special_syscalls_def blocked_syscalls_def)

lemma notify_within_whitelist:
  "set (BASE_NOTIFY_FS_SYSCALLS @ LEGACY_NOTIFY_FS_SYSCALLS tgt)
   \<subseteq> set (BASE_WHITELIST @ LEGACY_WHITELIST tgt)"
  by (cases tgt) (simp_all add: BASE_NOTIFY_FS_SYSCALLS_def BASE_WHITELIST_def)

lemma whitelist_lengths:
  "length BASE_WHITELIST = 143"
  "length (LEGACY_WHITELIST X86_64) = 29" "length (LEGACY_WHITELIST Aarch64) = 0"
  by (simp_all add: BASE_WHITELIST_def)

lemma x86_64_table_names: "map fst x86_64_table = known_syscalls X86_64"
  by (simp add: x86_64_table_def known_syscalls_def BASE_WHITELIST_def special_syscalls_def
      blocked_syscalls_def)

lemma x86_64_table_numbers: "distinct (map snd x86_64_table)"
  by (simp add: x86_64_table_def)

lemma x86_64_table_range: "\<forall>n \<in> set (map snd x86_64_table). 0 \<le> n \<and> n < 2 ^ 31"
  by (simp add: x86_64_table_def)

lemma x86_64_SYS_at:
  assumes "name \<in> set (known_syscalls X86_64)"
  obtains n where "(name, n) \<in> set x86_64_table" "x86_64_SYS name = of_int n"
    "nr_of x86_64_SYS name = of_int n" "0 \<le> n" "n < 2 ^ 31"
proof -
  from assms have "name \<in> fst ` set x86_64_table"
    by (simp flip: x86_64_table_names)
  then obtain n where n: "map_of x86_64_table name = Some n"
    by (cases "map_of x86_64_table name") (auto simp: map_of_eq_None_iff)
  then have "(name, n) \<in> set x86_64_table" by (rule map_of_SomeD)
  moreover from this have "0 \<le> n" "n < 2 ^ 31" using x86_64_table_range by force+
  moreover from n have "x86_64_SYS name = of_int n" by (simp add: x86_64_SYS_def)
  moreover from this have "nr_of x86_64_SYS name = of_int n"
    using \<open>0 \<le> n\<close> \<open>n < 2 ^ 31\<close>
    by (simp add: nr_of_def unsigned_of_int take_bit_int_eq_self)
  ultimately show ?thesis using that by blast
qed

lemma x86_64_libc_table: "libc_table X86_64 x86_64_SYS"
  unfolding libc_table_def
proof (rule inj_onI)
  fix a b
  assume "a \<in> set (known_syscalls X86_64)" "b \<in> set (known_syscalls X86_64)"
    and eq: "nr_of x86_64_SYS a = nr_of x86_64_SYS b"
  then obtain m n where m: "(a, m) \<in> set x86_64_table" "nr_of x86_64_SYS a = of_int m"
      "0 \<le> m" "m < 2 ^ 31"
    and n: "(b, n) \<in> set x86_64_table" "nr_of x86_64_SYS b = of_int n" "0 \<le> n" "n < 2 ^ 31"
    by (metis x86_64_SYS_at)
  from eq m n have "uint (of_int m :: u32) = uint (of_int n :: u32)" by simp
  then have "m = n"
    using m(3,4) n(3,4) by (simp add: uint_word_of_int_eq take_bit_int_eq_self)
  with m(1) n(1) x86_64_table_numbers show "a = b"
    by (fastforce simp: distinct_map inj_on_def)
qed

end
