(* ===== verification/Child_Guarantees.thy ===== *)
theory Child_Guarantees
  imports Sandbox_Child Lockdown_Guarantees Seccomp_Policy Syscall_Names
begin

text \<open>
  The main guarantee of the sandbox: the child reaches \<open>execve\<close> only after every layer of the
  confinement has been put in place, in the right order, and with nothing after it.
\<close>

section \<open>Stages\<close>

definition is_exec :: "call \<Rightarrow> bool" where
  "is_exec c \<longleftrightarrow> (case c of
       Proc (Execve _ _ _) \<Rightarrow> True | Proc (RunProgram _ _) \<Rightarrow> True | _ \<Rightarrow> False)"

lemma is_exec_simps [simp]:
  "is_exec (Proc (Execve p av ev))" "is_exec (Proc (RunProgram p av))" "\<not> is_exec (Attr c1)" "\<not> is_exec (Ll c2)"
  "\<not> is_exec (Nt c3)" "\<not> is_exec (Fd c4)" "\<not> is_exec (Fs c5)" "\<not> is_exec (Mio c6)"
  "\<not> is_exec (Proc (Chdir p))" "\<not> is_exec (Proc Fork)" "\<not> is_exec (Proc (Exit n))"
  "\<not> is_exec (Proc (Kill n))" "\<not> is_exec (Proc (PidfdOpen n))" "\<not> is_exec (Proc (PidfdKill n))"
  "\<not> is_exec (Proc (Waitid n))" "\<not> is_exec (Proc Now)"
  by (simp_all add: is_exec_def)

definition no_exec :: "hist \<Rightarrow> bool" where
  "no_exec t \<longleftrightarrow> (\<forall>e \<in> set t. \<not> is_exec (fst e))"

lemma no_exec_simps [simp]:
  "no_exec []" "no_exec (e # t) \<longleftrightarrow> \<not> is_exec (fst e) \<and> no_exec t"
  "no_exec (t @ u) \<longleftrightarrow> no_exec t \<and> no_exec u"
  by (auto simp: no_exec_def)

text \<open>A stage never executes a program, and has done \<open>S\<close> when it succeeds.\<close>

definition stage :: "(hist \<Rightarrow> bool) \<Rightarrow> ('e, 'a) io \<Rightarrow> bool" where
  "stage S m \<longleftrightarrow> (\<forall>K h. runs m K (\<lambda>r t. no_exec t \<and> (case r of Inl _ \<Rightarrow> True | Inr _ \<Rightarrow> S t)) h)"

lemma stageI:
  assumes "only (\<lambda>c. \<not> is_exec c) m" and "\<And>K h. adds m K S h"
  shows "stage S m"
  unfolding stage_def
proof (intro allI)
  fix K h
  obtain t where t: "snd (m K h) = h @ t" "no_exec t"
    using assms(1) unfolding only_def no_exec_def by blast
  then show "runs m K (\<lambda>r t. no_exec t \<and> (case r of Inl _ \<Rightarrow> True | Inr _ \<Rightarrow> S t)) h"
    using assms(2) [of K h]
    by (cases "m K h") (auto simp: runs_def wp_def split: sum.splits)
qed

lemma stage_then:
  assumes "stage S m" and "stage S' n" and "\<And>t u. S t \<Longrightarrow> S' u \<Longrightarrow> R (t @ u)"
  shows "stage R (io_then m n)"
  unfolding stage_def
proof (intro allI)
  fix K h
  show "runs (io_then m n) K (\<lambda>r t. no_exec t \<and> (case r of Inl _ \<Rightarrow> True | Inr _ \<Rightarrow> R t)) h"
    by (rule runs_then [OF assms(1) [unfolded stage_def, rule_format]])
      (auto intro!: runs_mono [OF assms(2) [unfolded stage_def, rule_format]] assms(3) split: sum.splits)
qed

lemma stage_mono: "stage S m \<Longrightarrow> (\<And>t. S t \<Longrightarrow> R t) \<Longrightarrow> stage R m"
  unfolding stage_def by (fastforce elim: runs_mono split: sum.splits)

lemma stage_map_err:
  assumes "stage S m"
  shows "stage S (io_map_err g m)"
  unfolding stage_def
  by (intro allI runs_map_err runs_mono [OF assms [unfolded stage_def, rule_format]])
    (auto split: sum.splits)

lemma io_then_assoc: "io_then (io_then a b) c = io_then a (io_then b c)"
  by (intro ext) (simp add: io_then_def io_bind_def split: prod.split sum.split)

section \<open>The stages of the child\<close>

text \<open>The notify filter, if the plan asks for one, with the listener it returned.\<close>

definition notify_installed :: "target_arch \<Rightarrow> sysno \<Rightarrow> plan \<Rightarrow> hist \<Rightarrow> bool" where
  "notify_installed tgt SYS p t \<longleftrightarrow>
     (if notify_mode p = Disabled then t = []
      else (\<exists>G n l send cl. build_notify_filter tgt (notify_fs_syscalls tgt SYS) = Inr G
         \<and> t = [(Attr PrSetNoNewPrivs, n),
                (Attr (SetFilter SECCOMP_FILTER_FLAG_NEW_LISTENER (filter_prog G)), l)]
               @ send @ [(Fd (Close (ans_ret l)), cl)]
         \<and> 0 \<le> ans_ret l))"

text \<open>The whitelist filter, of the effective whitelist of the plan.\<close>

definition filter_installed ::
  "target_arch \<Rightarrow> sysno \<Rightarrow> (i64 set \<Rightarrow> i64 list) \<Rightarrow> plan \<Rightarrow> hist \<Rightarrow> bool" where
  "filter_installed tgt SYS hash_order p t \<longleftrightarrow>
     (\<exists>F n s. build_whitelist_filter tgt SYS (effective_whitelist tgt SYS hash_order p) = Inr F
        \<and> t = [(Attr PrSetNoNewPrivs, n), (Attr (SetFilter 0 (filter_prog F)), s)]
        \<and> ans_ret n = 0 \<and> ans_ret s = 0)"

text \<open>The parent has been told, has answered, and all other descriptors are closed.\<close>

definition synced :: "workspace \<Rightarrow> hist \<Rightarrow> bool" where
  "synced ws t \<longleftrightarrow>
     (\<exists>w r c. t = [(Fd (Write (child_ready (p_sync (ws_pipes ws))) eventfd_value), w),
                   (Fd (Read (parent_done (p_sync (ws_pipes ws))) 8), r),
                   (Fd (CloseRange 3 (- 1) 0), c)] \<and> ans_ret w = 8 \<and> ans_ret r = 8)"

definition locked_down :: "plan \<Rightarrow> path \<Rightarrow> path list \<Rightarrow> hist \<Rightarrow> bool" where
  "locked_down p root extra t \<longleftrightarrow>
     (\<exists>a ll rl caps. t = [(Attr PrSetNoNewPrivs, a)] @ ll @ rl @ caps
        \<and> ans_ret a = 0 \<and> landlock_enforced p ll \<and> limits_set p rl \<and> caps_dropped caps)
     \<and> rules_from (grants p root extra) t"

text \<open>The paths of the program's own mounts, which are granted for reading.\<close>

definition extra_paths :: "execution_info \<Rightarrow> path list" where
  "extra_paths exec_info = List.map_filter (\<lambda>m. to_str (mnt_source m)) (extra_mounts exec_info)"

lemma nnp_adds: "adds set_no_new_privs K (\<lambda>t. \<exists>a. t = [(Attr PrSetNoNewPrivs, a)] \<and> ans_ret a = 0) h"
  by (simp add: set_no_new_privs_def wp_rules)

lemma rlimits_adds: "adds (io_map_err LdRlimit (apply_rlimits p)) K (limits_set p) h"
  unfolding wp_map_err by (rule apply_rlimits_adds)

lemma lockdown_layers_adds:
  "adds (lockdown p root extra) K (\<lambda>t. \<exists>a ll rl caps. t = [(Attr PrSetNoNewPrivs, a)] @ ll @ rl @ caps
     \<and> ans_ret a = 0 \<and> landlock_enforced p ll \<and> limits_set p rl \<and> caps_dropped caps) h"
  unfolding lockdown_def
  by (rule adds_then [OF nnp_adds adds_then [OF apply_landlock_adds
        adds_then [OF rlimits_adds drop_caps_adds, where R = "\<lambda>t. \<exists>rl caps. t = rl @ caps
            \<and> limits_set p rl \<and> caps_dropped caps"],
        where R = "\<lambda>t. \<exists>ll rl caps. t = ll @ rl @ caps \<and> landlock_enforced p ll
            \<and> limits_set p rl \<and> caps_dropped caps"]])
    fastforce+

lemma lockdown_adds: "adds (lockdown p root extra) K (locked_down p root extra) h"
  using wp_conj [OF lockdown_layers_adds lockdown_rules [OF rules_since_start], of p root extra K h]
  by (rule wp_mono) (fastforce simp: locked_down_def rules_since_def)+

lemma add_path_rule_calls: "only (\<lambda>c. \<not> is_exec c) (add_path_rule fd p a)"
  by (auto simp: add_path_rule_def open_path_def landlock_add_rule_path_def
      intro!: only_rules split: sum.split)

lemma lockdown_calls: "only (\<lambda>c. \<not> is_exec c) (lockdown p root extra)"
  unfolding lockdown_def set_no_new_privs_def apply_landlock_v5_def landlock_abi_version_def
    landlock_create_ruleset_def landlock_restrict_self_def add_rules_def add_rule_if_exists_def
    apply_rlimits_def set_rlimit_def apply_securebits_def drop_all_caps_def
  by (auto intro!: only_rules add_path_rule_calls split: sum.split)

lemma lockdown_stage: "stage (locked_down p root extra) (lockdown p root extra)"
  by (rule stageI [OF lockdown_calls lockdown_adds])

lemma notify_stage:
  "stage (notify_installed tgt SYS p)
     (io_when (notify_mode p \<noteq> Disabled) (install_notify tgt SYS sock))"
proof (rule stageI)
  show "only (\<lambda>c. \<not> is_exec c) (io_when (notify_mode p \<noteq> Disabled) (install_notify tgt SYS sock))"
    by (auto simp: install_notify_def seccomp_set_mode_filter_listener_def send_fd_def close_fd_def
        intro!: only_rules split: option.split)
next
  fix K h
  have "adds (install_notify tgt SYS sock) K (notify_installed tgt SYS p) h" if "notify_mode p \<noteq> Disabled"
    using that
    by (auto simp: install_notify_def seccomp_set_mode_filter_listener_def send_fd_def close_fd_def
        wp_rules notify_installed_def split: option.split sum.split)
  then show "adds (io_when (notify_mode p \<noteq> Disabled) (install_notify tgt SYS sock)) K
      (notify_installed tgt SYS p) h"
    by (simp add: wp_when notify_installed_def)
qed

lemma apply_seccomp_stage: "stage (filter_installed tgt SYS ho p) (apply_seccomp tgt SYS ho p)"
proof (rule stageI)
  show "only (\<lambda>c. \<not> is_exec c) (apply_seccomp tgt SYS ho p)"
    by (auto simp: apply_seccomp_def seccomp_set_mode_filter_def intro!: only_rules)
next
  fix K h
  show "adds (apply_seccomp tgt SYS ho p) K (filter_installed tgt SYS ho p) h"
    by (auto simp: apply_seccomp_def seccomp_set_mode_filter_def wp_rules filter_installed_def
        split: sum.split)
qed

lemma sync_stage:
  "stage (synced ws)
     (io_then (eventfd_write (child_ready (p_sync (ws_pipes ws))) e1)
     (io_then (eventfd_read (parent_done (p_sync (ws_pipes ws))) e2) close_extra_fds))"
  by (rule stageI)
    (auto simp: eventfd_write_def eventfd_read_def close_extra_fds_def wp_rules synced_def
      intro!: only_rules)

lemma setup_stage:
  "stage (\<lambda>_. True)
     (io_then (close_fd (write_end (p_stdin (ws_pipes ws))))
     (io_then (close_fd (read_end (p_stdout (ws_pipes ws))))
     (io_then (close_fd (read_end (p_stderr (ws_pipes ws))))
     (io_then (setup_stdio ws) (enter_work_dir ws)))))"
proof -
  have "only (\<lambda>c. \<not> is_exec c)
     (io_then (close_fd (write_end (p_stdin (ws_pipes ws))))
     (io_then (close_fd (read_end (p_stdout (ws_pipes ws))))
     (io_then (close_fd (read_end (p_stderr (ws_pipes ws))))
     (io_then (setup_stdio ws) (enter_work_dir ws)))))"
    by (auto simp: setup_stdio_def enter_work_dir_def close_fd_def dup2_def cstring_def Let_def
        intro!: only_rules)
  then show ?thesis by (intro stageI adds_any)
qed

section \<open>The guarantee\<close>

text \<open>\<open>confined\<close>: what lies before the program is executed, in this order.\<close>

definition confined ::
  "target_arch \<Rightarrow> sysno \<Rightarrow> (i64 set \<Rightarrow> i64 list) \<Rightarrow> workspace \<Rightarrow> plan \<Rightarrow> execution_info \<Rightarrow> hist \<Rightarrow> bool" where
  "confined tgt SYS hash_order ws p exec_info t \<longleftrightarrow>
     (\<exists>stdio ld nt sf sync. t = stdio @ ld @ nt @ sf @ sync
        \<and> locked_down p (ws_root ws) (extra_paths exec_info) ld \<and> notify_installed tgt SYS p nt
        \<and> filter_installed tgt SYS hash_order p sf \<and> synced ws sync)"

definition child_prefix ::
  "target_arch \<Rightarrow> sysno \<Rightarrow> (i64 set \<Rightarrow> i64 list) \<Rightarrow> workspace \<Rightarrow> plan \<Rightarrow> execution_info
     \<Rightarrow> int option \<Rightarrow> (executor_error, unit) io" where
  "child_prefix tgt SYS ho ws p exec_info sock =
     io_then
      (io_then (close_fd (write_end (p_stdin (ws_pipes ws))))
      (io_then (close_fd (read_end (p_stdout (ws_pipes ws))))
      (io_then (close_fd (read_end (p_stderr (ws_pipes ws))))
      (io_then (setup_stdio ws) (enter_work_dir ws)))))
     (io_then (io_map_err LockdownErr
        (lockdown p (ws_root ws)
           (List.map_filter (\<lambda>m. to_str (mnt_source m)) (extra_mounts exec_info))))
     (io_then (io_when (notify_mode p \<noteq> Disabled) (install_notify tgt SYS sock))
     (io_then (apply_seccomp tgt SYS ho p)
     (io_then (eventfd_write (child_ready (p_sync (ws_pipes ws))) (ChildSetup ''eventfd write failed''))
     (io_then (eventfd_read (parent_done (p_sync (ws_pipes ws))) (ChildSetup ''eventfd read failed''))
        close_extra_fds)))))"

lemma child_process_split:
  "child_process tgt SYS ho ws p exec_info sock =
     io_then (child_prefix tgt SYS ho ws p exec_info sock) (exec_command p exec_info)"
  by (simp add: child_process_def child_prefix_def io_then_assoc)

lemma child_prefix_stage:
  "stage (confined tgt SYS ho ws p exec_info) (child_prefix tgt SYS ho ws p exec_info sock)"
  unfolding child_prefix_def extra_paths_def [symmetric]
  by (rule stage_then [OF setup_stage
        stage_then [OF stage_map_err [OF lockdown_stage]
        stage_then [OF notify_stage
        stage_then [OF apply_seccomp_stage sync_stage,
          where R = "\<lambda>t. \<exists>sf sync. t = sf @ sync \<and> filter_installed tgt SYS ho p sf \<and> synced ws sync"],
          where R = "\<lambda>t. \<exists>nt sf sync. t = nt @ sf @ sync \<and> notify_installed tgt SYS p nt
              \<and> filter_installed tgt SYS ho p sf \<and> synced ws sync"],
          where R = "\<lambda>t. \<exists>ld nt sf sync. t = ld @ nt @ sf @ sync \<and> locked_down p (ws_root ws) (extra_paths exec_info) ld
              \<and> notify_installed tgt SYS p nt \<and> filter_installed tgt SYS ho p sf \<and> synced ws sync"]])
    (unfold confined_def, blast+)

text \<open>The program that is executed: the resolved binary with the arguments of the command after
  its first, and the environment of the plan.\<close>

definition execs_command :: "plan \<Rightarrow> execution_info \<Rightarrow> call \<Rightarrow> bool" where
  "execs_command p exec_info c \<longleftrightarrow>
     c = Proc (Execve (to_string_lossy (ei_binary_path exec_info))
                (to_string_lossy (ei_binary_path exec_info) # drop 1 (cmd p))
                (map (\<lambda>(k, v). k @ ''='' @ v) (env p)))
     \<and> (\<forall>s \<in> set (to_string_lossy (ei_binary_path exec_info) # drop 1 (cmd p)
                      @ map (\<lambda>(k, v). k @ ''='' @ v) (env p)). \<not> has_nul s)"

lemma io_bind_ret: "io_bind (io_ret x) f = f x"
  by (intro ext) (simp add: io_bind_def io_ret_def)

lemma cstrings_runs:
  "runs (cstrings ss) K (\<lambda>r t. t = [] \<and> (\<forall>cs. r = Inr cs \<longrightarrow> cs = ss \<and> (\<forall>s \<in> set ss. \<not> has_nul s))) h"
proof (induction ss arbitrary: h)
  case Nil
  then show ?case by (simp add: runs_ret)
next
  case (Cons s ss)
  show ?case
  proof (cases "has_nul s")
    case True
    then show ?thesis by (simp add: cstring_def runs_wp wp_rules)
  next
    case False
    then show ?thesis
      by (simp add: cstring_def) (rule runs_bind [OF runs_ret [where P = "\<lambda>r t. r = Inr s \<and> t = []"]],
          auto intro!: runs_bind [OF Cons] runs_ret)
  qed
qed

lemma exec_command_runs:
  "runs (exec_command p exec_info) K (\<lambda>r t. (\<exists>e. r = Inl e) \<and> (no_exec t \<or>
     (\<exists>c a. t = [(c, a)] \<and> execs_command p exec_info c \<and> r = Inl (ExecErr (ans_errno a))))) h"
proof (cases "has_nul (to_string_lossy (ei_binary_path exec_info))")
  case True
  then show ?thesis by (simp add: exec_command_def cstring_def runs_wp wp_rules)
next
  case False
  have last: "runs (io_bind (io_call (Proc (Execve q args envp))) (\<lambda>r. io_err (ExecErr (ans_errno r)))) K
      (\<lambda>r t. \<exists>a. t = [(Proc (Execve q args envp), a)] \<and> r = Inl (ExecErr (ans_errno a))) h"
    for q args envp h
    by (simp add: runs_wp wp_rules)
  show ?thesis
    unfolding exec_command_def cstring_def if_not_P [OF False] io_bind_ret
    by (rule runs_bind [OF cstrings_runs])
      (use False in \<open>auto intro!: runs_bind [OF cstrings_runs] runs_mono [OF last]
          simp: execs_command_def\<close>)
qed

text \<open>A run of the child: it fails, and executes at most the command, as its last call, once it
  is confined.\<close>

definition child_ends ::
  "target_arch \<Rightarrow> sysno \<Rightarrow> (i64 set \<Rightarrow> i64 list) \<Rightarrow> workspace \<Rightarrow> plan \<Rightarrow> execution_info
     \<Rightarrow> executor_error + unit \<Rightarrow> hist \<Rightarrow> bool" where
  "child_ends tgt SYS ho ws p exec_info r t \<longleftrightarrow> (\<exists>e. r = Inl e) \<and> (no_exec t
        \<or> (\<exists>pre c a. t = pre @ [(c, a)] \<and> no_exec pre \<and> confined tgt SYS ho ws p exec_info pre
             \<and> execs_command p exec_info c \<and> r = Inl (ExecErr (ans_errno a))))"

lemma child_process_runs:
  "runs (child_process tgt SYS ho ws p exec_info sock) K (child_ends tgt SYS ho ws p exec_info) h"
  unfolding child_process_split
proof (rule runs_then [OF child_prefix_stage [unfolded stage_def, rule_format]])
  fix x t
  assume t: "no_exec t \<and> (case Inr x of Inl _ \<Rightarrow> True | Inr _ \<Rightarrow> confined tgt SYS ho ws p exec_info t)"
  show "runs (exec_command p exec_info) K
      (\<lambda>r u. child_ends tgt SYS ho ws p exec_info r (t @ u)) (h @ t)"
  proof (rule runs_mono [OF exec_command_runs])
    fix r :: "executor_error + unit" and u
    assume u: "(\<exists>e. r = Inl e) \<and> (no_exec u \<or> (\<exists>c a. u = [(c, a)]
        \<and> execs_command p exec_info c \<and> r = Inl (ExecErr (ans_errno a))))"
    from u consider "no_exec u" | c a where "u = [(c, a)]" "execs_command p exec_info c"
      "r = Inl (ExecErr (ans_errno a))" by blast
    then show "child_ends tgt SYS ho ws p exec_info r (t @ u)"
      using t u unfolding child_ends_def by cases (simp, force)
  qed
qed (simp add: child_ends_def)

section \<open>Properties\<close>

text \<open>C2: the child executes nothing before it is confined. Whatever the kernel answers, either
  it executes no program at all, or it executes exactly one, as its last call: the command of
  the plan, after \<open>NO_NEW_PRIVS\<close>, Landlock, the resource limits, the securebits and capability
  drops, the notify filter if the plan asks for one, the whitelist filter of the plan, the
  handshake with the parent and the closing of all other descriptors, in this order. The child
  code never returns success.\<close>

theorem child_execs_confined:
  "\<exists>e t. child_process tgt SYS ho ws p exec_info sock K h = (Inl e, h @ t)
     \<and> (no_exec t
        \<or> (\<exists>pre c a. t = pre @ [(c, a)] \<and> no_exec pre \<and> confined tgt SYS ho ws p exec_info pre
             \<and> execs_command p exec_info c \<and> e = ExecErr (ans_errno a)))"
  using child_process_runs [of tgt SYS ho ws p exec_info sock K h]
  unfolding runs_def child_ends_def by blast

text \<open>A kernel on which every call succeeds.\<close>

definition all_succeed :: "os \<Rightarrow> bool" where
  "all_succeed K \<longleftrightarrow> (\<forall>h c. ans_ret (K h c) =
     (case c of Fd (Write fd bs) \<Rightarrow> int (length bs) | Fd (Read fd n) \<Rightarrow> int n | _ \<Rightarrow> 0))"

lemma all_succeedD:
  assumes "all_succeed K"
  shows "ans_ret (K h (Attr c1)) = 0" "ans_ret (K h (Ll c2)) = 0" "ans_ret (K h (Fd (Close fd))) = 0"
    "ans_ret (K h (Fd (Dup2 a b))) = 0" "ans_ret (K h (Fd (Sendmsg s d m))) = 0"
    "ans_ret (K h (Proc (Chdir p))) = 0" "ans_ret (K h (Fd (CloseRange x y z))) = 0"
    "ans_ret (K h (Fd (Write fd bs))) = int (length bs)" "ans_ret (K h (Fd (Read fd n))) = int n"
  using assms by (simp_all add: all_succeed_def)

lemma filters_build:
  assumes "length (effective_whitelist tgt SYS ho p) \<le> 200"
  shows "\<exists>F. build_whitelist_filter tgt SYS (effective_whitelist tgt SYS ho p) = Inr F"
    and "\<exists>G. build_notify_filter tgt (notify_fs_syscalls tgt SYS) = Inr G"
  using assms
  by (simp_all add: build_whitelist_filter_def build_notify_filter_def MAX_WHITELIST_SIZE_def Let_def
      notify_fs_syscalls_def BASE_NOTIFY_FS_SYSCALLS_def) (cases tgt; simp)+


definition good_os :: os where
  "good_os = (\<lambda>_ c. ok_answer\<lparr>ans_ret :=
     (case c of Fd (Write fd bs) \<Rightarrow> int (length bs) | Fd (Read fd n) \<Rightarrow> int n | _ \<Rightarrow> 0)\<rparr>)"

definition demo_pipes :: pipes where
  "demo_pipes = \<lparr>p_stdin = \<lparr>read_end = 3, write_end = 4\<rparr>, p_stdout = \<lparr>read_end = 5, write_end = 6\<rparr>,
     p_stderr = \<lparr>read_end = 7, write_end = 8\<rparr>, p_sync = \<lparr>child_ready = 9, parent_done = 10\<rparr>\<rparr>"

definition demo_workspace :: workspace where
  "demo_workspace = \<lparr>ws_root = ''/tmp/eb'', ws_pipes = demo_pipes\<rparr>"

definition demo_exec :: execution_info where
  "demo_exec = \<lparr>ei_binary_path = ''/bin/echo'', extra_mounts = []\<rparr>"


section \<open>The configured whitelist\<close>


text \<open>A plan that denies \<open>getpid\<close>, and one order of a hash set.\<close>

definition no_getpid :: plan where
  "no_getpid = plan_syscalls (new_plan False [''id'']) (deny default_syscalls 39)"

definition sorted_order :: "i64 set \<Rightarrow> i64 list" where
  "sorted_order S = sorted_list_of_set S"

lemma no_getpid_filter:
  "\<exists>F. build_whitelist_filter X86_64 x86_64_SYS (effective_whitelist X86_64 x86_64_SYS sorted_order no_getpid) = Inr F"
proof (rule filters_build(1))
  let ?W = "set (default_whitelist X86_64 x86_64_SYS)"
  have w: "effective_whitelist X86_64 x86_64_SYS sorted_order no_getpid = sorted_list_of_set (?W - {39})"
    by (simp add: effective_whitelist_def no_getpid_def plan_syscalls_def deny_def default_syscalls_def
        sorted_order_def)
  have "card (?W - {39}) \<le> card ?W" by (simp add: card_mono)
  also have "\<dots> \<le> length (default_whitelist X86_64 x86_64_SYS)" by (rule card_length)
  also have "\<dots> \<le> 200"
    by (simp add: default_whitelist_def whitelist_lengths del: LEGACY_WHITELIST.simps)
  finally show "length (effective_whitelist X86_64 x86_64_SYS sorted_order no_getpid) \<le> 200"
    by (simp add: w)
qed


text \<open>Denying a system call that has an argument filter has no effect: for \<open>clone\<close>,
  \<open>clone3\<close>, \<open>socket\<close> and \<open>ioctl\<close> any two configurations give the same verdict.\<close>

theorem special_calls_ignore_config:
  assumes "bpf_machine run"
    and "build_whitelist_filter tgt SYS (effective_whitelist tgt SYS ho p) = Inr F"
    and "build_whitelist_filter tgt SYS (effective_whitelist tgt SYS ho q) = Inr G"
    and "has_six_args d" "sd_nr d \<in> nr_of SYS ` set special_syscalls"
  shows "run F d 0 0 = run G d 0 0"
proof -
  have "whitelist_policy tgt SYS xs d = whitelist_policy tgt SYS ys d" for xs ys
    using assms(5) by (auto simp: whitelist_policy_def special_syscalls_def nr_of_def)
  then show ?thesis
    using bpf_machine.whitelist_filter_verdict [OF assms(1,2,4)]
      bpf_machine.whitelist_filter_verdict [OF assms(1,3,4)] by metis
qed

theorem special_calls_ignore_config_witness:
  "\<exists>F G. build_whitelist_filter X86_64 x86_64_SYS
         (effective_whitelist X86_64 x86_64_SYS (\<lambda>_. []) (new_plan False [''id''])) = Inr F
    \<and> build_whitelist_filter X86_64 x86_64_SYS
         (effective_whitelist X86_64 x86_64_SYS (\<lambda>_. []) (plan_syscalls (new_plan False [''id'']) (deny default_syscalls 41))) = Inr G
    \<and> bpf_run F (default_seccomp_data\<lparr>sd_nr := 41, sd_arch := 0xc000003e\<rparr>) 0 0
      = bpf_run G (default_seccomp_data\<lparr>sd_nr := 41, sd_arch := 0xc000003e\<rparr>) 0 0"
proof -
  have l: "length (effective_whitelist X86_64 x86_64_SYS (\<lambda>_. []) (new_plan False [''id''])) \<le> 200"
    "length (effective_whitelist X86_64 x86_64_SYS (\<lambda>_. [])
       (plan_syscalls (new_plan False [''id'']) (deny default_syscalls 41))) \<le> 200"
    by (simp_all add: effective_whitelist_def new_plan_def default_plan_def default_whitelist_def
        plan_syscalls_def whitelist_lengths del: LEGACY_WHITELIST.simps)
  have "nr_of x86_64_SYS ` set special_syscalls = {435, 56, 41, 16}"
    by code_simp
  then have nr: "41 \<in> nr_of x86_64_SYS ` set special_syscalls" by simp
  obtain F G where FG: "build_whitelist_filter X86_64 x86_64_SYS
         (effective_whitelist X86_64 x86_64_SYS (\<lambda>_. []) (new_plan False [''id''])) = Inr F"
    "build_whitelist_filter X86_64 x86_64_SYS
         (effective_whitelist X86_64 x86_64_SYS (\<lambda>_. []) (plan_syscalls (new_plan False [''id'']) (deny default_syscalls 41))) = Inr G"
    using filters_build(1) [OF l(1)] filters_build(1) [OF l(2)] by blast
  from special_calls_ignore_config [OF bpf.bpf_machine_axioms FG,
      of "default_seccomp_data\<lparr>sd_nr := 41, sd_arch := 0xc000003e\<rparr>"] nr FG
  show ?thesis by (auto simp: has_six_args_def default_seccomp_data_def)
qed

end
