(* ===== verification/Monitor_Guarantees.thy ===== *)
theory Monitor_Guarantees
  imports Monitor_Loop
begin

text \<open>
  What the monitor guarantees: the output it returns is bounded, the child is reaped exactly
  once and its status reported faithfully, the deadline is honoured, and the loop ends on every
  kernel whose clock passes the deadline.
\<close>

unbundle bit_operations_syntax

section \<open>Events of a run\<close>

definition waits :: "int \<Rightarrow> hist \<Rightarrow> hist" where
  "waits pidfd t = filter (\<lambda>e. fst e = Proc (Waitid pidfd)) t"

definition kills :: "int \<Rightarrow> hist \<Rightarrow> hist" where
  "kills pidfd t = filter (\<lambda>e. fst e = Proc (PidfdKill pidfd)) t"

definition is_poll :: "call \<Rightarrow> bool" where
  "is_poll c \<longleftrightarrow> (case c of Fd (Poll fds n) \<Rightarrow> True | _ \<Rightarrow> False)"

text \<open>\<open>polls_timely d t\<close>: right before every poll the clock was read and the deadline \<open>d\<close> had
  not passed, and the poll waits at most 100 milliseconds and not beyond the deadline.\<close>

fun polls_timely :: "nat \<Rightarrow> nat option \<Rightarrow> hist \<Rightarrow> bool" where
  "polls_timely d now [] = True"
| "polls_timely d now ((c, a) # t) =
    ((case c of Fd (Poll fds n) \<Rightarrow>
        (case now of None \<Rightarrow> False
         | Some s \<Rightarrow> s < d \<and> 0 \<le> n \<and> n \<le> 100 \<and> nat n * 1000000 \<le> d - s) | _ \<Rightarrow> True)
     \<and> polls_timely d (if c = Proc Now then Some (nat (ans_ret a)) else None) t)"

lemma event_simps [simp]:
  "waits p [] = []" "kills p [] = []"
  "waits p (t @ u) = waits p t @ waits p u" "kills p (t @ u) = kills p t @ kills p u"
  "waits p ((c, a) # t) = (if c = Proc (Waitid p) then (c, a) # waits p t else waits p t)"
  "kills p ((c, a) # t) = (if c = Proc (PidfdKill p) then (c, a) # kills p t else kills p t)"
  by (simp_all add: waits_def kills_def)

lemma is_poll_simps [simp]:
  "is_poll (Fd (Poll fds n))" "\<not> is_poll (Fd (Read fd k))" "\<not> is_poll (Proc c)"
  "\<not> is_poll (Fd (FcntlGetFl fd))" "\<not> is_poll (Fd (FcntlSetFl fd fl))" "\<not> is_poll (Fd (Close fd))"
  "\<not> is_poll (Fs f)" "\<not> is_poll (Fd Pipe2)" "\<not> is_poll (Fd Eventfd)" "\<not> is_poll (Fd (Write fd d))"
  by (simp_all add: is_poll_def)

lemma polls_timely_no_poll: "\<forall>e \<in> set t. \<not> is_poll (fst e) \<Longrightarrow> polls_timely d now t"
  by (induction d now t rule: polls_timely.induct)
    (auto simp: is_poll_def split: call.splits fd_call.splits)

lemma polls_timely_weaken: "polls_timely d None t \<Longrightarrow> polls_timely d now t"
  by (cases t) (auto split: call.splits fd_call.splits)

lemma polls_timely_append:
  "polls_timely d now t \<Longrightarrow> polls_timely d None u \<Longrightarrow> polls_timely d now (t @ u)"
  by (induction d now t rule: polls_timely.induct) (auto intro: polls_timely_weaken)

section \<open>One round\<close>

text \<open>Before the run ends, nothing has been decided.\<close>

definition undecided :: "nat \<Rightarrow> monitor_state \<Rightarrow> bool" where
  "undecided mx st \<longleftrightarrow> ms_status st = Exited \<and> ms_exit_code st = None \<and> ms_signal st = None
     \<and> length (ms_stdout st) \<le> mx \<and> length (ms_stderr st) \<le> mx"

text \<open>At the end, the child has been waited for exactly once (\<open>ws\<close>); either it was left alone
  (\<open>ks\<close> is empty) and the state has what \<open>waitid\<close> reported, or it was killed, once.\<close>

definition reported :: "int option \<Rightarrow> int option \<Rightarrow> status \<Rightarrow> hist \<Rightarrow> hist \<Rightarrow> bool" where
  "reported ec sig s ws ks \<longleftrightarrow>
     (\<exists>w. ws = [w]
       \<and> (if ks = []
          then (ec, sig) = decode_exit (ans_vals (snd w) ! 0) (ans_vals (snd w) ! 1)
               \<and> s = (if sig = None then Exited else Signaled)
          else length ks = 1 \<and> s \<in> {Timeout, OutputLimitExceeded} \<and> ec = None \<and> sig = None))"

definition decided :: "int \<Rightarrow> nat \<Rightarrow> monitor_state \<Rightarrow> hist \<Rightarrow> bool" where
  "decided pidfd mx st t \<longleftrightarrow> length (ms_stdout st) \<le> mx \<and> length (ms_stderr st) \<le> mx
     \<and> reported (ms_exit_code st) (ms_signal st) (ms_status st) (waits pidfd t) (kills pidfd t)"

definition round_result ::
  "int \<Rightarrow> nat \<Rightarrow> io_error + round \<Rightarrow> hist \<Rightarrow> bool" where
  "round_result pidfd mx r t \<longleftrightarrow>
     (case r of Inl e \<Rightarrow> True
      | Inr (Again st) \<Rightarrow> undecided mx st \<and> waits pidfd t = [] \<and> kills pidfd t = []
      | Inr (Stop st) \<Rightarrow> decided pidfd mx st t)"

lemma round_result_simps [simp]:
  "round_result pidfd mx (Inl e) t"
  "round_result pidfd mx (Inr (Again st)) t
     \<longleftrightarrow> undecided mx st \<and> waits pidfd t = [] \<and> kills pidfd t = []"
  "round_result pidfd mx (Inr (Stop st)) t = decided pidfd mx st t"
  by (simp_all add: round_result_def)

definition no_polls :: "hist \<Rightarrow> bool" where
  "no_polls t \<longleftrightarrow> (\<forall>e \<in> set t. \<not> is_poll (fst e))"

lemma no_polls_simps [simp]:
  "no_polls []" "no_polls (e # t) \<longleftrightarrow> \<not> is_poll (fst e) \<and> no_polls t"
  "no_polls (t @ u) \<longleftrightarrow> no_polls t \<and> no_polls u"
  by (auto simp: no_polls_def)

lemma decided_quiet:
  "waits pidfd t = [] \<Longrightarrow> kills pidfd t = [] \<Longrightarrow> decided pidfd mx st (t @ u) = decided pidfd mx st u"
  by (simp only: decided_def event_simps append.left_neutral)

lemma decided_after:
  "waits pidfd u = [] \<Longrightarrow> kills pidfd u = [] \<Longrightarrow> decided pidfd mx st (t @ u) = decided pidfd mx st t"
  by (simp only: decided_def event_simps append_Nil2)

lemma decided_other [simp]:
  "decided pidfd mx st ((Fd c, a) # t) = decided pidfd mx st t"
  "decided pidfd mx st ((Proc Now, a) # t) = decided pidfd mx st t"
  using decided_quiet [of pidfd "[(Fd c, a)]"] decided_quiet [of pidfd "[(Proc Now, a)]"]
  by simp_all

lemma round_result_quiet:
  "waits pidfd t = [] \<Longrightarrow> kills pidfd t = [] \<Longrightarrow> round_result pidfd mx r (t @ u) = round_result pidfd mx r u"
  by (simp add: round_result_def decided_quiet split: sum.split round.split)

lemma round_result_read [simp]:
  "round_result pidfd mx r ((Fd c, a) # u) = round_result pidfd mx r u"
  "round_result pidfd mx r ((Proc Now, a) # u) = round_result pidfd mx r u"
  using round_result_quiet [of pidfd "[(Fd c, a)]"] round_result_quiet [of pidfd "[(Proc Now, a)]"]
  by simp_all

lemma and_again_runs:
  assumes "runs m K (\<lambda>r t. round_result pidfd mx r t \<and> no_polls t) h"
    and "\<And>st h. undecided mx st \<Longrightarrow> runs (f st) K (\<lambda>r t. round_result pidfd mx r t \<and> no_polls t) h"
  shows "runs (and_again m f) K (\<lambda>r t. round_result pidfd mx r t \<and> no_polls t) h"
  unfolding and_again_def
  by (rule runs_bind [OF assms(1)])
    (auto simp: round_result_quiet decided_def split: round.splits
      intro!: runs_ret runs_mono [OF assms(2)])

lemma wait_for_exit_runs:
  "runs (wait_for_exit pidfd) K (\<lambda>r t. \<exists>a. t = [(Proc (Waitid pidfd), a)]
     \<and> (\<forall>x. r = Inr x \<longrightarrow> x = decode_exit (ans_vals a ! 0) (ans_vals a ! 1))) h"
  unfolding runs_wp wait_for_exit_def by (simp add: wp_rules)

lemma collect_exit_runs:
  assumes "undecided mx st"
  shows "runs (collect_exit pidfd st) K (\<lambda>r t. round_result pidfd mx r t \<and> no_polls t) h"
  unfolding collect_exit_def
  by (rule runs_bind [OF wait_for_exit_runs])
    (use assms in \<open>auto simp: undecided_def decided_def reported_def intro!: runs_ret\<close>)

lemma kill_and_stop_runs:
  assumes "undecided mx st" and "s \<in> {Timeout, OutputLimitExceeded}"
  shows "runs (io_then (send_kill pidfd) (io_then (wait_for_exit pidfd)
            (io_ret (Stop (st\<lparr>ms_status := s\<rparr>))))) K
     (\<lambda>r t. round_result pidfd mx r t \<and> no_polls t \<and> (\<forall>st. r \<noteq> Inr (Again st))) h"
  using assms unfolding runs_wp send_kill_def wait_for_exit_def
  by (auto simp: wp_rules undecided_def decided_def reported_def)

lemma take_output_runs:
  assumes "undecided mx st"
    and "\<And>b. length (get st @ b) \<le> mx \<Longrightarrow> undecided mx (upd (\<lambda>x. x @ b) st)"
  shows "runs (take_output pidfd fd mx ready get upd st) K
     (\<lambda>r t. round_result pidfd mx r t \<and> no_polls t) h"
proof -
  have read: "runs (io_try (read_nonblocking fd)) K
      (\<lambda>r t. \<exists>a. t = [(Fd (Read fd 4096), a)]) h" for h
    unfolding runs_wp read_nonblocking_def by (simp add: wp_rules)
  have keep: "round_result pidfd mx (Inr (Again st)) t \<and> no_polls t"
    if "t = [] \<or> (\<exists>a. t = [(Fd (Read fd 4096), a)])" for t
    using that assms(1) by (auto simp: round_result_def)
  have more: "round_result pidfd mx (Inr (Again (upd (\<lambda>x. x @ b) st))) t \<and> no_polls t"
    if "\<exists>a. t = [(Fd (Read fd 4096), a)]" "length (get st) + length b \<le> mx" for t b
    using that assms(2) [of b] by (auto simp: round_result_def)
  have stop: "runs (io_then (send_kill pidfd) (io_then (wait_for_exit pidfd)
            (io_ret (Stop (st\<lparr>ms_status := OutputLimitExceeded\<rparr>))))) K
     (\<lambda>r u. round_result pidfd mx r (t @ u) \<and> no_polls (t @ u)) h"
    if "\<exists>a. t = [(Fd (Read fd 4096), a)]" for t h
    by (rule runs_mono [OF kill_and_stop_runs [OF assms(1), of OutputLimitExceeded]])
      (use that in \<open>auto simp: round_result_quiet\<close>)
  show ?thesis
  proof (cases ready)
    case False
    then show ?thesis using keep [of "[]"] by (simp add: take_output_def runs_ret)
  next
    case True
    have body: "runs (case r of
            Inl _ \<Rightarrow> io_ret (Again st)
          | Inr data \<Rightarrow>
              if data = [] then io_ret (Again st)
              else if length (get st) + length data > mx
              then io_then (send_kill pidfd) (io_then (wait_for_exit pidfd)
                     (io_ret (Stop (st\<lparr>ms_status := OutputLimitExceeded\<rparr>))))
              else io_ret (Again (upd (\<lambda>b. b @ data) st))) K
        (\<lambda>r u. round_result pidfd mx r (t @ u) \<and> no_polls (t @ u)) h"
      if "\<exists>a. t = [(Fd (Read fd 4096), a)]" for r t h
      using stop [OF that] more [OF that] keep [of t] that
      by (auto intro!: runs_ret split: sum.split)
    show ?thesis
      using True unfolding take_output_def
      by (simp only: not_True_eq_False if_False) (rule runs_bind [OF read], erule body, auto simp: round_result_def)
  qed
qed

definition max_bytes :: "plan \<Rightarrow> nat" where
  "max_bytes p = unat (max_output p)"

lemma poll_round_runs:
  assumes "undecided (max_bytes p) st"
  shows "runs (poll_round pidfd ws p a st) K
     (\<lambda>r t. round_result pidfd (max_bytes p) r t \<and> no_polls t) h"
  unfolding poll_round_def Let_def max_bytes_def [symmetric]
  using assms
  by (auto intro!: and_again_runs [OF take_output_runs] collect_exit_runs runs_ret
      simp: undecided_def)

text \<open>A round reads the clock first; it goes on only before the deadline, and then polls once.\<close>

definition one_round ::
  "int \<Rightarrow> nat \<Rightarrow> nat \<Rightarrow> answer \<Rightarrow> io_error + round \<Rightarrow> hist \<Rightarrow> bool" where
  "one_round pidfd mx d a r t \<longleftrightarrow> round_result pidfd mx r t \<and> polls_timely d None t
     \<and> (\<exists>u. t = (Proc Now, a) # u
          \<and> (\<forall>st. r = Inr (Again st) \<longrightarrow> nat (ans_ret a) < d \<and> length (filter (\<lambda>e. is_poll (fst e)) t) = 1))"

lemma no_polls_filter: "no_polls t \<Longrightarrow> filter (\<lambda>e. is_poll (fst e)) t = []"
  by (induction t) auto

lemma no_polls_timely: "no_polls t \<Longrightarrow> polls_timely d now t"
  by (rule polls_timely_no_poll) (simp add: no_polls_def)

lemma monitor_round_runs:
  assumes "undecided (max_bytes p) st"
  shows "runs (monitor_round pidfd ws p d st) K (one_round pidfd (max_bytes p) d (K h (Proc Now))) h"
proof -
  have clock: "runs clock_now K (\<lambda>r t. t = [(Proc Now, K h (Proc Now))]
      \<and> r = Inr (nat (ans_ret (K h (Proc Now))))) h"
    unfolding runs_wp clock_now_def by (simp add: wp_rules)
  have stop: "runs (io_then (send_kill pidfd) (io_then (wait_for_exit pidfd)
      (io_ret (Stop (st\<lparr>ms_status := Timeout\<rparr>))))) K
      (\<lambda>r u. one_round pidfd (max_bytes p) d a r ((Proc Now, a) # u)) h'"
    if "d \<le> nat (ans_ret a)" for a h'
    by (rule runs_mono [OF kill_and_stop_runs [OF assms, of Timeout]])
      (use that in \<open>auto simp: one_round_def no_polls_timely\<close>)
  have poll: "runs (io_bind (io_call (Fd (Poll fds n)))
      (\<lambda>a. if ans_ret a < 0
            then if ans_errno a = EINTR then io_ret (Again st) else io_err (Os (ans_errno a))
            else poll_round pidfd ws p a st)) K
      (\<lambda>r u. one_round pidfd (max_bytes p) d a r ((Proc Now, a) # u)) h'"
    if "nat (ans_ret a) < d" "n = int (min (as_millis (d - nat (ans_ret a))) 100)" for a n h' fds
  proof (rule runs_bind [where P = "\<lambda>r t. \<exists>b. t = [(Fd (Poll fds n), b)]"])
    show "runs (io_call (Fd (Poll fds n))) K (\<lambda>r t. \<exists>b. t = [(Fd (Poll fds n), b)]) h'"
      by (rule runs_call) simp
    have timely: "0 \<le> n" "n \<le> 100" "nat n * 1000000 \<le> d - nat (ans_ret a)"
      using that order_trans [OF mult_le_mono1 [OF min.cobounded1] div_times_less_eq_dividend]
      by (auto simp: as_millis_def)
    show "runs (if ans_ret b < 0
            then if ans_errno b = EINTR then io_ret (Again st) else io_err (Os (ans_errno b))
            else poll_round pidfd ws p b st) K
        (\<lambda>r u. one_round pidfd (max_bytes p) d a r ((Proc Now, a) # t @ u)) (h' @ t)"
      if "\<exists>b. t = [(Fd (Poll fds n), b)]" for b t
      using that timely \<open>nat (ans_ret a) < d\<close> assms
      by (auto simp: one_round_def no_polls_timely no_polls_filter
          intro!: runs_ret runs_err runs_mono [OF poll_round_runs [OF assms]])
    show "one_round pidfd (max_bytes p) d a (Inl e) ((Proc Now, a) # t)"
      if "\<exists>b. t = [(Fd (Poll fds n), b)]" for e t
      using that timely \<open>nat (ans_ret a) < d\<close> by (auto simp: one_round_def)
  qed
  show ?thesis
    unfolding monitor_round_def Let_def
    by (rule runs_bind [OF clock]) (auto intro!: stop poll)
qed

section \<open>The loop\<close>

definition loop_result ::
  "int \<Rightarrow> nat \<Rightarrow> io_error + monitor_state option \<Rightarrow> hist \<Rightarrow> bool" where
  "loop_result pidfd mx r t \<longleftrightarrow>
     (case r of Inr (Some st) \<Rightarrow> decided pidfd mx st t | _ \<Rightarrow> True)"

lemma monitor_loop_runs:
  assumes "undecided (max_bytes p) st"
  shows "runs (monitor_loop n pidfd ws p d st) K
     (\<lambda>r t. loop_result pidfd (max_bytes p) r t \<and> polls_timely d None t) h"
  using assms
proof (induction n arbitrary: st h)
  case 0
  then show ?case by (simp add: runs_ret loop_result_def)
next
  case (Suc n)
  show ?case
    unfolding monitor_loop.simps
    by (rule runs_bind [OF monitor_round_runs [OF Suc.prems]])
      (auto simp: one_round_def loop_result_def decided_quiet polls_timely_append
        intro!: runs_ret runs_mono [OF Suc.IH] split: round.split sum.splits option.splits)
qed

definition poll_count :: "hist \<Rightarrow> nat" where
  "poll_count t = length (filter (\<lambda>e. is_poll (fst e)) t)"

lemma poll_count_simps [simp]:
  "poll_count [] = 0" "poll_count (t @ u) = poll_count t + poll_count u"
  "poll_count (e # t) = (if is_poll (fst e) then Suc (poll_count t) else poll_count t)"
  by (simp_all add: poll_count_def)

text \<open>Once enough polls have been made, the clock shows the deadline.\<close>

definition clock_passes :: "os \<Rightarrow> nat \<Rightarrow> nat \<Rightarrow> bool" where
  "clock_passes K d n \<longleftrightarrow> (\<forall>h. n \<le> poll_count h \<longrightarrow> d \<le> nat (ans_ret (K h (Proc Now))))"

lemma monitor_loop_ends:
  assumes "undecided (max_bytes p) st" and "clock_passes K d N" and "N \<le> poll_count h + n"
  shows "fst (monitor_loop (Suc n) pidfd ws p d st K h) \<noteq> Inr None"
proof -
  have step: "\<exists>t. monitor_round pidfd ws p d st K h = (Inr (Again st'), h @ t)
      \<and> poll_count t = 1 \<and> undecided (max_bytes p) st' \<and> poll_count h < N"
    if "undecided (max_bytes p) st" "monitor_round pidfd ws p d st K h = (Inr (Again st'), h')"
    for st st' h h'
    using runs_eq [OF monitor_round_runs [OF that(1)] that(2)] assms(2) that(2)
    by (auto simp: one_round_def poll_count_def clock_passes_def linorder_not_less [symmetric])
  show ?thesis
    using assms(1,3)
  proof (induction n arbitrary: st h)
    case 0
    then show ?case using step [OF "0.prems"(1)]
      by (fastforce simp: io_bind_def io_ret_def split: prod.splits sum.splits round.splits)
  next
    case (Suc n)
    show ?case
      unfolding monitor_loop.simps(2) [of "Suc n"]
      using step [OF Suc.prems(1)] Suc.IH Suc.prems
      by (fastforce simp: io_bind_def io_ret_def simp del: monitor_loop.simps
          split: prod.splits sum.splits round.splits)
  qed
qed

section \<open>What was read\<close>

text \<open>The bytes that the reads of a run took from a descriptor.\<close>

definition received :: "int \<Rightarrow> hist \<Rightarrow> u8 list" where
  "received fd t = concat (map (\<lambda>e. if fst e = Fd (Read fd 4096) \<and> 0 \<le> ans_ret (snd e)
     then take (nat (ans_ret (snd e))) (ans_data (snd e)) else []) t)"

lemma received_simps [simp]:
  "received fd [] = []"
  "received fd (t @ u) = received fd t @ received fd u"
  "received fd ((c, a) # t) = (if c = Fd (Read fd 4096) \<and> 0 \<le> ans_ret a
     then take (nat (ans_ret a)) (ans_data a) else []) @ received fd t"
  by (simp_all add: received_def)

definition read_result :: "answer \<Rightarrow> io_error + u8 list" where
  "read_result a = (if ans_ret a < 0 then Inl (Os (ans_errno a))
     else Inr (take (nat (ans_ret a)) (ans_data a)))"

lemma read_runs:
  "runs (io_try (read_nonblocking fd)) K
     (\<lambda>r t. \<exists>a. t = [(Fd (Read fd 4096), a)] \<and> r = Inr (read_result a)) h"
  unfolding runs_wp read_nonblocking_def by (simp add: wp_rules read_result_def)

definition appended :: "int \<Rightarrow> int \<Rightarrow> monitor_state \<Rightarrow> monitor_state \<Rightarrow> hist \<Rightarrow> bool" where
  "appended so se st st' t \<longleftrightarrow> ms_stdout st' = ms_stdout st @ received so t
     \<and> ms_stderr st' = ms_stderr st @ received se t"

text \<open>Unless the limit was exceeded, the buffers grow by exactly what was read.\<close>

definition keeps :: "int \<Rightarrow> int \<Rightarrow> monitor_state \<Rightarrow> io_error + round \<Rightarrow> hist \<Rightarrow> bool" where
  "keeps so se st r t \<longleftrightarrow>
     (case r of Inl e \<Rightarrow> True
      | Inr (Again st') \<Rightarrow> appended so se st st' t
      | Inr (Stop st') \<Rightarrow> ms_status st' \<noteq> OutputLimitExceeded \<longrightarrow> appended so se st st' t)"

lemma keeps_simps [simp]:
  "keeps so se st (Inl e) t"
  "keeps so se st (Inr (Again st')) t = appended so se st st' t"
  "keeps so se st (Inr (Stop st')) t
     \<longleftrightarrow> (ms_status st' \<noteq> OutputLimitExceeded \<longrightarrow> appended so se st st' t)"
  by (simp_all add: keeps_def)

lemma appended_trans:
  "appended so se st st' t \<Longrightarrow> keeps so se st' r u \<Longrightarrow> keeps so se st r (t @ u)"
  by (auto simp: keeps_def appended_def split: sum.splits round.splits)

lemma and_again_keeps:
  assumes "runs m K (keeps so se st) h"
    and "\<And>st' h. runs (f st') K (keeps so se st') h"
  shows "runs (and_again m f) K (keeps so se st) h"
  unfolding and_again_def
  by (rule runs_bind [OF assms(1)])
    (auto split: round.split intro!: runs_ret runs_mono [OF assms(2)] elim: appended_trans)

lemma collect_exit_keeps: "runs (collect_exit pidfd st) K (keeps so se st) h"
  unfolding collect_exit_def
  by (rule runs_bind [OF wait_for_exit_runs]) (auto simp: appended_def intro!: runs_ret)

lemma take_output_keeps:
  assumes "\<And>a b. read_result a = Inr b \<Longrightarrow> appended so se st (upd (\<lambda>x. x @ b) st) [(Fd (Read fd 4096), a)]"
    and "so \<noteq> se" and "fd \<in> {so, se}"
  shows "runs (take_output pidfd fd mx ready get upd st) K (keeps so se st) h"
proof -
  have stop: "runs (io_then (send_kill pidfd) (io_then (wait_for_exit pidfd)
            (io_ret (Stop (st\<lparr>ms_status := OutputLimitExceeded\<rparr>))))) K
     (\<lambda>r u. keeps so se st r (t @ u)) h'" for t h'
    unfolding runs_wp send_kill_def wait_for_exit_def by (simp add: wp_rules)
  have none: "appended so se st st [(Fd (Read fd 4096), a)]"
    if "read_result a = Inl e \<or> read_result a = Inr []" for a e
    using that by (auto simp: appended_def read_result_def split: if_splits)
  have body: "runs (case read_result a of
            Inl _ \<Rightarrow> io_ret (Again st)
          | Inr data \<Rightarrow>
              if data = [] then io_ret (Again st)
              else if length (get st) + length data > mx
              then io_then (send_kill pidfd) (io_then (wait_for_exit pidfd)
                     (io_ret (Stop (st\<lparr>ms_status := OutputLimitExceeded\<rparr>))))
              else io_ret (Again (upd (\<lambda>b. b @ data) st))) K
      (\<lambda>r u. keeps so se st r ([(Fd (Read fd 4096), a)] @ u)) h'" for a h'
  proof (cases "read_result a")
    case (Inl e)
    then show ?thesis using none by (simp add: runs_ret)
  next
    case (Inr b)
    then show ?thesis
      using none [of a] assms(1) [OF Inr] stop [of "[(Fd (Read fd 4096), a)]"]
      by (auto intro!: runs_ret)
  qed
  show ?thesis
  proof (cases ready)
    case False
    then show ?thesis by (simp add: take_output_def runs_ret appended_def)
  next
    case True
    show ?thesis
      unfolding take_output_def
      by (simp only: True not_True_eq_False if_False, rule runs_bind [OF read_runs])
        (use body in auto)
  qed
qed

lemma poll_round_keeps:
  assumes "read_end (p_stdout (ws_pipes ws)) \<noteq> read_end (p_stderr (ws_pipes ws))"
  shows "runs (poll_round pidfd ws p a st) K
     (keeps (read_end (p_stdout (ws_pipes ws))) (read_end (p_stderr (ws_pipes ws))) st) h"
  using assms unfolding poll_round_def Let_def
  by (auto intro!: and_again_keeps take_output_keeps collect_exit_keeps runs_ret
      simp: appended_def read_result_def split: if_splits)

lemma monitor_round_keeps:
  assumes "read_end (p_stdout (ws_pipes ws)) \<noteq> read_end (p_stderr (ws_pipes ws))"
  shows "runs (monitor_round pidfd ws p d st) K
     (keeps (read_end (p_stdout (ws_pipes ws))) (read_end (p_stderr (ws_pipes ws))) st) h"
proof -
  let ?k = "keeps (read_end (p_stdout (ws_pipes ws))) (read_end (p_stderr (ws_pipes ws)))"
  have quiet: "?k st r ((c, a) # u) = ?k st r u" if "\<And>fd. c \<noteq> Fd (Read fd 4096)" for r c a u
  proof -
    have "appended so se st st' ((c, a) # u) = appended so se st st' u" for so se st'
      using that by (simp add: appended_def)
    then show ?thesis by (simp add: keeps_def split: sum.split round.split)
  qed
  have clock: "runs clock_now K (\<lambda>r t. \<exists>a. t = [(Proc Now, a)]) h" for h
    unfolding runs_wp clock_now_def by (simp add: wp_rules)
  have stop: "runs (io_then (send_kill pidfd) (io_then (wait_for_exit pidfd)
      (io_ret (Stop (st\<lparr>ms_status := Timeout\<rparr>))))) K (?k st) h" for h
    unfolding runs_wp send_kill_def wait_for_exit_def by (simp add: wp_rules appended_def)
  have poll: "runs (io_bind (io_call (Fd (Poll fds n)))
      (\<lambda>a. if ans_ret a < 0
            then if ans_errno a = EINTR then io_ret (Again st) else io_err (Os (ans_errno a))
            else poll_round pidfd ws p a st)) K (?k st) h" for fds n h
    by (rule runs_bind [where P = "\<lambda>r t. \<exists>b. t = [(Fd (Poll fds n), b)]"])
      (auto simp: quiet appended_def intro!: runs_call runs_ret runs_err
        runs_mono [OF poll_round_keeps [OF assms]])
  show ?thesis
    unfolding monitor_round_def Let_def
    by (rule runs_bind [OF clock])
      (auto simp: quiet intro!: runs_mono [OF stop] runs_mono [OF poll])
qed

definition loop_keeps ::
  "int \<Rightarrow> int \<Rightarrow> monitor_state \<Rightarrow> io_error + monitor_state option \<Rightarrow> hist \<Rightarrow> bool" where
  "loop_keeps so se st r t \<longleftrightarrow> (case r of Inr (Some st') \<Rightarrow> keeps so se st (Inr (Stop st')) t | _ \<Rightarrow> True)"

lemma monitor_loop_keeps:
  assumes "read_end (p_stdout (ws_pipes ws)) \<noteq> read_end (p_stderr (ws_pipes ws))"
  shows "runs (monitor_loop n pidfd ws p d st) K
     (loop_keeps (read_end (p_stdout (ws_pipes ws))) (read_end (p_stderr (ws_pipes ws))) st) h"
proof (induction n arbitrary: st h)
  case 0
  then show ?case by (simp add: runs_ret loop_keeps_def)
next
  case (Suc n)
  show ?case
    unfolding monitor_loop.simps
    by (rule runs_bind [OF monitor_round_keeps [OF assms]])
      (auto simp: loop_keeps_def appended_def intro!: runs_ret runs_mono [OF Suc.IH]
        split: round.split sum.splits option.splits)
qed

section \<open>Draining\<close>

definition drain_trace :: "int \<Rightarrow> hist \<Rightarrow> bool" where
  "drain_trace fd t = (\<forall>e \<in> set t. fst e = Fd (Read fd 4096))"

lemma drain_runs:
  assumes "length out \<le> mx"
  shows "runs (drain_remaining fd out mx) K
     (\<lambda>r t. r = Inr (take mx (out @ received fd t)) \<and> drain_trace fd t) h"
  using assms
proof (induction fd out mx arbitrary: h rule: drain_remaining.induct)
  case (1 fd out mx)
  have body: "runs (case read_result a of
            Inl _ \<Rightarrow> io_ret out
          | Inr data \<Rightarrow>
              if data = [] then io_ret out
              else drain_remaining fd (out @ take (min (length data) (mx - length out)) data) mx) K
      (\<lambda>r u. r = Inr (take mx (out @ received fd ([(Fd (Read fd 4096), a)] @ u)))
         \<and> drain_trace fd ([(Fd (Read fd 4096), a)] @ u)) h'"
    if "length out < mx" for a h'
  proof (cases "read_result a")
    case (Inl e)
    then show ?thesis using 1(2)
      by (auto simp: read_result_def drain_trace_def intro!: runs_ret split: if_splits)
  next
    case (Inr b)
    then have b: "b = take (nat (ans_ret a)) (ans_data a)" "0 \<le> ans_ret a"
      by (auto simp: read_result_def split: if_splits)
    show ?thesis
    proof (cases "b = []")
      case True
      then show ?thesis using Inr b 1(2) by (auto simp: drain_trace_def intro!: runs_ret)
    next
      case False
      let ?out = "out @ take (min (length b) (mx - length out)) b"
      have IH: "runs (drain_remaining fd ?out mx) K
          (\<lambda>r t. r = Inr (take mx (?out @ received fd t)) \<and> drain_trace fd t) h'"
        by (rule 1(1) [OF _ refl False]) (use that in auto)
      have "take mx (?out @ x) = take mx (out @ b @ x)" for x
        using that by (auto simp: min_def)
      moreover have "received fd ([(Fd (Read fd 4096), a)] @ u) = b @ received fd u" for u
        by (simp add: b)
      ultimately show ?thesis
        by (simp only: Inr sum.case False if_False append_assoc)
          (rule runs_mono [OF IH], simp add: drain_trace_def)
    qed
  qed
  show ?case
  proof (cases "mx \<le> length out")
    case True
    then show ?thesis using 1(2) by (simp add: drain_remaining.simps runs_ret drain_trace_def)
  next
    case False
    show ?thesis
      unfolding drain_remaining.simps [of fd out mx]
      by (simp only: False if_False, rule runs_bind [OF read_runs]) (use False body in auto)
  qed
qed

section \<open>The monitor\<close>

lemma runs_conj:
  "runs m K P h \<Longrightarrow> (b \<Longrightarrow> runs m K Q h) \<Longrightarrow> runs m K (\<lambda>r t. P r t \<and> (b \<longrightarrow> Q r t)) h"
  by (auto simp: runs_def)

text \<open>The output of a run: within the limits, from a child that was waited for once.\<close>

definition outcome :: "int \<Rightarrow> nat \<Rightarrow> sandbox_output \<Rightarrow> hist \<Rightarrow> bool" where
  "outcome pidfd mx out t \<longleftrightarrow> length (out_stdout out) \<le> mx \<and> length (out_stderr out) \<le> mx
     \<and> reported (out_exit_code out) (out_signal out) (out_status out) (waits pidfd t) (kills pidfd t)"

definition complete_output :: "int \<Rightarrow> int \<Rightarrow> nat \<Rightarrow> sandbox_output \<Rightarrow> hist \<Rightarrow> bool" where
  "complete_output so se mx out t \<longleftrightarrow> (out_status out \<noteq> OutputLimitExceeded \<longrightarrow>
     out_stdout out = take mx (received so t) \<and> out_stderr out = take mx (received se t))"

definition body_result ::
  "int \<Rightarrow> int \<Rightarrow> int \<Rightarrow> plan \<Rightarrow> nat \<Rightarrow> io_error + sandbox_output option \<Rightarrow> hist \<Rightarrow> bool" where
  "body_result pidfd so se p start r t \<longleftrightarrow> polls_timely (start + timeout p) None t
     \<and> (\<forall>out. r = Inr (Some out) \<longrightarrow> outcome pidfd (max_bytes p) out t
          \<and> (so \<noteq> se \<longrightarrow> complete_output so se (max_bytes p) out t))"

lemma drain_trace_quiet:
  assumes "drain_trace fd t"
  shows "waits pidfd t = []" "kills pidfd t = []" "no_polls t" "fd' \<noteq> fd \<Longrightarrow> received fd' t = []"
  using assms by (induction t) (auto simp: drain_trace_def)

lemma set_nonblocking_runs:
  "runs (set_nonblocking fd) K (\<lambda>r t. waits pidfd t = [] \<and> kills pidfd t = [] \<and> no_polls t
     \<and> (\<forall>fd'. received fd' t = [])) h"
  unfolding runs_wp set_nonblocking_def by (simp add: wp_rules)

lemma outcome_of_decided:
  assumes "decided pidfd mx st t"
  shows "outcome pidfd mx \<lparr>out_stdout = take mx x, out_stderr = take mx y, out_status = ms_status st,
            out_duration = d, out_exit_code = ms_exit_code st, out_signal = ms_signal st\<rparr> t"
  using assms by (simp add: decided_def outcome_def)

lemma outcome_quiet:
  "waits pidfd t = [] \<Longrightarrow> kills pidfd t = [] \<Longrightarrow> outcome pidfd mx st (t @ u) = outcome pidfd mx st u"
  "waits pidfd t = [] \<Longrightarrow> kills pidfd t = [] \<Longrightarrow> outcome pidfd mx st (u @ t) = outcome pidfd mx st u"
  by (simp_all only: outcome_def event_simps append.left_neutral append_Nil2)

lemma collect_runs:
  assumes "decided pidfd (max_bytes p) st t" and "polls_timely (start + timeout p) None t"
    and "so \<noteq> se \<longrightarrow> (ms_status st \<noteq> OutputLimitExceeded
           \<longrightarrow> ms_stdout st = received so t \<and> ms_stderr st = received se t)"
  shows "runs (io_bind (drain_remaining so (ms_stdout st) (max_bytes p))
           (\<lambda>out. io_bind (drain_remaining se (ms_stderr st) (max_bytes p))
           (\<lambda>err. io_bind clock_now (\<lambda>now.
              io_ret (Some \<lparr>out_stdout = out, out_stderr = err, out_status = ms_status st,
                            out_duration = now - start', out_exit_code = ms_exit_code st,
                            out_signal = ms_signal st\<rparr>))))) K
     (\<lambda>r u. body_result pidfd so se p start r (t @ u)) h"
proof -
  have len: "length (ms_stdout st) \<le> max_bytes p" "length (ms_stderr st) \<le> max_bytes p"
    using assms(1) by (simp_all add: decided_def)
  have clock: "runs clock_now K (\<lambda>r t. \<exists>a. t = [(Proc Now, a)]) h" for h
    unfolding runs_wp clock_now_def by (simp add: wp_rules)
  have same: "body_result pidfd so se p start
      (Inr (Some \<lparr>out_stdout = take (max_bytes p) (ms_stdout st @ received so u),
          out_stderr = take (max_bytes p) (ms_stderr st @ received se v), out_status = ms_status st,
          out_duration = x, out_exit_code = ms_exit_code st, out_signal = ms_signal st\<rparr>))
      (t @ u @ v @ [(Proc Now, a)])"
    if uv: "drain_trace so u" "drain_trace se v" for u v a x
  proof -
    have quiet: "waits pidfd (u @ v @ [(Proc Now, a)]) = []" "kills pidfd (u @ v @ [(Proc Now, a)]) = []"
      "no_polls (u @ v @ [(Proc Now, a)])"
      using drain_trace_quiet [OF uv(1)] drain_trace_quiet [OF uv(2)] by auto
    have "received so (t @ u @ v @ [(Proc Now, a)]) = received so t @ received so u"
      "received se (t @ u @ v @ [(Proc Now, a)]) = received se t @ received se v" if "so \<noteq> se"
      using drain_trace_quiet(4) [OF uv(1), of se] drain_trace_quiet(4) [OF uv(2), of so] that by auto
    then have "so \<noteq> se \<longrightarrow> complete_output so se (max_bytes p)
      \<lparr>out_stdout = take (max_bytes p) (ms_stdout st @ received so u),
       out_stderr = take (max_bytes p) (ms_stderr st @ received se v), out_status = ms_status st,
       out_duration = x, out_exit_code = ms_exit_code st, out_signal = ms_signal st\<rparr>
      (t @ u @ v @ [(Proc Now, a)])"
      using assms(3) by (auto simp: complete_output_def)
    moreover have "polls_timely (start + timeout p) None (t @ u @ v @ [(Proc Now, a)])"
      using polls_timely_append [OF assms(2) no_polls_timely [OF quiet(3)]] .
    moreover have "decided pidfd (max_bytes p) st (t @ u @ v @ [(Proc Now, a)])"
      using assms(1) decided_after [OF quiet(1,2)] by simp
    ultimately show ?thesis
      by (simp add: body_result_def outcome_of_decided del: take_append)
  qed
  have fail: "body_result pidfd so se p start (Inl e) (t @ w)" if "no_polls w" for e w
    using polls_timely_append [OF assms(2) no_polls_timely [OF that]] by (simp add: body_result_def)
  show ?thesis
    by (rule runs_bind [OF drain_runs [OF len(1)]],
        rule runs_bind [OF drain_runs [OF len(2)]], rule runs_bind [OF clock])
      (auto intro!: runs_ret same fail simp: drain_trace_quiet simp del: take_append)
qed

lemma monitor_body_runs:
  assumes so: "so = read_end (p_stdout (ws_pipes ws))" and se: "se = read_end (p_stderr (ws_pipes ws))"
  shows "runs (monitor_body fuel pidfd ws p) K
    (body_result pidfd so se p (nat (ans_ret (K h (Proc Now))))) h"
proof -
  let ?start = "nat (ans_ret (K h (Proc Now)))"
  let ?quiet = "\<lambda>t. waits pidfd t = [] \<and> kills pidfd t = [] \<and> no_polls t \<and> (\<forall>fd. received fd t = [])"
  have clock: "runs clock_now K (\<lambda>r t. ?quiet t \<and> r = Inr ?start) h"
    unfolding runs_wp clock_now_def by (simp add: wp_rules)
  have init: "undecided (max_bytes p) initial_state"
    by (simp add: undecided_def initial_state_def)
  have loop: "runs (monitor_loop fuel pidfd ws p d initial_state) K (\<lambda>r t.
      (loop_result pidfd (max_bytes p) r t \<and> polls_timely d None t)
      \<and> (so \<noteq> se \<longrightarrow> loop_keeps so se initial_state r t)) h'" for d h'
    by (rule runs_conj [OF monitor_loop_runs [OF init]])
      (use monitor_loop_keeps [of ws] in \<open>simp add: so se\<close>)
  have quit: "body_result pidfd so se p ?start r t" if "polls_timely (?start + timeout p) None t"
    and "\<And>out. r \<noteq> Inr (Some out)" for r t
    using that by (simp add: body_result_def)
  have early: "polls_timely (?start + timeout p) None t" if "no_polls t" for t
    using that by (rule no_polls_timely)
  let ?collect = "\<lambda>r. case r of None \<Rightarrow> io_ret None
      | Some st \<Rightarrow>
          io_bind (drain_remaining so (ms_stdout st) (max_bytes p))
           (\<lambda>out. io_bind (drain_remaining se (ms_stderr st) (max_bytes p))
           (\<lambda>err. io_bind clock_now (\<lambda>now.
              io_ret (Some \<lparr>out_stdout = out, out_stderr = err, out_status = ms_status st,
                            out_duration = now - ?start, out_exit_code = ms_exit_code st,
                            out_signal = ms_signal st\<rparr>))))"
  have final: "runs (?collect r) K
      (\<lambda>r u. body_result pidfd so se p ?start r ((t0 @ t) @ u)) h'"
    if "?quiet t0" and "loop_result pidfd (max_bytes p) (Inr r) t" "polls_timely (?start + timeout p) None t"
      "so \<noteq> se \<longrightarrow> loop_keeps so se initial_state (Inr r) t" for r t0 t h'
  proof -
    have timely: "polls_timely (?start + timeout p) None (t0 @ t)"
      using polls_timely_append [OF early that(3)] that(1) by simp
    show ?thesis
    proof (cases r)
      case None
      then show ?thesis using timely by (simp add: runs_ret quit)
    next
      case (Some st)
      have "decided pidfd (max_bytes p) st (t0 @ t)"
        using that(1,2) Some by (simp add: loop_result_def decided_quiet)
      moreover have "so \<noteq> se \<longrightarrow> (ms_status st \<noteq> OutputLimitExceeded \<longrightarrow>
          ms_stdout st = received so (t0 @ t) \<and> ms_stderr st = received se (t0 @ t))"
        using that(1,4) Some by (auto simp: loop_keeps_def appended_def initial_state_def)
      ultimately show ?thesis
        unfolding Some option.case using timely by (intro collect_runs) simp_all
    qed
  qed
  have looped: "runs (io_bind (monitor_loop fuel pidfd ws p (?start + timeout p) initial_state) ?collect) K
      (\<lambda>r u. body_result pidfd so se p ?start r (t0 @ u)) h'" if "?quiet t0" for t0 h'
  proof (rule runs_bind [OF loop])
    show "runs (?collect x) K (\<lambda>r u. body_result pidfd so se p ?start r (t0 @ t @ u)) (h' @ t)"
      if "(loop_result pidfd (max_bytes p) (Inr x) t \<and> polls_timely (?start + timeout p) None t)
        \<and> (so \<noteq> se \<longrightarrow> loop_keeps so se initial_state (Inr x) t)" for x t
      using final [OF \<open>?quiet t0\<close>, of x t "h' @ t"] that by simp
    show "body_result pidfd so se p ?start (Inl e) (t0 @ t)"
      if "(loop_result pidfd (max_bytes p) (Inl e) t \<and> polls_timely (?start + timeout p) None t)
        \<and> (so \<noteq> se \<longrightarrow> loop_keeps so se initial_state (Inl e) t)" for e t
      using that \<open>?quiet t0\<close> polls_timely_append [OF early] by (simp add: quit)
  qed
  have prepared: "runs (io_then (set_nonblocking fd) m) K (\<lambda>r u. body_result pidfd so se p ?start r (t0 @ u)) h'"
    if start: "?quiet t0" and rest: "\<And>t0 h'. ?quiet t0 \<Longrightarrow> runs m K (\<lambda>r u. body_result pidfd so se p ?start r (t0 @ u)) h'"
    for fd m t0 h'
  proof (rule runs_then [OF set_nonblocking_runs])
    show "runs m K (\<lambda>r u. body_result pidfd so se p ?start r (t0 @ t @ u)) (h' @ t)"
      if "waits pidfd t = [] \<and> kills pidfd t = [] \<and> no_polls t \<and> (\<forall>fd'. received fd' t = [])" for t
      using that start rest [of "t0 @ t" "h' @ t"] by simp
    show "body_result pidfd so se p ?start (Inl e) (t0 @ t)"
      if "waits pidfd t = [] \<and> kills pidfd t = [] \<and> no_polls t \<and> (\<forall>fd'. received fd' t = [])" for e t
      using that start by (simp add: quit early)
  qed
  show ?thesis
    unfolding monitor_body_def so [symmetric] se [symmetric] max_bytes_def [symmetric]
    by (rule runs_bind [OF clock]) (auto intro!: prepared looped)
qed

lemma owning_fd_runs:
  assumes "runs m K P h"
  shows "runs (owning_fd fd m) K (\<lambda>r t. \<exists>u a. t = u @ [(Fd (Close fd), a)] \<and> P r u) h"
proof -
  from assms obtain r t where "m K h = (r, h @ t)" "P r t" by (auto simp: runs_def)
  then show ?thesis
    by (auto simp: runs_def owning_fd_def close_fd_def invoke_def io_bind_def io_then_def io_try_def
        io_call_def io_ret_def io_lift_def)
qed

lemma monitor_runs:
  "runs (monitor fuel pidfd ws p) K
     (\<lambda>r t. \<exists>u a. t = u @ [(Fd (Close pidfd), a)]
        \<and> body_result pidfd (read_end (p_stdout (ws_pipes ws))) (read_end (p_stderr (ws_pipes ws))) p
             (nat (ans_ret (K h (Proc Now)))) r u) h"
  unfolding monitor_def by (rule owning_fd_runs [OF monitor_body_runs [OF refl refl]])

lemma timely_closed: "polls_timely d None u \<Longrightarrow> polls_timely d None (u @ [(Fd (Close fd), a)])"
  by (rule polls_timely_append) simp_all

lemma monitor_loop_enough:
  assumes "fst (monitor_loop n pidfd ws p d st K h) \<noteq> Inr None"
  shows "monitor_loop (n + k) pidfd ws p d st K h = monitor_loop n pidfd ws p d st K h"
  using assms
proof (induction n arbitrary: st h)
  case 0
  then show ?case by (simp add: io_ret_def)
next
  case (Suc n)
  then show ?case
    by (auto simp: io_bind_def split: prod.splits sum.splits round.splits)
qed

lemma monitor_loop_fuel:
  assumes "clock_passes K d N" and "N \<le> poll_count h + n"
  shows "fst (monitor_loop (Suc n + k) pidfd ws p d initial_state K h) \<noteq> Inr None"
    and "monitor_loop (Suc n + k) pidfd ws p d initial_state K h
           = monitor_loop (Suc n) pidfd ws p d initial_state K h"
proof -
  have *: "fst (monitor_loop (Suc n) pidfd ws p d initial_state K h) \<noteq> Inr None"
    by (rule monitor_loop_ends [OF _ assms]) (simp add: undecided_def initial_state_def)
  show "monitor_loop (Suc n + k) pidfd ws p d initial_state K h
           = monitor_loop (Suc n) pidfd ws p d initial_state K h"
    by (rule monitor_loop_enough [OF *])
  with * show "fst (monitor_loop (Suc n + k) pidfd ws p d initial_state K h) \<noteq> Inr None" by simp
qed

lemmas monitor_eval =
  io_bind_def io_then_def io_try_def io_map_err_def io_call_def io_ret_def io_err_def io_lift_def
  sys_def invoke_def close_fd_def clock_now_def send_kill_def set_nonblocking_def
  read_nonblocking_def wait_for_exit_def decode_exit_def CLD_EXITED_def CLD_KILLED_def
  CLD_DUMPED_def monitor_round_def poll_round_def take_output_def collect_exit_def and_again_def
  has_event_def POLLIN_def POLLHUP_def initial_state_def as_millis_def from_secs_def Let_def ok_answer_def

text \<open>A run to apply the properties to: the child writes \<open>hi\<close> and exits with 0.\<close>

definition small_workspace :: workspace where
  "small_workspace = \<lparr>ws_root = ''/tmp/w'',
     ws_pipes = \<lparr>p_stdin = \<lparr>read_end = 3, write_end = 4\<rparr>, p_stdout = \<lparr>read_end = 5, write_end = 6\<rparr>,
       p_stderr = \<lparr>read_end = 7, write_end = 8\<rparr>, p_sync = \<lparr>child_ready = 10, parent_done = 11\<rparr>\<rparr>\<rparr>"

definition hi_os :: os where
  "hi_os = (\<lambda>h c. case c of
      Proc Now \<Rightarrow> ok_answer\<lparr>ans_ret := int (poll_count h) * 1000000000\<rparr>
    | Fd (Poll fds n) \<Rightarrow>
        ok_answer\<lparr>ans_ret := 1, ans_vals := (if poll_count h = 0 then [1, 0, 0] else [0x10, 0x10, 1])\<rparr>
    | Fd (Read fd n) \<Rightarrow>
        (if fd = 5 \<and> poll_count h = 1 then ok_answer\<lparr>ans_ret := 2, ans_data := [104, 105]\<rparr> else ok_answer)
    | Proc (Waitid fd) \<Rightarrow> ok_answer\<lparr>ans_vals := [1, 0]\<rparr>
    | _ \<Rightarrow> ok_answer)"

definition hi_plan :: plan where
  "hi_plan = new_plan False [''echo'', ''hi'']"

definition hi_run :: "(io_error + sandbox_output option) \<times> hist" where
  "hi_run = monitor (Suc (Suc (Suc 0))) 9 small_workspace hi_plan hi_os []"

lemma hi_result:
  "fst hi_run = Inr (Some \<lparr>out_stdout = [104, 105], out_stderr = [], out_status = Exited,
      out_duration = 2000000000, out_exit_code = Some 0, out_signal = None\<rparr>)"
  by (simp add: hi_run_def monitor_def owning_fd_def monitor_body_def monitor_eval
      drain_remaining.simps [of 5 "[104, 105]"] drain_remaining.simps [of 7 "[]"]
      small_workspace_def hi_plan_def hi_os_def new_plan_def default_plan_def poll_count_def)

text \<open>A child that writes four bytes, then two more.\<close>

definition gap_os :: os where
  "gap_os = (\<lambda>h c. case c of
      Fd (Poll fds n) \<Rightarrow> ok_answer\<lparr>ans_ret := 1, ans_vals := [1, 0, 0]\<rparr>
    | Fd (Read fd n) \<Rightarrow>
        (let k = length (filter (\<lambda>e. fst e = Fd (Read 5 4096)) h)
         in if fd = 5 \<and> k = 0 then ok_answer\<lparr>ans_ret := 4, ans_data := [1, 2, 3, 4]\<rparr>
            else if fd = 5 \<and> k = 1 then ok_answer\<lparr>ans_ret := 2, ans_data := [5, 6]\<rparr>
            else ok_answer)
    | Proc (Waitid fd) \<Rightarrow> ok_answer\<lparr>ans_vals := [2, 9]\<rparr>
    | _ \<Rightarrow> ok_answer)"

lemma hi_run_eq:
  obtains t where "monitor (Suc (Suc (Suc 0))) 9 small_workspace hi_plan hi_os []
    = (Inr (Some \<lparr>out_stdout = [104, 105], out_stderr = [], out_status = Exited,
        out_duration = 2000000000, out_exit_code = Some 0, out_signal = None\<rparr>), [] @ t)"
    and "t = snd hi_run"
  using hi_result that by (simp add: hi_run_def prod_eq_iff)

text \<open>C18: An output the monitor returns is within the limit on both streams; the child has been
  waited for exactly once; if it was not killed, exit code and signal are what \<open>waitid\<close>
  reported and the status is \<open>Signaled\<close> exactly when there is a signal, and if it was, it was
  killed once and the status is \<open>Timeout\<close> or \<open>OutputLimitExceeded\<close>. The process descriptor is
  closed at the end.\<close>
theorem monitor_outcome:
  assumes "monitor fuel pidfd ws p K h = (Inr (Some out), h @ t)"
  shows "outcome pidfd (unat (max_output p)) out t \<and> (\<exists>a. last t = (Fd (Close pidfd), a))"
proof -
  obtain u a where u: "t = u @ [(Fd (Close pidfd), a)]" "outcome pidfd (max_bytes p) out u"
    using runs_eq [OF monitor_runs assms] by (auto simp: body_result_def)
  then have "outcome pidfd (max_bytes p) out t" by (simp add: outcome_quiet)
  with u(1) show ?thesis by (simp add: max_bytes_def)
qed

theorem monitor_outcome_witness:
  "\<exists>out. fst hi_run = Inr (Some out) \<and> out_stdout out = [104, 105]
     \<and> outcome 9 (unat (max_output hi_plan)) out (snd hi_run)"
proof -
  obtain t where t: "monitor (Suc (Suc (Suc 0))) 9 small_workspace hi_plan hi_os []
    = (Inr (Some \<lparr>out_stdout = [104, 105], out_stderr = [], out_status = Exited,
        out_duration = 2000000000, out_exit_code = Some 0, out_signal = None\<rparr>), [] @ t)"
    "t = snd hi_run" by (rule hi_run_eq)
  show ?thesis using monitor_outcome [OF t(1)] t(2) hi_result by simp
qed

text \<open>C19: Unless the output limit was exceeded, each returned stream is exactly the concatenation
  of what was read from its pipe over the whole run, cut at the limit.\<close>
theorem monitor_output_complete:
  assumes "monitor fuel pidfd ws p K h = (Inr (Some out), h @ t)"
    and "read_end (p_stdout (ws_pipes ws)) \<noteq> read_end (p_stderr (ws_pipes ws))"
    and "out_status out \<noteq> OutputLimitExceeded"
  shows "out_stdout out = take (unat (max_output p)) (received (read_end (p_stdout (ws_pipes ws))) t)
    \<and> out_stderr out = take (unat (max_output p)) (received (read_end (p_stderr (ws_pipes ws))) t)"
  using runs_eq [OF monitor_runs assms(1)] assms(2,3)
  by (auto simp: body_result_def max_bytes_def complete_output_def)

theorem monitor_output_complete_witness:
  "take (unat (max_output hi_plan)) (received 5 (snd hi_run)) = [104, 105]"
proof -
  obtain t where t: "monitor (Suc (Suc (Suc 0))) 9 small_workspace hi_plan hi_os []
    = (Inr (Some \<lparr>out_stdout = [104, 105], out_stderr = [], out_status = Exited,
        out_duration = 2000000000, out_exit_code = Some 0, out_signal = None\<rparr>), [] @ t)"
    "t = snd hi_run" by (rule hi_run_eq)
  show ?thesis
    using monitor_output_complete [OF t(1)] t(2) by (simp add: small_workspace_def)
qed

text \<open>The monitor honours the deadline: right before every poll it reads the clock, the
  deadline has not passed, and the poll waits at most 100 milliseconds and not beyond it.\<close>
theorem monitor_deadline:
  "runs (monitor fuel pidfd ws p) K
     (\<lambda>_. polls_timely (nat (ans_ret (K h (Proc Now))) + timeout p) None) h"
  by (rule runs_mono [OF monitor_runs]) (auto simp: body_result_def timely_closed)



text \<open>When the limit is exceeded the output has a gap: the chunk that exceeds it is dropped,
  but what is still in the pipe is read afterwards. A child that writes four bytes and then two
  more under a limit of three is reported with the last two bytes as its output.\<close>
theorem monitor_overflow_gap:
  "fst (monitor (Suc 0) 9 small_workspace (hi_plan\<lparr>max_output := 3\<rparr>) gap_os [])
   = Inr (Some \<lparr>out_stdout = [5, 6], out_stderr = [], out_status = OutputLimitExceeded,
       out_duration = 0, out_exit_code = None, out_signal = None\<rparr>)"
  by (simp add: monitor_def owning_fd_def monitor_body_def monitor_eval
      drain_remaining.simps [of 5 "[]"] drain_remaining.simps [of 5 "[5, 6]"]
      drain_remaining.simps [of 7 "[]"] gap_os_def
      small_workspace_def hi_plan_def new_plan_def default_plan_def)

section \<open>Writing the input\<close>

text \<open>The bytes a kernel has accepted on a descriptor.\<close>

definition accepted :: "int \<Rightarrow> hist \<Rightarrow> u8 list" where
  "accepted fd t = concat (map (\<lambda>e. case fst e of
       Fd (Write fd' d) \<Rightarrow> if fd' = fd \<and> 0 \<le> ans_ret (snd e) then take (nat (ans_ret (snd e))) d else []
     | _ \<Rightarrow> []) t)"

lemma accepted_simps [simp]:
  "accepted fd [] = []"
  "accepted fd (t @ u) = accepted fd t @ accepted fd u"
  "accepted fd ((Fd (Write fd d), a) # t) =
     (if 0 \<le> ans_ret a then take (nat (ans_ret a)) d else []) @ accepted fd t"
  by (simp_all add: accepted_def)

text \<open>A blocking pipe: a write of some bytes fails or takes at least one of them.\<close>

definition writes_progress :: "os \<Rightarrow> bool" where
  "writes_progress K \<longleftrightarrow> (\<forall>h fd d. d \<noteq> [] \<longrightarrow> ans_ret (K h (Fd (Write fd d))) < 0
     \<or> 1 \<le> ans_ret (K h (Fd (Write fd d))) \<and> ans_ret (K h (Fd (Write fd d))) \<le> int (length d))"

definition delivered :: "int \<Rightarrow> u8 list \<Rightarrow> io_error + unit option \<Rightarrow> hist \<Rightarrow> bool" where
  "delivered fd data r t \<longleftrightarrow>
     (case r of Inr (Some _) \<Rightarrow> accepted fd t = data | Inr None \<Rightarrow> False
      | Inl e \<Rightarrow> \<exists>rest. rest \<noteq> [] \<and> accepted fd t @ rest = data)"

lemma delivered_simps [simp]:
  "delivered fd data (Inr (Some u)) t \<longleftrightarrow> accepted fd t = data"
  "\<not> delivered fd data (Inr None) t"
  "delivered fd data (Inl e) t \<longleftrightarrow> (\<exists>rest. rest \<noteq> [] \<and> accepted fd t @ rest = data)"
  by (simp_all add: delivered_def)

lemma delivered_step:
  assumes "delivered fd (drop (nat (ans_ret a)) data) r u" and "\<not> ans_ret a < 0"
  shows "delivered fd data r ((Fd (Write fd data), a) # u)"
proof (cases r)
  case (Inl e)
  then obtain rest where "rest \<noteq> []" "accepted fd u @ rest = drop (nat (ans_ret a)) data"
    using assms(1) by auto
  with Inl assms(2) show ?thesis by auto
next
  case (Inr x)
  with assms show ?thesis by (cases x) simp_all
qed

lemma write_all_runs:
  assumes "writes_progress K" and "length data \<le> n"
  shows "runs (write_all n fd data) K (delivered fd data) h"
  using assms(2)
proof (induction n arbitrary: data h)
  case 0
  then show ?case by (simp add: runs_ret)
next
  case (Suc n data h)
  show ?case
  proof (cases "data = []")
    case True
    then show ?thesis by (simp add: runs_ret)
  next
    case False
    let ?a = "K h (Fd (Write fd data))"
    have step: "ans_ret ?a < 0 \<or> 1 \<le> ans_ret ?a"
      using assms(1) False by (auto simp: writes_progress_def)
    show ?thesis
    proof (cases "ans_ret ?a < 0")
      case True
      then show ?thesis using False
        by (auto simp: runs_def io_bind_def io_map_err_def sys_def io_call_def io_err_def)
    next
      case ge: False
      have "length (drop (nat (ans_ret ?a)) data) \<le> n"
        using step ge Suc.prems False by auto
      from Suc.IH [OF this, of "h @ [(Fd (Write fd data), ?a)]"] False ge show ?thesis
        by (auto simp: runs_def io_bind_def io_map_err_def sys_def io_call_def io_ret_def
            intro: delivered_step)
    qed
  qed
qed


definition slow_os :: os where
  "slow_os = (\<lambda>h c. case c of
      Fd (Write fd d) \<Rightarrow> ok_answer\<lparr>ans_ret := min 2 (int (length d))\<rparr>
    | _ \<Rightarrow> ok_answer)"


end
