(* ===== verification/Parent_Guarantees.thy ===== *)
theory Parent_Guarantees
  imports Sandbox_Parent Child_Guarantees Monitor_Guarantees
begin

text \<open>
  What the parent guarantees: nothing is forked for a command that fails validation or the system
  check, the only process that executes anything is the forked child, confined, and a run that
  returns an output has released everything it took.
\<close>

section \<open>Before the fork\<close>

text \<open>Calls that only look at the system, and calls that do not concern a process.\<close>

definition probing :: "call \<Rightarrow> bool" where
  "probing c \<longleftrightarrow> (\<exists>f. c = Fs f) \<or> (\<exists>x. c = Attr x) \<or> c = Ll LandlockVersion"

definition preparing :: "call \<Rightarrow> bool" where
  "preparing c \<longleftrightarrow> (\<forall>x. c \<noteq> Proc x)"

lemma call_class_simps [simp]:
  "probing (Fs c2)" "probing (Attr c4)" "probing (Ll LandlockVersion)"
  "preparing (Fd c1)" "preparing (Fs c2)" "preparing (Ll c3)" "preparing (Attr c4)"
  by (simp_all add: probing_def preparing_def)

lemma check_calls [only_rules]: "only probing (check c)"
  unfolding check_def check_impl_def get_kernel_version_def landlock_abi_version_def
    seccomp_available_def Let_def
  by (auto simp: only_rules intro!: only_rules split: option.split)

lemma path_calls [only_rules]:
  "only probing (path_exists f)" "only probing (is_symlink f)" "only probing (read_link f)"
  by (auto simp: path_exists_def is_symlink_def read_link_def intro!: only_rules)

lemma filter_existing_calls [only_rules]: "only probing (filter_existing ps)"
  by (induction ps) (auto intro!: only_rules)

lemma detect_paths_calls [only_rules]: "only probing detect_sys_paths"
  unfolding detect_sys_paths_def detect_system_type_def detect_store_def nixos_paths_def guix_paths_def
    fhs_paths_def Let_def
  by (auto intro!: only_rules split: system_type.split)

lemma resolve_calls [only_rules]: "only probing (resolve_binary c b)"
  unfolding resolve_binary_def SYSTEM_PATHS_def detect_mounts_def add_if_missing_def Let_def
  by (auto intro!: only_rules split: option.split)

lemma find_command_probes: "only probing (find_command host p)"
  unfolding find_command_def
  by (auto intro!: only_rules split: option.split sum.split resolve_error.split)

lemma find_command_calls [only_rules]:
  "only preparing (find_command host p)" "only (\<lambda>c. \<forall>a. fd_results (c, a) = {}) (find_command host p)"
  by (auto intro!: only_mono [OF find_command_probes] simp: probing_def preparing_def)

lemma workspace_calls [only_rules]:
  "only preparing (workspace_with_prefix pre)" "only preparing (drop_workspace ws)"
  "only preparing (setup_sandbox_dirs ws)" "only preparing (write_user_files ws p)"
  "only preparing (notify_sockets p)" "only preparing (drop_sockets socks)"
  "only preparing (close_opt fd)"
  unfolding workspace_with_prefix_def drop_workspace_def setup_sandbox_dirs_def write_user_files_def
    write_file_def create_dir_def notify_sockets_def drop_sockets_def close_opt_def
    new_pipes_def new_pipe_def new_sync_pair_def drop_pipe_def drop_pipes_def drop_sync_def close_fd_def
    remove_dir_all_def fs_op_def create_socketpair_def Let_def
  by (auto intro!: only_rules split: option.split prod.split)

lemma preparing_no_exec: "preparing c \<Longrightarrow> \<not> is_exec c"
  by (auto simp: preparing_def is_exec_def split: call.splits)

section \<open>The parent executes nothing\<close>

abbreviation harmless :: "('e, 'a) io \<Rightarrow> bool" where
  "harmless \<equiv> only (\<lambda>c. \<not> is_exec c)"

lemma preparing_harmless: "only preparing m \<Longrightarrow> harmless m"
  by (erule only_mono) (rule preparing_no_exec)

lemma write_all_harmless [only_rules]: "harmless (write_all n fd data)"
  by (induction n arbitrary: data) (auto intro!: only_rules)

lemma drain_harmless [only_rules]: "harmless (drain_remaining fd out mx)"
  by (induction fd out mx rule: drain_remaining.induct)
    (subst drain_remaining.simps, auto simp: read_nonblocking_def intro!: only_rules split: sum.split)

lemma take_output_harmless [only_rules]: "harmless (take_output pidfd fd mx ready get upd st)"
  unfolding take_output_def read_nonblocking_def send_kill_def wait_for_exit_def
  by (auto intro!: only_rules split: sum.split)

lemma monitor_round_harmless [only_rules]: "harmless (monitor_round pidfd ws p d st)"
  unfolding monitor_round_def clock_now_def send_kill_def wait_for_exit_def poll_round_def
    and_again_def collect_exit_def Let_def
  by (auto intro!: only_rules split: round.split)

lemma monitor_loop_harmless [only_rules]: "harmless (monitor_loop n pidfd ws p d st)"
  by (induction n arbitrary: st) (auto intro!: only_rules split: round.split)

lemma set_nonblocking_harmless [only_rules]: "harmless (set_nonblocking fd)"
  unfolding set_nonblocking_def by (auto intro!: only_rules)

lemma monitor_harmless [only_rules]: "harmless (monitor n pidfd ws p)"
  unfolding monitor_def owning_fd_def monitor_body_def clock_now_def close_fd_def
  by (auto intro!: only_rules split: option.split)

lemma handshake_harmless [only_rules]:
  "harmless (close_parent_pipe_ends ws)" "harmless (sync_with_child ws pid)"
  "harmless (receive_notify socks pid)" "harmless (write_plan_stdin fuel ws p)"
  "harmless (pidfd_open pid)" "harmless (drop_sync sp)"
  unfolding close_parent_pipe_ends_def sync_with_child_def receive_notify_def write_plan_stdin_def
    pidfd_open_def poll_or_kill_def kill_child_def owning_fd_def recv_fd_def write_stdin_def
    drop_sync_def close_fd_def Let_def
  by (auto intro!: only_rules split: option.split)

lemma cleanup_harmless [only_rules]:
  "harmless (drop_workspace ws)" "harmless (drop_sockets socks)" "harmless (close_opt fd)"
  "harmless (close_fd n)" "harmless (remove_dir_all d)"
  unfolding close_fd_def remove_dir_all_def
  by (auto intro!: only_rules preparing_harmless)

lemma blocking_parent_harmless [only_rules]: "harmless (blocking_parent n pid pidfd nfd ws p)"
  unfolding blocking_parent_def io_bind_some_def
  by (auto intro!: only_rules split: option.split)

lemma finish_spawn_harmless [only_rules]: "harmless (finish_spawn n pid pidfd nfd ws p)"
  unfolding finish_spawn_def io_bind_some_def Let_def
  by (auto intro!: only_rules split: option.split)

lemma only_runs:
  assumes "only C m"
  shows "runs m K (\<lambda>_ t. \<forall>e \<in> set t. C (fst e)) h"
proof -
  obtain t where "snd (m K h) = h @ t" "\<forall>e \<in> set t. C (fst e)"
    using assms unfolding only_def by blast
  then show ?thesis by (cases "m K h") (auto simp: runs_def)
qed

lemma harmless_runs: "harmless m \<Longrightarrow> runs m K (\<lambda>_. no_exec) h"
  by (rule runs_mono [OF only_runs]) (auto simp: no_exec_def)

section \<open>The child of the fork\<close>

text \<open>\<open>guarded_child host p t\<close>: at most one program is executed in \<open>t\<close>, the command of the plan,
  after the confinement.\<close>

definition guarded_child :: "host \<Rightarrow> plan \<Rightarrow> hist \<Rightarrow> bool" where
  "guarded_child host p t \<longleftrightarrow> no_exec t \<or>
     (\<exists>cl pre c a post ws info.
        t = cl @ pre @ (c, a) # post \<and> no_exec cl \<and> no_exec pre \<and> no_exec post
        \<and> confined (h_target host) (h_sysno host) (h_hash_order host) ws p info pre
        \<and> execs_command p info c)"

lemma guarded_child_none: "no_exec t \<Longrightarrow> guarded_child host p t"
  by (simp add: guarded_child_def)

lemma guarded_child_before:
  assumes "no_exec u" and "guarded_child host p t"
  shows "guarded_child host p (u @ t)"
proof -
  from assms(2) consider "no_exec t" | cl pre c a post ws info where
    "t = cl @ pre @ (c, a) # post" "no_exec cl" "no_exec pre" "no_exec post"
    "confined (h_target host) (h_sysno host) (h_hash_order host) ws p info pre" "execs_command p info c"
    unfolding guarded_child_def by blast
  then show ?thesis
  proof cases
    case 1
    with assms(1) show ?thesis by (simp add: guarded_child_def)
  next
    case 2
    with assms(1) have "u @ t = (u @ cl) @ pre @ (c, a) # post" "no_exec (u @ cl)" by simp_all
    with 2 show ?thesis unfolding guarded_child_def by blast
  qed
qed

lemma guarded_child_after:
  assumes "guarded_child host p t" and "no_exec u"
  shows "guarded_child host p (t @ u)"
proof -
  from assms(1) consider "no_exec t" | cl pre c a post ws info where
    "t = cl @ pre @ (c, a) # post" "no_exec cl" "no_exec pre" "no_exec post"
    "confined (h_target host) (h_sysno host) (h_hash_order host) ws p info pre" "execs_command p info c"
    unfolding guarded_child_def by blast
  then show ?thesis
  proof cases
    case 1
    with assms(2) show ?thesis by (simp add: guarded_child_def)
  next
    case 2
    with assms(2) have "t @ u = cl @ pre @ (c, a) # (post @ u)" "no_exec (post @ u)" by simp_all
    with 2 show ?thesis unfolding guarded_child_def by blast
  qed
qed

lemma guarded_child_ends:
  assumes "child_ends (h_target host) (h_sysno host) (h_hash_order host) ws p info r t"
  shows "guarded_child host p t"
  using assms unfolding child_ends_def guarded_child_def
  by (metis append_Nil no_exec_simps(1))

lemma child_ends_error: "child_ends tgt SYS ho ws p info r t \<Longrightarrow> \<exists>e. r = Inl e"
  by (simp add: child_ends_def)

lemma close_opt_runs: "runs (close_opt fd) K (\<lambda>r t. r = Inr () \<and> no_exec t) h"
  by (cases fd) (simp_all add: runs_wp wp_rules close_opt_def close_fd_def)

definition child_done :: "executor_error + 'a \<Rightarrow> bool" where
  "child_done r \<longleftrightarrow> r = Inl (ProcessExit 126) \<or> (\<exists>x. r = Inl (Panicked x))"

lemma child_branch_runs:
  "runs (child_branch host ws p info socks) K (\<lambda>r t. child_done r \<and> guarded_child host p t) h"
proof -
  let ?exits = "\<lambda>r. case r of
          Inl (Panicked e) \<Rightarrow>
            io_then (close_opt (map_option snd socks))
              (io_then (drop_workspace ws) (io_err (Panicked e)))
        | Inl e \<Rightarrow> io_then (invoke (Proc (Exit 126))) (io_err (ProcessExit 126))
        | Inr _ \<Rightarrow> io_then (invoke (Proc (Exit 127))) (io_err (ProcessExit 127))"
  have exits: "runs (?exits (Inl e)) K (\<lambda>r t. child_done r \<and> no_exec t) h'" for e h'
    by (cases e; simp add: runs_wp wp_rules child_done_def close_opt_def drop_workspace_def
        drop_pipes_def drop_pipe_def drop_sync_def close_fd_def remove_dir_all_def split: option.split)
  have rest: "runs (io_bind (io_try (child_process (h_target host) (h_sysno host) (h_hash_order host) ws p
      info (map_option snd socks))) ?exits) K (\<lambda>r t. child_done r \<and> guarded_child host p t) h'" for h'
    by (rule runs_bind [OF runs_tried [OF child_process_runs]])
      (auto dest: child_ends_error intro!: runs_mono [OF exits]
        intro: guarded_child_after guarded_child_ends)
  show ?thesis
    unfolding child_branch_def
    by (rule runs_then [OF close_opt_runs])
      (auto intro!: runs_mono [OF rest] intro: guarded_child_before)
qed

text \<open>\<open>guarded host p t\<close>: if a program is executed in \<open>t\<close>, it is the command of the plan, once,
  in the child of a fork, after the confinement of that child.\<close>

definition guarded :: "host \<Rightarrow> plan \<Rightarrow> hist \<Rightarrow> bool" where
  "guarded host p t \<longleftrightarrow> no_exec t \<or>
     (\<exists>before f u. t = before @ (Proc Fork, f) # u \<and> no_exec before \<and> ans_ret f = 0
        \<and> guarded_child host p u)"

text \<open>Preparations and one fork.\<close>

definition forking :: "hist \<Rightarrow> bool" where
  "forking t \<longleftrightarrow> (\<forall>e \<in> set t. preparing (fst e) \<or> fst e = Proc Fork)"

lemma forking_simps [simp]:
  "forking []" "forking (e # t) \<longleftrightarrow> (preparing (fst e) \<or> fst e = Proc Fork) \<and> forking t"
  "forking (t @ u) \<longleftrightarrow> forking t \<and> forking u"
  by (auto simp: forking_def)

lemma forking_no_exec: "forking t \<Longrightarrow> no_exec t"
  by (induction t) (auto dest: preparing_no_exec)

lemma preparing_runs: "only preparing m \<Longrightarrow> runs m K (\<lambda>_. forking) h"
  by (rule runs_mono, erule only_runs) (auto simp: forking_def)

definition launched :: "host \<Rightarrow> plan \<Rightarrow> executor_error + int \<times> workspace \<times> sockets \<Rightarrow> hist \<Rightarrow> bool" where
  "launched host p r t \<longleftrightarrow> (if isl r then guarded host p t else forking t)"

lemma launched_bind:
  assumes "forking t0" and "only preparing m"
    and "\<And>x t1 h. forking t1 \<Longrightarrow> runs (f x) K (\<lambda>r t. launched host p r (t1 @ t)) h"
  shows "runs (io_bind m f) K (\<lambda>r t. launched host p r (t0 @ t)) h"
proof (rule runs_bind [OF preparing_runs [OF assms(2)]])
  show "runs (f x) K (\<lambda>r u. launched host p r (t0 @ t @ u)) (h @ t)" if "forking t" for x t
    using assms(3) [of "t0 @ t" x "h @ t"] assms(1) that by simp
  show "launched host p (Inl e) (t0 @ t)" if "forking t" for e t
    using assms(1) that forking_no_exec [of "t0 @ t"] by (simp add: launched_def guarded_def)
qed

lemma harmless_err [only_rules]: "harmless (io_err e)"
  by (rule only_rules)

lemma launch_runs: "runs (launch host p) K (launched host p) h"
proof -
  have fork: "runs (io_bind (io_call (Proc Fork)) (\<lambda>r.
       if ans_ret r < 0
       then io_then (drop_sockets socks) (io_then (drop_workspace ws) (io_err (ForkErr (ans_errno r))))
       else if ans_ret r = 0 then child_branch host ws p info socks
       else io_ret (ans_ret r, ws, socks))) K (\<lambda>r t. launched host p r (t0 @ t)) h'"
    if t0: "forking t0" for ws info socks t0 h'
  proof (rule runs_bind [where P = "\<lambda>r t. \<exists>f. t = [(Proc Fork, f)] \<and> r = Inr f"])
    show "runs (io_call (Proc Fork)) K (\<lambda>r t. \<exists>f. t = [(Proc Fork, f)] \<and> r = Inr f) h'"
      by (rule runs_call) simp
    fix f and t :: hist assume "\<exists>f'. t = [(Proc Fork, f')] \<and> Inr f = Inr f'"
    then have t: "t = [(Proc Fork, f)]" by auto
    have failed: "runs (io_then (drop_sockets socks) (io_then (drop_workspace ws) (io_err e))) K
        (\<lambda>r u. launched host p r (t0 @ t @ u)) h''" for h'' e
      by (rule runs_then [OF preparing_runs], rule only_rules, rule runs_then [OF preparing_runs], rule only_rules)
        (use t0 in \<open>auto intro!: runs_err simp: launched_def guarded_def t dest: forking_no_exec\<close>)
    have child: "runs (child_branch host ws p info socks) K (\<lambda>r u. launched host p r (t0 @ t @ u)) h''"
      if "ans_ret f = 0" for h''
      by (rule runs_mono [OF child_branch_runs])
        (use forking_no_exec [OF t0] that in \<open>auto simp: launched_def guarded_def child_done_def t\<close>)
    show "runs (if ans_ret f < 0
       then io_then (drop_sockets socks) (io_then (drop_workspace ws) (io_err (ForkErr (ans_errno f))))
       else if ans_ret f = 0 then child_branch host ws p info socks
       else io_ret (ans_ret f, ws, socks)) K (\<lambda>r u. launched host p r (t0 @ t @ u)) (h' @ t)"
      using failed child t0 by (auto intro!: runs_ret simp: launched_def t)
  qed auto
  have "runs (launch host p) K (\<lambda>r t. launched host p r ([] @ t)) h"
    unfolding launch_def
    by (intro launched_bind fork forking_simps) (auto intro!: only_rules)
  then show ?thesis by simp
qed

lemma launch_then_harmless:
  assumes "\<And>pid ws socks. harmless (f (pid, ws, socks))"
  shows "runs (io_bind (launch host p) f) K (\<lambda>_. guarded host p) h"
  by (rule runs_bind [OF launch_runs])
    (auto simp: launched_def guarded_def dest: forking_no_exec intro!: runs_mono [OF harmless_runs [OF assms]])

lemma run_guarded: "runs (run fuel host p) K (\<lambda>_. guarded host p) h"
  unfolding run_def by (auto intro!: launch_then_harmless only_rules)

lemma spawn_guarded: "runs (spawn_sandbox fuel host p) K (\<lambda>_. guarded host p) h"
  unfolding spawn_sandbox_def by (auto intro!: launch_then_harmless only_rules)

text \<open>Nothing is executed outside the sandbox. On every kernel and for every plan, the only
  program that \<open>run\<close> or \<open>spawn_sandbox\<close> ever executes is the command of the plan, at most
  once, in the child of a fork, after that child has put the whole confinement in place.\<close>
theorem run_execs_guarded:
  "runs (run fuel host p) K (\<lambda>_. guarded host p) h
   \<and> runs (spawn_sandbox fuel host p) K (\<lambda>_. guarded host p) h"
  using run_guarded spawn_guarded by blast

section \<open>Descriptors\<close>

definition closes :: "hist \<Rightarrow> int set" where
  "closes t = {fd. Fd (Close fd) \<in> fst ` set t}"

lemma closes_simps [simp]:
  "closes [] = {}" "closes (t @ u) = closes t \<union> closes u"
  "closes ((c, a) # t) = (case c of Fd (Close fd) \<Rightarrow> insert fd (closes t) | _ \<Rightarrow> closes t)"
  by (auto simp: closes_def image_iff split: call.split fd_call.split)

text \<open>\<open>gives_back F m\<close>: \<open>m\<close> leaks nothing of its own and, when it succeeds, has closed \<open>F\<close>.\<close>

definition gives_back :: "int set \<Rightarrow> ('e, 'a) io \<Rightarrow> bool" where
  "gives_back F m \<longleftrightarrow> (\<forall>K h. runs m K (\<lambda>r t. leak_free t \<and> (isl r \<or> F \<subseteq> closes t)) h)"

lemma gives_back_then:
  assumes "gives_back F m" and "gives_back G n"
  shows "gives_back (F \<union> G) (io_then m n)"
  unfolding gives_back_def
proof (intro allI)
  fix K h
  show "runs (io_then m n) K (\<lambda>r t. leak_free t \<and> (isl r \<or> F \<union> G \<subseteq> closes t)) h"
    by (rule runs_then [OF assms(1) [unfolded gives_back_def, rule_format]])
      (auto intro!: runs_mono [OF assms(2) [unfolded gives_back_def, rule_format]] leak_free_append)
qed

lemma gives_back_none:
  assumes "only (\<lambda>c. \<forall>a. fd_results (c, a) = {}) m"
  shows "gives_back {} m"
  using leak_free_only [OF assms] by (simp add: gives_back_def)

lemma gives_back_close: "gives_back {fd} (close_fd fd)"
  by (simp add: gives_back_def runs_wp close_fd_def wp_rules)

lemma gives_back_close_opt: "gives_back (set_option fd) (close_opt fd)"
  by (cases fd) (simp_all add: gives_back_def runs_wp close_opt_def close_fd_def wp_rules)

abbreviation opens_none :: "('e, 'a) io \<Rightarrow> bool" where
  "opens_none \<equiv> only (\<lambda>c. \<forall>a. fd_results (c, a) = {})"

lemma opens_none_rules [only_rules]:
  "opens_none (write_all n fd data)" "opens_none (set_nonblocking fd)"
  by (induction n arbitrary: data) (auto simp: set_nonblocking_def intro!: only_rules)

lemma drain_opens_none [only_rules]: "opens_none (drain_remaining fd out mx)"
  by (induction fd out mx rule: drain_remaining.induct)
    (subst drain_remaining.simps, auto simp: read_nonblocking_def intro!: only_rules split: sum.split)

lemma take_output_opens_none [only_rules]: "opens_none (take_output pidfd fd mx ready get upd st)"
  unfolding take_output_def read_nonblocking_def send_kill_def wait_for_exit_def
  by (auto intro!: only_rules split: sum.split)

lemma monitor_round_opens_none [only_rules]: "opens_none (monitor_round pidfd ws p d st)"
  unfolding monitor_round_def clock_now_def send_kill_def wait_for_exit_def poll_round_def
    and_again_def collect_exit_def Let_def
  by (auto intro!: only_rules split: round.split)

lemma monitor_loop_opens_none [only_rules]: "opens_none (monitor_loop n pidfd ws p d st)"
  by (induction n arbitrary: st) (auto intro!: only_rules split: round.split)

lemma monitor_body_opens_none [only_rules]: "opens_none (monitor_body n pidfd ws p)"
  unfolding monitor_body_def clock_now_def
  by (auto intro!: only_rules split: option.split)

lemma handshake_opens_none [only_rules]:
  "opens_none (sync_with_child ws pid)" "opens_none (write_plan_stdin fuel ws p)"
  "opens_none (poll_or_kill fd pid msg)" "opens_none (recv_fd fd)"
  unfolding sync_with_child_def write_plan_stdin_def poll_or_kill_def kill_child_def recv_fd_def
    write_stdin_def Let_def
  by (auto intro!: only_rules split: option.split)

lemma gives_back_owning:
  assumes "opens_none m"
  shows "runs (owning_fd fd m) K (\<lambda>r t. leak_free t \<and> fd \<in> closes t) h"
  by (rule runs_mono [OF owning_fd_runs [OF leak_free_only [OF assms]]])
    (auto intro!: leak_free_append)

lemma monitor_gives_back: "runs (monitor n pidfd ws p) K (\<lambda>r t. leak_free t \<and> pidfd \<in> closes t) h"
  unfolding monitor_def by (rule gives_back_owning) (rule only_rules)

definition ws_fds :: "workspace \<Rightarrow> int set" where
  "ws_fds ws = set (pipes_fds (ws_pipes ws))"

definition child_side :: "workspace \<Rightarrow> int set" where
  "child_side ws = {read_end (p_stdin (ws_pipes ws)), write_end (p_stdout (ws_pipes ws)),
     write_end (p_stderr (ws_pipes ws))}"

definition parent_side :: "workspace \<Rightarrow> int set" where
  "parent_side ws = {write_end (p_stdin (ws_pipes ws)), read_end (p_stdout (ws_pipes ws)),
     read_end (p_stderr (ws_pipes ws)), child_ready (p_sync (ws_pipes ws)),
     parent_done (p_sync (ws_pipes ws))}"

definition socket_fds :: "sockets \<Rightarrow> int set" where
  "socket_fds s = (case s of None \<Rightarrow> {} | Some (a, b) \<Rightarrow> {a, b})"

lemma ws_fds_sides: "ws_fds ws = child_side ws \<union> parent_side ws"
  by (auto simp: ws_fds_def child_side_def parent_side_def pipes_fds_def)

text \<open>What the clean-up functions close.\<close>

lemma cleanup_runs:
  "runs (drop_workspace ws) K (\<lambda>r t. r = Inr () \<and> leak_free t \<and> ws_fds ws \<subseteq> closes t) h"
  "runs (drop_sockets socks) K (\<lambda>r t. r = Inr () \<and> leak_free t \<and> socket_fds socks \<subseteq> closes t) h"
  "runs (close_opt fd) K (\<lambda>r t. r = Inr () \<and> leak_free t \<and> set_option fd \<subseteq> closes t) h"
  "runs (close_fd n) K (\<lambda>r t. r = Inr () \<and> leak_free t \<and> n \<in> closes t) h"
  "runs (close_parent_pipe_ends ws) K (\<lambda>r t. r = Inr () \<and> leak_free t \<and> child_side ws \<subseteq> closes t) h"
  by (simp_all add: runs_wp wp_rules drop_workspace_def drop_pipes_def drop_pipe_def drop_sync_def
      close_fd_def remove_dir_all_def ws_fds_def pipes_fds_def drop_sockets_def socket_fds_def
      close_opt_def close_parent_pipe_ends_def child_side_def split: option.split prod.split)

text \<open>The outcome of the blocking parent: it has closed the process descriptor, the listener and
  the child's pipe ends in any case, and its own ends too when it reached the monitor.\<close>

definition parent_released :: "int \<Rightarrow> int option \<Rightarrow> workspace \<Rightarrow> 'e + 'a option \<Rightarrow> hist \<Rightarrow> bool" where
  "parent_released pidfd nfd ws r t \<longleftrightarrow> r = Inr None \<or>
     leak_free t \<and> insert pidfd (set_option nfd) \<union> child_side ws \<subseteq> closes t
     \<and> (isl r \<or> parent_side ws \<subseteq> closes t)"

lemma blocking_parent_runs:
  "runs (blocking_parent n pid pidfd nfd ws p) K (parent_released pidfd nfd ws) h"
proof -
  let ?rest = "\<lambda>result. io_then (close_fd (read_end (p_stdout (ws_pipes ws))))
            (io_then (close_fd (read_end (p_stderr (ws_pipes ws))))
            (io_then (drop_sync (p_sync (ws_pipes ws)))
            (io_then (remove_dir_all (ws_root ws))
            (io_then (close_opt nfd) (io_lift result)))))"
  have rest: "runs (?rest result) K (\<lambda>r t. r = result \<and> leak_free t
      \<and> parent_side ws \<subseteq> insert (write_end (p_stdin (ws_pipes ws))) (closes t)
      \<and> set_option nfd \<subseteq> closes t) h'" for result h'
    by (cases result; simp add: runs_wp wp_rules drop_sync_def close_fd_def remove_dir_all_def
        close_opt_def parent_side_def split: option.split)
  have handshake: "runs (io_on_err (io_then (sync_with_child ws pid) (write_plan_stdin n ws p))
         (io_then (close_opt nfd) (close_fd pidfd))) K
      (\<lambda>r t. leak_free t \<and> (isl r \<longrightarrow> insert pidfd (set_option nfd) \<subseteq> closes t)) h'" for h'
  proof (rule runs_on_err [OF leak_free_only])
    show "opens_none (io_then (sync_with_child ws pid) (write_plan_stdin n ws p))"
      by (auto intro!: only_rules)
    show "runs (io_then (close_opt nfd) (close_fd pidfd)) K
        (\<lambda>r u. leak_free (t @ u) \<and> (isl (case r of Inl e' \<Rightarrow> Inl e' | Inr _ \<Rightarrow> Inl e)
           \<longrightarrow> insert pidfd (set_option nfd) \<subseteq> closes (t @ u))) (h' @ t)"
      if "leak_free t" for e :: executor_error and t
      by (rule runs_then [OF cleanup_runs(3)])
        (use that in \<open>auto intro!: runs_mono [OF cleanup_runs(4)] leak_free_append\<close>)
  qed auto
  have watched: "runs (io_try (io_map_err MonitorErr (monitor n pidfd ws p))) K
      (\<lambda>r t. (\<exists>x. r = Inr x) \<and> leak_free t \<and> pidfd \<in> closes t) h'" for h'
    by (rule runs_try, rule runs_map_err, rule runs_mono [OF monitor_gives_back]) simp
  have watch: "runs (io_then (close_fd (write_end (p_stdin (ws_pipes ws))))
         (io_bind (io_try (io_map_err MonitorErr (monitor n pidfd ws p))) ?rest)) K
      (\<lambda>r t. leak_free t \<and> insert pidfd (set_option nfd) \<union> parent_side ws \<subseteq> closes t) h'" for h'
  proof (rule runs_then [OF cleanup_runs(4)])
    fix x and t :: hist
    assume t: "Inr x = Inr () \<and> leak_free t \<and> write_end (p_stdin (ws_pipes ws)) \<in> closes t"
    show "runs (io_bind (io_try (io_map_err MonitorErr (monitor n pidfd ws p))) ?rest) K
      (\<lambda>r u. leak_free (t @ u) \<and> insert pidfd (set_option nfd) \<union> parent_side ws \<subseteq> closes (t @ u)) (h' @ t)"
      by (rule runs_bind [OF watched])
        (use t in \<open>auto intro!: runs_mono [OF rest] leak_free_append split: sum.splits\<close>)
  qed simp
  show ?thesis
    unfolding blocking_parent_def io_bind_some_def
    by (rule runs_then [OF cleanup_runs(5)], rule runs_bind [OF handshake])
      (auto simp: parent_released_def intro!: runs_ret runs_mono [OF watch] leak_free_append
        split: option.split)
qed

text \<open>Creating the workspace and the sockets.\<close>

lemma workspace_runs:
  "runs (workspace_with_prefix pre) K
     (\<lambda>r t. case r of Inl e \<Rightarrow> leak_free t | Inr ws \<Rightarrow> holding (ws_fds ws) t) h"
proof -
  have temp: "runs (fs_op (TempDir pre)) K (\<lambda>_. leak_free) h"
    by (rule leak_free_only) (auto simp: fs_op_def intro!: only_rules)
  have pipes: "runs (io_bind new_pipes (\<lambda>p. io_ret \<lparr>ws_root = d, ws_pipes = p\<rparr>)) K
      (\<lambda>r t. case r of Inl e \<Rightarrow> leak_free t | Inr ws \<Rightarrow> holding (ws_fds ws) t) h'" for d h'
    by (rule runs_bind [OF new_pipes_all [unfolded all_or_nothing_def, rule_format]])
      (auto intro!: runs_ret simp: ws_fds_def)
  have keep: "holding S (t @ u)" if "leak_free t" "holding S u" for S t u
    using that by (auto simp: leak_free_def intro: holding_append_mono)
  show ?thesis
    unfolding workspace_with_prefix_def
  proof (rule runs_bind [OF temp])
    fix x :: answer and t :: hist assume t: "leak_free t"
    show "runs (io_on_err (io_bind new_pipes (\<lambda>p. io_ret \<lparr>ws_root = ans_str x, ws_pipes = p\<rparr>))
        (remove_dir_all (ans_str x))) K
      (\<lambda>r u. case r of Inl e \<Rightarrow> leak_free (t @ u) | Inr ws \<Rightarrow> holding (ws_fds ws) (t @ u)) (h @ t)"
      by (rule runs_on_err [OF pipes])
        (use t in \<open>auto simp: runs_wp wp_rules remove_dir_all_def intro!: keep leak_free_append\<close>)
  qed simp
qed

lemma notify_sockets_runs:
  "runs (notify_sockets p) K
     (\<lambda>r t. case r of Inl e \<Rightarrow> leak_free t | Inr socks \<Rightarrow> holding (socket_fds socks) t) h"
  by (simp add: runs_wp wp_rules notify_sockets_def create_socketpair_def socket_fds_def)

lemma write_user_files_opens_none [only_rules]:
  "opens_none (setup_sandbox_dirs ws)" "opens_none (write_user_files ws p)"
  unfolding setup_sandbox_dirs_def write_user_files_def write_file_def create_dir_def fs_op_def Let_def
  by (auto intro!: only_rules split: option.split)

definition in_child :: "hist \<Rightarrow> bool" where
  "in_child t \<longleftrightarrow> (\<exists>f. (Proc Fork, f) \<in> set t \<and> ans_ret f = 0)"

lemma in_childI: "ans_ret f = 0 \<Longrightarrow> in_child (t @ (Proc Fork, f) # u)"
  by (auto simp: in_child_def)

definition launch_holds :: "executor_error + int \<times> workspace \<times> sockets \<Rightarrow> hist \<Rightarrow> bool" where
  "launch_holds r t \<longleftrightarrow> (case r of
       Inl e \<Rightarrow> in_child t \<or> leak_free t
     | Inr (pid, ws, socks) \<Rightarrow> holding (ws_fds ws \<union> socket_fds socks) t)"

lemma holding_after: "leak_free t \<Longrightarrow> holding S u \<Longrightarrow> holding S (t @ u)"
  by (auto simp: leak_free_def intro: holding_append_mono)

lemma holding_closed: "holding S t \<Longrightarrow> leak_free u \<Longrightarrow> S \<subseteq> closes u \<Longrightarrow> leak_free (t @ u)"
  unfolding leak_free_def closes_def by (erule holding_append) auto

lemma prepare_runs:
  "runs (io_on_err
        (io_map_err WorkspaceErr
          (io_then (setup_sandbox_dirs ws) (io_then (write_user_files ws p) (notify_sockets p))))
        (drop_workspace ws)) K
     (\<lambda>r t. case r of Inl e \<Rightarrow> leak_free t \<and> ws_fds ws \<subseteq> closes t | Inr socks \<Rightarrow> holding (socket_fds socks) t) h"
proof -
  let ?Q = "\<lambda>r t. case r of Inl e \<Rightarrow> leak_free t | Inr socks \<Rightarrow> holding (socket_fds socks) t"
  have files: "runs (io_then (write_user_files ws p) (notify_sockets p)) K ?Q h'" for h'
    by (rule runs_then [OF leak_free_only])
      (auto intro!: only_rules runs_mono [OF notify_sockets_runs] intro: holding_after leak_free_append
        split: sum.splits)
  have dirs: "runs (io_then (setup_sandbox_dirs ws) (io_then (write_user_files ws p) (notify_sockets p))) K ?Q h'" for h'
    by (rule runs_then [OF leak_free_only])
      (auto intro!: only_rules runs_mono [OF files] intro: holding_after leak_free_append split: sum.splits)
  have stage: "runs (io_map_err WorkspaceErr (io_then (setup_sandbox_dirs ws)
      (io_then (write_user_files ws p) (notify_sockets p)))) K ?Q h"
    by (rule runs_map_err, rule runs_mono [OF dirs]) (simp split: sum.splits)
  show ?thesis
    by (rule runs_on_err [OF stage])
      (auto intro!: runs_mono [OF cleanup_runs(1)] leak_free_append)
qed

lemma fork_runs:
  assumes "holding (ws_fds ws \<union> socket_fds socks) t0"
  shows "runs (io_bind (io_call (Proc Fork)) (\<lambda>r.
       if ans_ret r < 0
       then io_then (drop_sockets socks) (io_then (drop_workspace ws) (io_err (ForkErr (ans_errno r))))
       else if ans_ret r = 0 then child_branch host ws p info socks
       else io_ret (ans_ret r, ws, socks))) K (\<lambda>r t. launch_holds r (t0 @ t)) h"
proof (rule runs_bind [where P = "\<lambda>r t. \<exists>f. t = [(Proc Fork, f)] \<and> r = Inr f"])
  show "runs (io_call (Proc Fork)) K (\<lambda>r t. \<exists>f. t = [(Proc Fork, f)] \<and> r = Inr f) h"
    by (rule runs_call) simp
  fix f and t :: hist assume "\<exists>f'. t = [(Proc Fork, f')] \<and> Inr f = Inr f'"
  then have t: "t = [(Proc Fork, f)]" by auto
  have t0: "holding (ws_fds ws \<union> socket_fds socks) (t0 @ [(Proc Fork, f)])"
    by (rule holding_append_mono [OF assms]) auto
  have failed: "runs (io_then (drop_sockets socks) (io_then (drop_workspace ws) (io_err e))) K
      (\<lambda>r u. isl r \<and> leak_free u \<and> ws_fds ws \<union> socket_fds socks \<subseteq> closes u) h''" for e h''
    by (rule runs_then [OF cleanup_runs(2)], rule runs_then [OF cleanup_runs(1)])
      (auto intro!: runs_err leak_free_append)
  have child: "runs (child_branch host ws p info socks) K (\<lambda>r u. isl r) h''" for h''
    by (rule runs_mono [OF child_branch_runs]) (auto simp: child_done_def)
  show "runs (if ans_ret f < 0
       then io_then (drop_sockets socks) (io_then (drop_workspace ws) (io_err (ForkErr (ans_errno f))))
       else if ans_ret f = 0 then child_branch host ws p info socks
       else io_ret (ans_ret f, ws, socks)) K (\<lambda>r u. launch_holds r (t0 @ t @ u)) (h @ t)"
  proof (cases "ans_ret f < 0")
    case True
    then show ?thesis
      by (auto intro!: runs_mono [OF failed] holding_closed [OF t0, simplified]
          simp: launch_holds_def t isl_def)
  next
    case False
    then show ?thesis
      using t0 by (auto intro!: runs_ret runs_mono [OF child] simp: launch_holds_def t isl_def in_childI)
  qed
qed auto

lemma launch_holds_runs: "runs (launch host p) K launch_holds h"
proof -
  have find: "runs (find_command host p) K (\<lambda>_. leak_free) h"
    by (rule leak_free_only) (rule only_rules)
  have create: "runs (io_map_err WorkspaceErr (workspace_with_prefix pre)) K
      (\<lambda>r t. case r of Inl e \<Rightarrow> leak_free t | Inr ws \<Rightarrow> holding (ws_fds ws) t) h'" for pre h'
    by (rule runs_map_err, rule runs_mono [OF workspace_runs]) (simp split: sum.splits)
  show ?thesis
    unfolding launch_def
  proof (rule runs_bind [OF find], rule runs_bind [OF create])
    fix info ws and t u :: hist
    assume t: "leak_free t" and "case Inr ws of Inl e \<Rightarrow> leak_free u | Inr ws \<Rightarrow> holding (ws_fds ws) u"
    then have tu: "holding (ws_fds ws) (t @ u)" by (simp add: holding_after)
    show "runs (io_bind (io_on_err
        (io_map_err WorkspaceErr
          (io_then (setup_sandbox_dirs ws) (io_then (write_user_files ws p) (notify_sockets p))))
        (drop_workspace ws)) (\<lambda>socks. io_bind (io_call (Proc Fork)) (\<lambda>r.
       if ans_ret r < 0
       then io_then (drop_sockets socks) (io_then (drop_workspace ws) (io_err (ForkErr (ans_errno r))))
       else if ans_ret r = 0 then child_branch host ws p info socks
       else io_ret (ans_ret r, ws, socks)))) K (\<lambda>r v. launch_holds r (t @ u @ v)) ((h @ t) @ u)"
    proof (rule runs_bind [OF prepare_runs])
      fix socks and v :: hist
      assume "case Inr socks of Inl e \<Rightarrow> leak_free v \<and> ws_fds ws \<subseteq> closes v
        | Inr socks \<Rightarrow> holding (socket_fds socks) v"
      then have "holding (ws_fds ws \<union> socket_fds socks) (t @ u @ v)"
        using holding_append_mono [OF tu] by simp
      from fork_runs [OF this] show "runs (io_bind (io_call (Proc Fork)) (\<lambda>r.
       if ans_ret r < 0
       then io_then (drop_sockets socks) (io_then (drop_workspace ws) (io_err (ForkErr (ans_errno r))))
       else if ans_ret r = 0 then child_branch host ws p info socks
       else io_ret (ans_ret r, ws, socks))) K (\<lambda>r w. launch_holds r (t @ u @ v @ w)) (((h @ t) @ u) @ v)"
        by simp
    next
      fix e :: executor_error and v :: hist
      assume "case Inl e of Inl e \<Rightarrow> leak_free v \<and> ws_fds ws \<subseteq> closes v
        | Inr socks \<Rightarrow> holding (socket_fds socks) v"
      then show "launch_holds (Inl e) (t @ u @ v)"
        using holding_closed [OF tu, of v] by (simp add: launch_holds_def)
    qed
  qed (auto simp: launch_holds_def intro: leak_free_append)
qed

lemma receive_notify_runs:
  "runs (receive_notify socks pid) K
     (\<lambda>r t. leak_free t \<and> set_option (map_option fst socks) \<subseteq> closes t) h"
proof (cases socks)
  case None
  then show ?thesis by (simp add: receive_notify_def runs_ret)
next
  case (Some ab)
  obtain a b where ab: "ab = (a, b)" by force
  have "runs (owning_fd a (io_then (poll_or_kill a pid ''timeout waiting for notify fd'')
             (io_bind (io_map_err (SeccompNotify '''') (recv_fd a)) (\<lambda>fd. io_ret (Some fd))))) K
      (\<lambda>r t. leak_free t \<and> a \<in> closes t) h"
    by (rule gives_back_owning) (auto intro!: only_rules)
  then show ?thesis by (simp add: receive_notify_def Some ab)
qed

lemma socket_fds_parts:
  "socket_fds socks = set_option (map_option fst socks) \<union> set_option (map_option snd socks)"
  by (auto simp: socket_fds_def split: option.split)

text \<open>Giving up before the parent waits: everything is closed.\<close>

lemma give_up_runs:
  "runs (io_then (close_fd pidfd) (io_then (close_opt (map_option snd socks)) (drop_workspace ws))) K
     (\<lambda>r t. r = Inr () \<and> leak_free t
        \<and> insert pidfd (set_option (map_option snd socks)) \<union> ws_fds ws \<subseteq> closes t) h"
  by (rule runs_then [OF cleanup_runs(4)], rule runs_then [OF cleanup_runs(3)])
    (auto intro!: runs_mono [OF cleanup_runs(1)] leak_free_append)

definition waited ::
  "int \<Rightarrow> sockets \<Rightarrow> workspace \<Rightarrow> executor_error + sandbox_output option \<Rightarrow> hist \<Rightarrow> bool" where
  "waited pidfd socks ws r t \<longleftrightarrow> r = Inr None \<or>
     leak_free t \<and> insert pidfd (socket_fds socks) \<union> child_side ws \<subseteq> closes t
     \<and> (isl r \<or> parent_side ws \<subseteq> closes t)"

lemma wait_runs:
  "runs (io_bind (io_on_err (receive_notify socks child_pid)
        (io_then (close_fd pidfd)
          (io_then (close_opt (map_option snd socks)) (drop_workspace ws)))) (\<lambda>notify_fd.
     io_bind (io_try (blocking_parent fuel child_pid pidfd notify_fd ws p)) (\<lambda>r.
       io_then (close_opt (map_option snd socks)) (io_lift r)))) K (waited pidfd socks ws) h"
proof -
  have receive: "runs (io_on_err (receive_notify socks child_pid)
        (io_then (close_fd pidfd)
          (io_then (close_opt (map_option snd socks)) (drop_workspace ws)))) K
      (\<lambda>r t. leak_free t \<and> set_option (map_option fst socks) \<subseteq> closes t
         \<and> (isl r \<longrightarrow> insert pidfd (socket_fds socks) \<union> ws_fds ws \<subseteq> closes t)) h" for h
    by (rule runs_on_err [OF receive_notify_runs])
      (auto intro!: runs_mono [OF give_up_runs] leak_free_append simp: socket_fds_parts)
  have last: "runs (io_then (close_opt (map_option snd socks)) (io_lift r)) K
      (\<lambda>r' t. r' = r \<and> leak_free t \<and> set_option (map_option snd socks) \<subseteq> closes t) h" for r h
    by (rule runs_then [OF cleanup_runs(3)]) (auto intro!: runs_lift)
  have "runs (io_bind (io_try (blocking_parent fuel child_pid pidfd nfd ws p)) (\<lambda>r.
       io_then (close_opt (map_option snd socks)) (io_lift r))) K
      (\<lambda>r u. waited pidfd socks ws r (t @ u)) h"
    if "leak_free t" "set_option (map_option fst socks) \<subseteq> closes t" for nfd t h
    by (rule runs_bind [OF runs_tried [OF blocking_parent_runs]])
      (use that in \<open>auto intro!: runs_mono [OF last] leak_free_append
         simp: waited_def parent_released_def socket_fds_parts\<close>)
  then show ?thesis
    by (intro runs_bind [OF receive]) (auto simp: waited_def ws_fds_sides)
qed

text \<open>What a run has given back when it ends.\<close>

definition run_released :: "executor_error + sandbox_output option \<Rightarrow> hist \<Rightarrow> bool" where
  "run_released r t \<longleftrightarrow> (case r of
       Inr None \<Rightarrow> True
     | Inr (Some out) \<Rightarrow> leak_free t
     | Inl e \<Rightarrow> in_child t \<or> (\<exists>ws. holding (parent_side ws) t))"

lemma pidfd_runs:
  "runs (io_on_err (pidfd_open pid) (io_then (drop_sockets socks) (drop_workspace ws))) K
     (\<lambda>r t. case r of Inl e \<Rightarrow> leak_free t \<and> ws_fds ws \<union> socket_fds socks \<subseteq> closes t
        | Inr fd \<Rightarrow> holding {fd} t) h"
proof -
  have drop: "runs (io_then (drop_sockets socks) (drop_workspace ws)) K
      (\<lambda>r t. r = Inr () \<and> leak_free t \<and> ws_fds ws \<union> socket_fds socks \<subseteq> closes t) h" for h
    by (rule runs_then [OF cleanup_runs(2)])
      (auto intro!: runs_mono [OF cleanup_runs(1)] leak_free_append)
  have "runs (pidfd_open pid) K (\<lambda>r t. case r of Inl e \<Rightarrow> leak_free t | Inr fd \<Rightarrow> holding {fd} t) h"
    by (simp add: runs_wp wp_rules pidfd_open_def)
  then show ?thesis
    by (rule runs_on_err) (auto intro!: runs_mono [OF drop] leak_free_append)
qed

lemma run_released_leak_free: "leak_free t \<Longrightarrow> run_released (Inl e) t"
  by (auto simp: run_released_def leak_free_def intro: holding_mono)

lemma run_released_waited:
  assumes "holding (insert pidfd (ws_fds ws \<union> socket_fds socks)) t" and "waited pidfd socks ws r u"
  shows "run_released r (t @ u)"
proof (cases r)
  case (Inl e)
  with assms(2) have u: "leak_free u" "insert pidfd (socket_fds socks) \<union> child_side ws \<subseteq> closes u"
    by (auto simp: waited_def)
  have "holding (parent_side ws) (t @ u)"
    by (rule holding_append [OF assms(1)])
      (use u in \<open>auto simp: ws_fds_sides closes_def leak_free_def intro: holding_mono\<close>)
  with Inl show ?thesis by (auto simp: run_released_def)
next
  case (Inr x)
  with assms show ?thesis
    by (cases x) (auto simp: run_released_def waited_def ws_fds_sides intro: holding_closed)
qed

lemma run_released_runs: "runs (run fuel host p) K run_released h"
  unfolding run_def
proof (rule runs_bind [OF launch_holds_runs])
  fix x and t :: hist assume t: "launch_holds (Inr x) t"
  obtain child_pid ws socks where x: "x = (child_pid, ws, socks)" by (cases x) auto
  have held: "holding (ws_fds ws \<union> socket_fds socks) t" using t by (simp add: launch_holds_def x)
  show "runs (case x of (child_pid, ws, socks) \<Rightarrow>
     io_bind (io_on_err (pidfd_open child_pid) (io_then (drop_sockets socks) (drop_workspace ws))) (\<lambda>pidfd.
     io_bind (io_on_err (receive_notify socks child_pid)
        (io_then (close_fd pidfd)
          (io_then (close_opt (map_option snd socks)) (drop_workspace ws)))) (\<lambda>notify_fd.
     io_bind (io_try (blocking_parent fuel child_pid pidfd notify_fd ws p)) (\<lambda>r.
       io_then (close_opt (map_option snd socks)) (io_lift r))))) K (\<lambda>r u. run_released r (t @ u)) (h @ t)"
    unfolding x prod.case
  proof (rule runs_bind [OF pidfd_runs])
    fix pidfd and u :: hist
    assume "case Inr pidfd of Inl e \<Rightarrow> leak_free u \<and> ws_fds ws \<union> socket_fds socks \<subseteq> closes u
        | Inr fd \<Rightarrow> holding {fd} u"
    then have "holding (insert pidfd (ws_fds ws \<union> socket_fds socks)) (t @ u)"
      by (auto intro: holding_append_mono [OF held])
    from run_released_waited [OF this]
    show "runs (io_bind (io_on_err (receive_notify socks child_pid)
        (io_then (close_fd pidfd)
          (io_then (close_opt (map_option snd socks)) (drop_workspace ws)))) (\<lambda>notify_fd.
     io_bind (io_try (blocking_parent fuel child_pid pidfd notify_fd ws p)) (\<lambda>r.
       io_then (close_opt (map_option snd socks)) (io_lift r)))) K
       (\<lambda>r v. run_released r (t @ u @ v)) ((h @ t) @ u)"
      by (intro runs_mono [OF wait_runs]) simp
  qed (use holding_closed [OF held] in \<open>auto intro: run_released_leak_free\<close>)
qed (auto simp: launch_holds_def run_released_def leak_free_def intro: holding_mono)

section \<open>The output of a run\<close>

text \<open>Calls that neither wait for a process through its descriptor nor kill it so.\<close>

definition unwaiting :: "call \<Rightarrow> bool" where
  "unwaiting c \<longleftrightarrow> (\<forall>x. c \<noteq> Proc (Waitid x)) \<and> (\<forall>x. c \<noteq> Proc (PidfdKill x))"

lemma unwaiting_simps [simp]:
  "unwaiting (Fd c1)" "unwaiting (Fs c2)" "unwaiting (Ll c3)" "unwaiting (Attr c4)"
  "unwaiting (Proc Fork)" "unwaiting (Proc (Kill n))" "unwaiting (Proc (PidfdOpen n))"
  by (simp_all add: unwaiting_def)

lemma write_all_unwaiting [only_rules]: "only unwaiting (write_all n fd data)"
  by (induction n arbitrary: data) (auto intro!: only_rules)

lemma parent_unwaiting [only_rules]:
  "only unwaiting (close_parent_pipe_ends ws)" "only unwaiting (sync_with_child ws pid)"
  "only unwaiting (receive_notify socks pid)" "only unwaiting (write_plan_stdin fuel ws p)"
  "only unwaiting (pidfd_open pid)" "only unwaiting (drop_sync sp)" "only unwaiting (close_fd n)"
  "only unwaiting (remove_dir_all d)"
  unfolding close_parent_pipe_ends_def sync_with_child_def receive_notify_def write_plan_stdin_def
    pidfd_open_def poll_or_kill_def kill_child_def owning_fd_def recv_fd_def write_stdin_def
    drop_sync_def close_fd_def remove_dir_all_def Let_def
  by (auto intro!: only_rules split: option.split)

lemma cleanup_unwaiting [only_rules]:
  "only unwaiting (drop_workspace ws)" "only unwaiting (drop_sockets socks)"
  "only unwaiting (close_opt fd)"
  by (auto intro!: only_mono [OF workspace_calls(2)] only_mono [OF workspace_calls(6)]
      only_mono [OF workspace_calls(7)] simp: preparing_def unwaiting_def)

lemma unwaiting_quiet: "\<forall>e \<in> set t. unwaiting (fst e) \<Longrightarrow> waits pidfd t = [] \<and> kills pidfd t = []"
  by (induction t) (auto simp: unwaiting_def)

definition reports :: "plan \<Rightarrow> 'e + sandbox_output option \<Rightarrow> hist \<Rightarrow> bool" where
  "reports p r t \<longleftrightarrow> (case r of Inr (Some out) \<Rightarrow> \<exists>pidfd. outcome pidfd (max_bytes p) out t | _ \<Rightarrow> True)"

lemma reports_simps [simp]: "reports p (Inl e) t" "reports p (Inr None) t"
  by (simp_all add: reports_def)

lemma reports_before: "\<forall>e \<in> set t. unwaiting (fst e) \<Longrightarrow> reports p r u \<Longrightarrow> reports p r (t @ u)"
  using unwaiting_quiet [of t]
  by (auto simp: reports_def outcome_quiet split: sum.splits option.splits)

lemma reports_after: "\<forall>e \<in> set u. unwaiting (fst e) \<Longrightarrow> reports p r t \<Longrightarrow> reports p r (t @ u)"
  using unwaiting_quiet [of u]
  by (auto simp: reports_def outcome_quiet split: sum.splits option.splits)

lemma reports_bind:
  assumes "only unwaiting m" and "\<And>x h. runs (f x) K (reports p) h"
  shows "runs (io_bind m f) K (reports p) h"
  by (rule runs_bind, rule only_runs [OF assms(1)])
    (auto intro!: runs_mono [OF assms(2)] reports_before)

lemma reports_then:
  "only unwaiting m \<Longrightarrow> (\<And>h. runs n K (reports p) h) \<Longrightarrow> runs (io_then m n) K (reports p) h"
  unfolding io_then_def by (rule reports_bind)

lemma reports_none: "runs (io_ret None) K (reports p) h"
  by (simp add: runs_ret reports_def)

lemma reports_finally:
  assumes "runs m K (reports p) h"
    and "\<And>r h. runs (f r) K (\<lambda>r' t. (r' = r \<or> isl r') \<and> (\<forall>e \<in> set t. unwaiting (fst e))) h"
  shows "runs (io_bind (io_try m) f) K (reports p) h"
  by (rule runs_bind, rule runs_tried [OF assms(1)])
    (auto intro!: runs_mono [OF assms(2)] intro: reports_after simp: isl_def)

text \<open>Closing, then passing the result on.\<close>

lemma pass_on:
  assumes "only unwaiting m"
  shows "runs (io_then m (io_lift r)) K (\<lambda>r' t. (r' = r \<or> isl r') \<and> (\<forall>e \<in> set t. unwaiting (fst e))) h"
  by (rule runs_then, rule only_runs [OF assms]) (auto intro!: runs_lift)

lemma monitor_reports: "runs (io_map_err MonitorErr (monitor n pidfd ws p)) K (reports p) h"
  by (rule runs_map_err, rule runs_mono [OF monitor_runs])
    (auto simp: reports_def body_result_def outcome_quiet max_bytes_def split: sum.splits option.splits)

lemma blocking_parent_reports: "runs (blocking_parent n pid pidfd nfd ws p) K (reports p) h"
proof -
  let ?last = "io_then (close_fd (read_end (p_stdout (ws_pipes ws))))
            (io_then (close_fd (read_end (p_stderr (ws_pipes ws))))
            (io_then (drop_sync (p_sync (ws_pipes ws)))
            (io_then (remove_dir_all (ws_root ws)) (close_opt nfd))))"
  have "only unwaiting ?last" by (auto intro!: only_rules)
  from pass_on [OF this]
  have last: "runs (io_then (close_fd (read_end (p_stdout (ws_pipes ws))))
            (io_then (close_fd (read_end (p_stderr (ws_pipes ws))))
            (io_then (drop_sync (p_sync (ws_pipes ws)))
            (io_then (remove_dir_all (ws_root ws)) (io_then (close_opt nfd) (io_lift r)))))) K
      (\<lambda>r' t. (r' = r \<or> isl r') \<and> (\<forall>e \<in> set t. unwaiting (fst e))) h"
    for r :: "executor_error + sandbox_output option" and h
    by (simp only: io_then_assoc)
  show ?thesis
    unfolding blocking_parent_def io_bind_some_def
    by (intro reports_then reports_bind)
      (auto intro!: only_rules reports_none reports_then reports_finally monitor_reports last
        split: option.split)
qed

lemma run_reports: "runs (run fuel host p) K (reports p) h"
proof -
  have "only unwaiting (close_opt (map_option snd socks))" for socks :: sockets
    by (rule only_rules)
  note close = pass_on [OF this]
  have wait: "runs (io_bind (io_on_err (pidfd_open child_pid) (io_then (drop_sockets socks) (drop_workspace ws))) (\<lambda>pidfd.
     io_bind (io_on_err (receive_notify socks child_pid)
        (io_then (close_fd pidfd)
          (io_then (close_opt (map_option snd socks)) (drop_workspace ws)))) (\<lambda>notify_fd.
     io_bind (io_try (blocking_parent fuel child_pid pidfd notify_fd ws p)) (\<lambda>r.
       io_then (close_opt (map_option snd socks)) (io_lift r))))) K (reports p) h" for child_pid ws socks h
    by (intro reports_bind reports_finally blocking_parent_reports close) (auto intro!: only_rules)
  show ?thesis
    unfolding run_def
  proof (rule runs_bind [OF launch_runs])
    fix x and t :: hist assume "launched host p (Inr x) t"
    then have "\<forall>e \<in> set t. unwaiting (fst e)"
      by (auto simp: launched_def forking_def preparing_def unwaiting_def)
    then show "runs (case x of (child_pid, ws, socks) \<Rightarrow>
     io_bind (io_on_err (pidfd_open child_pid) (io_then (drop_sockets socks) (drop_workspace ws))) (\<lambda>pidfd.
     io_bind (io_on_err (receive_notify socks child_pid)
        (io_then (close_fd pidfd)
          (io_then (close_opt (map_option snd socks)) (drop_workspace ws)))) (\<lambda>notify_fd.
     io_bind (io_try (blocking_parent fuel child_pid pidfd notify_fd ws p)) (\<lambda>r.
       io_then (close_opt (map_option snd socks)) (io_lift r))))) K (\<lambda>r u. reports p r (t @ u)) (h @ t)"
      by (cases x) (auto intro!: runs_mono [OF wait] reports_before)
  qed simp
qed

section \<open>Properties of a run\<close>



text \<open>When \<open>find_command\<close> succeeds the command is valid and the system check has passed.\<close>

lemma find_command_ok:
  assumes "find_command host p K h = (Inr info, h')"
  shows "validate_cmd (cmd p) = Inr ()
     \<and> (\<exists>si c. fst (check (h_system_info host) K h :: (executor_error + _) \<times> _) = Inr (Inr si, c))"
  using assms unfolding find_command_def
  by (auto simp: io_then_def io_bind_def io_map_err_def io_lift_def io_err_def
      split: sum.splits prod.splits)

text \<open>C27: Nothing is forked for a bad request: when \<open>run\<close> or \<open>spawn_sandbox\<close> has called \<open>fork\<close>,
  the command of the plan passed validation and the system check succeeded.\<close>
theorem fork_needs_valid_request:
  assumes "run fuel host p K h = (r, h @ t) \<or> spawn_sandbox fuel host p K h = (r', h @ t)"
    and "Proc Fork \<in> fst ` set t"
  shows "validate_cmd (cmd p) = Inr ()
     \<and> (\<exists>si c. fst (check (h_system_info host) K h :: (executor_error + _) \<times> _) = Inr (Inr si, c))"
proof -
  have "\<exists>info h'. find_command host p K h = (Inr info, h')"
  proof (cases "fst (find_command host p K h)")
    case (Inl e)
    obtain t' where t': "find_command host p K h = (Inl e, h @ t')" "\<forall>e \<in> set t'. preparing (fst e)"
      using only_runs [OF find_command_calls(1), of host p K h] Inl by (auto simp: runs_def)
    then have "t = t'"
      using assms(1) by (auto simp: run_def spawn_sandbox_def launch_def io_bind_def)
    with t'(2) assms(2) show ?thesis by (force simp: preparing_def)
  next
    case (Inr info)
    then show ?thesis by (metis prod.collapse)
  qed
  then show ?thesis using find_command_ok by blast
qed

text \<open>A run to apply the properties to: the child of process 42 writes \<open>hi\<close> and exits with 0.\<close>

definition demo_host :: host where
  "demo_host = \<lparr>h_target = X86_64, h_sysno = x86_64_SYS, h_hash_order = (\<lambda>_. []),
     h_system_info = Some (Inr \<lparr>si_kernel_version = (6, 12, 0), si_landlock_abi = 5, si_seccomp_enabled = True\<rparr>),
     h_system_paths = None\<rparr>"

definition demo_plan :: plan where
  "demo_plan = plan_binary_path (new_plan False [''echo'', ''hi'']) ''/bin/echo''"

definition made :: "call \<Rightarrow> hist \<Rightarrow> int" where
  "made c h = int (length (filter (\<lambda>e. fst e = c) h))"

definition run_os :: os where
  "run_os = (\<lambda>h c. case c of
      Fd Pipe2 \<Rightarrow> ok_answer\<lparr>ans_vals := [3 + 2 * made c h, 4 + 2 * made c h]\<rparr>
    | Fd Eventfd \<Rightarrow> ok_answer\<lparr>ans_ret := 9 + made c h\<rparr>
    | Fs (TempDir pre) \<Rightarrow> ok_answer\<lparr>ans_str := ''/tmp/eb''\<rparr>
    | Proc Fork \<Rightarrow> ok_answer\<lparr>ans_ret := 42\<rparr>
    | Proc (PidfdOpen pid) \<Rightarrow> ok_answer\<lparr>ans_ret := 20\<rparr>
    | Fd (Poll fds n) \<Rightarrow>
        ok_answer\<lparr>ans_ret := 1, ans_vals := (if poll_count h = 1 then [1, 0, 0] else [0x10, 0x10, 1])\<rparr>
    | Fd (Read fd n) \<Rightarrow>
        (if fd = 9 then ok_answer\<lparr>ans_ret := 8\<rparr>
         else if fd = 5 \<and> poll_count h = 2 then ok_answer\<lparr>ans_ret := 2, ans_data := [104, 105]\<rparr>
         else ok_answer)
    | Fd (Write fd d) \<Rightarrow> ok_answer\<lparr>ans_ret := 8\<rparr>
    | Proc (Waitid fd) \<Rightarrow> ok_answer\<lparr>ans_vals := [1, 0]\<rparr>
    | _ \<Rightarrow> ok_answer)"

definition demo_ws :: workspace where
  "demo_ws = \<lparr>ws_root = ''/tmp/eb'', ws_pipes = \<lparr>p_stdin = \<lparr>read_end = 3, write_end = 4\<rparr>,
     p_stdout = \<lparr>read_end = 5, write_end = 6\<rparr>, p_stderr = \<lparr>read_end = 7, write_end = 8\<rparr>,
     p_sync = \<lparr>child_ready = 9, parent_done = 10\<rparr>\<rparr>\<rparr>"

lemmas launch_eval =
  io_on_err_def io_when_def launch_def find_command_def plan_binary_path_def new_plan_def
  default_plan_def validate_cmd_def has_nul_def check_def from_plan_def workspace_with_prefix_def fs_op_def
  new_pipes_def new_pipe_def new_sync_pair_def setup_sandbox_dirs_def create_dir_def write_user_files_def
  notify_sockets_def

lemmas parent_eval =
  io_on_err_def io_when_def plan_binary_path_def new_plan_def default_plan_def
  pidfd_open_def receive_notify_def blocking_parent_def io_bind_some_def sync_with_child_def
  poll_or_kill_def kill_child_def write_plan_stdin_def close_parent_pipe_ends_def close_opt_def
  drop_sync_def remove_dir_all_def

lemma demo_launch:
  "\<exists>t. launch demo_host demo_plan run_os [] = (Inr (42, demo_ws, None), t)
     \<and> poll_count t = 0 \<and> Proc Fork \<in> fst ` set t"
  by (simp add: monitor_eval launch_eval demo_host_def demo_plan_def run_os_def made_def demo_ws_def)

lemma drain_stops:
  "ans_ret (K h (Fd (Read fd 4096))) = 0 \<Longrightarrow>
   drain_remaining fd out mx K h =
     (Inr out, if mx \<le> length out then h else h @ [(Fd (Read fd 4096), K h (Fd (Read fd 4096)))])"
  by (subst drain_remaining.simps) (simp add: monitor_eval)

definition demo_out :: sandbox_output where
  "demo_out = \<lparr>out_stdout = [104, 105], out_stderr = [], out_status = Exited,
        out_duration = 0, out_exit_code = Some 0, out_signal = None\<rparr>"

lemma demo_monitor:
  "poll_count h = 1 \<Longrightarrow> \<exists>t. monitor (Suc (Suc (Suc 0))) 20 demo_ws demo_plan run_os h =
     (Inr (Some demo_out), h @ t)"
  by (simp add: monitor_eval monitor_def owning_fd_def monitor_body_def drain_stops demo_out_def
      plan_binary_path_def new_plan_def default_plan_def demo_plan_def run_os_def demo_ws_def)

lemma run_os_simps:
  "run_os h (Proc (PidfdOpen pid)) = ok_answer\<lparr>ans_ret := 20\<rparr>"
  "poll_count h = 0 \<Longrightarrow> run_os h (Fd (Poll fds n)) = ok_answer\<lparr>ans_ret := 1, ans_vals := [16, 16, 1]\<rparr>"
  "run_os h (Fd (Read 9 8)) = ok_answer\<lparr>ans_ret := 8\<rparr>"
  "run_os h (Fd (Write fd d)) = ok_answer\<lparr>ans_ret := 8\<rparr>"
  "run_os h (Fd (Close fd)) = ok_answer" "run_os h (Fs (RemoveDirAll q)) = ok_answer"
  "run_os h (Proc (Kill pid)) = ok_answer"
  by (simp_all add: run_os_def)

lemma demo_ws_simps:
  "read_end (p_stdin (ws_pipes demo_ws)) = 3" "write_end (p_stdin (ws_pipes demo_ws)) = 4"
  "read_end (p_stdout (ws_pipes demo_ws)) = 5" "write_end (p_stdout (ws_pipes demo_ws)) = 6"
  "read_end (p_stderr (ws_pipes demo_ws)) = 7" "write_end (p_stderr (ws_pipes demo_ws)) = 8"
  "child_ready (p_sync (ws_pipes demo_ws)) = 9" "parent_done (p_sync (ws_pipes demo_ws)) = 10"
  "ws_root demo_ws = ''/tmp/eb''" "stdin demo_plan = None"
  by (simp_all add: demo_ws_def demo_plan_def plan_binary_path_def new_plan_def default_plan_def)

lemma demo_run:
  "\<exists>t. run (Suc (Suc (Suc 0))) demo_host demo_plan run_os [] = (Inr (Some demo_out), [] @ t)
     \<and> Proc Fork \<in> fst ` set t"
proof -
  obtain t where t: "launch demo_host demo_plan run_os [] = (Inr (42, demo_ws, None), t)"
    "poll_count t = 0" "Proc Fork \<in> fst ` set t" using demo_launch by blast
  obtain f where f: "\<And>h. poll_count h = 1 \<Longrightarrow>
      monitor (Suc (Suc (Suc 0))) 20 demo_ws demo_plan run_os h = (Inr (Some demo_out), h @ f h)"
    using demo_monitor by metis
  show ?thesis
    using t by (simp add: run_def monitor_eval pidfd_open_def io_on_err_def receive_notify_def
        blocking_parent_def io_bind_some_def sync_with_child_def poll_or_kill_def write_plan_stdin_def
        close_parent_pipe_ends_def close_opt_def drop_sync_def remove_dir_all_def
        run_os_simps demo_ws_simps f image_Un)
qed


theorem fork_needs_valid_request_witness:
  "validate_cmd (cmd demo_plan) = Inr ()"
proof -
  obtain t where t: "run (Suc (Suc (Suc 0))) demo_host demo_plan run_os [] = (Inr (Some demo_out), [] @ t)"
    "Proc Fork \<in> fst ` set t"
    using demo_run by blast
  from fork_needs_valid_request [OF disjI1 [OF t(1)] t(2)] show ?thesis by blast
qed

text \<open>A kernel on which the child never reports that it is ready.\<close>

definition hang_os :: os where
  "hang_os = (\<lambda>h c. case c of Fd (Poll fds n) \<Rightarrow> ok_answer | _ \<Rightarrow> run_os h c)"

lemma hang_launch:
  "\<exists>t. launch demo_host demo_plan hang_os [] = (Inr (42, demo_ws, None), t)
     \<and> Fd Pipe2 \<in> fst ` set t \<and> closes t = {} \<and> waits 20 t = []
     \<and> (\<forall>d. Fs (RemoveDirAll d) \<notin> fst ` set t)"
  by (simp add: monitor_eval launch_eval demo_host_def demo_plan_def hang_os_def run_os_def made_def
      demo_ws_def)

text \<open>When the child does not report within 30 seconds, \<open>run\<close> kills it and fails, but does
  not wait for it, leaves the parent's five descriptors open and the directory in place.\<close>
theorem handshake_timeout_leaks:
  "\<exists>t. run 1 demo_host demo_plan hang_os [] = (Inl (ChildSetup ''timeout waiting for child''), t)
     \<and> Fd Pipe2 \<in> fst ` set t \<and> closes t \<inter> parent_side demo_ws = {}
     \<and> Fs (RemoveDirAll (ws_root demo_ws)) \<notin> fst ` set t
     \<and> Proc (Kill 42) \<in> fst ` set t \<and> waits 20 t = []"
proof -
  obtain t where t: "launch demo_host demo_plan hang_os [] = (Inr (42, demo_ws, None), t)"
    "Fd Pipe2 \<in> fst ` set t" "closes t = {}" "waits 20 t = []"
    "Fs (RemoveDirAll (ws_root demo_ws)) \<notin> fst ` set t" using hang_launch by blast
  have hang: "hang_os h (Fd (Poll fds n)) = ok_answer" "hang_os h (Proc c) = run_os h (Proc c)"
    "hang_os h (Fd (Close fd)) = ok_answer" for h fds n c fd
    by (simp_all add: hang_os_def run_os_def)
  show ?thesis
    using t by (simp add: run_def monitor_eval pidfd_open_def io_on_err_def receive_notify_def
        blocking_parent_def io_bind_some_def sync_with_child_def poll_or_kill_def kill_child_def
        close_parent_pipe_ends_def close_opt_def hang run_os_simps demo_ws_simps parent_side_def image_Un)
qed

section \<open>Spawning\<close>

definition handle_fds :: "spawned_sandbox \<Rightarrow> int set" where
  "handle_fds sp = {sp_pidfd sp, sp_stdin sp, sp_stdout sp, sp_stderr sp}"

definition finished :: "int \<Rightarrow> workspace \<Rightarrow> 'e + spawned_sandbox option \<Rightarrow> hist \<Rightarrow> bool" where
  "finished pidfd ws r t \<longleftrightarrow> leak_free t \<and> (case r of
       Inr (Some sp) \<Rightarrow> sp_pidfd sp = pidfd \<and> parent_side ws \<subseteq> handle_fds sp \<union> closes t
     | _ \<Rightarrow> True)"

lemma finish_spawn_runs:
  "runs (finish_spawn n pid pidfd nfd ws p) K (finished pidfd ws) h"
proof -
  let ?sp = "\<lparr>sp_pidfd = pidfd,
     sp_stdin = (if stdin p \<noteq> None then -1 else write_end (p_stdin (ws_pipes ws))),
     sp_stdout = read_end (p_stdout (ws_pipes ws)), sp_stderr = read_end (p_stderr (ws_pipes ws)),
     sp_notify = nfd, sp_workspace = ws\<rparr>"
  have last: "runs (io_then (io_when (stdin p \<noteq> None) (close_fd (write_end (p_stdin (ws_pipes ws)))))
      (io_then (io_map_err MonitorErr (set_nonblocking (read_end (p_stdout (ws_pipes ws)))))
      (io_then (io_map_err MonitorErr (set_nonblocking (read_end (p_stderr (ws_pipes ws)))))
      (io_then (drop_sync (p_sync (ws_pipes ws))) (io_ret (Some ?sp)))))) K (finished pidfd ws) h" for h
    by (simp add: runs_wp wp_rules set_nonblocking_def drop_sync_def close_fd_def finished_def
        handle_fds_def parent_side_def)
  have before: "finished pidfd ws r (t @ u)" if "leak_free t" "finished pidfd ws r u"
    for t u and r :: "executor_error + spawned_sandbox option"
    using that by (auto simp: finished_def leak_free_append split: sum.split option.split)
  have input: "runs (io_bind_some (write_plan_stdin n ws p) (\<lambda>_.
      io_then (io_when (stdin p \<noteq> None) (close_fd (write_end (p_stdin (ws_pipes ws)))))
      (io_then (io_map_err MonitorErr (set_nonblocking (read_end (p_stdout (ws_pipes ws)))))
      (io_then (io_map_err MonitorErr (set_nonblocking (read_end (p_stderr (ws_pipes ws)))))
      (io_then (drop_sync (p_sync (ws_pipes ws))) (io_ret (Some ?sp))))))) K (finished pidfd ws) h" for h
    unfolding io_bind_some_def
  proof (rule runs_bind [OF leak_free_only])
    show "opens_none (write_plan_stdin n ws p)" by (rule only_rules)
    show "runs (case x of None \<Rightarrow> io_ret None | Some x \<Rightarrow>
      io_then (io_when (stdin p \<noteq> None) (close_fd (write_end (p_stdin (ws_pipes ws)))))
      (io_then (io_map_err MonitorErr (set_nonblocking (read_end (p_stdout (ws_pipes ws)))))
      (io_then (io_map_err MonitorErr (set_nonblocking (read_end (p_stderr (ws_pipes ws)))))
      (io_then (drop_sync (p_sync (ws_pipes ws))) (io_ret (Some ?sp)))))) K
      (\<lambda>r u. finished pidfd ws r (t @ u)) (h @ t)" if "leak_free t" for x t
    proof (cases x)
      case None
      then show ?thesis using that by (simp add: runs_ret finished_def)
    next
      case (Some y)
      then show ?thesis unfolding Some option.case by (intro runs_mono [OF last] before that)
    qed
  qed (simp add: finished_def)
  show ?thesis
    unfolding finish_spawn_def Let_def
    by (rule runs_then [OF leak_free_only], rule only_rules)
      (assumption | rule runs_mono [OF input] before | simp add: finished_def)+
qed

text \<open>What a spawn holds when it returns.\<close>

definition spawn_holds :: "executor_error + spawned_sandbox option \<Rightarrow> hist \<Rightarrow> bool" where
  "spawn_holds r t \<longleftrightarrow> (case r of
       Inr None \<Rightarrow> True
     | Inr (Some sp) \<Rightarrow> holding (handle_fds sp) t
     | Inl e \<Rightarrow> in_child t \<or> leak_free t)"

definition tail_ok :: "int \<Rightarrow> sockets \<Rightarrow> workspace \<Rightarrow> executor_error + spawned_sandbox option \<Rightarrow> hist \<Rightarrow> bool" where
  "tail_ok pidfd socks ws r t \<longleftrightarrow> leak_free t \<and> (case r of
       Inl e \<Rightarrow> insert pidfd (ws_fds ws \<union> socket_fds socks) \<subseteq> closes t
     | Inr None \<Rightarrow> True
     | Inr (Some sp) \<Rightarrow> sp_pidfd sp = pidfd
         \<and> parent_side ws \<union> set_option (map_option fst socks) \<subseteq> handle_fds sp \<union> closes t)"

lemma spawn_handshake_runs:
  "runs (io_on_err
        (io_bind (receive_notify socks child_pid) (\<lambda>notify_fd.
           io_on_err (finish_spawn fuel child_pid pidfd notify_fd ws p) (close_opt notify_fd)))
        (io_then (close_fd pidfd)
          (io_then (close_opt (map_option snd socks)) (drop_workspace ws)))) K (tail_ok pidfd socks ws) h"
proof -
  let ?first = "set_option (map_option fst socks)"
  have finish: "runs (io_on_err (finish_spawn fuel child_pid pidfd nfd ws p) (close_opt nfd)) K
      (finished pidfd ws) h" for nfd h
    by (rule runs_on_err [OF finish_spawn_runs])
      (auto simp: finished_def intro!: runs_mono [OF cleanup_runs(3)] leak_free_append)
  have "runs (io_bind (receive_notify socks child_pid) (\<lambda>notify_fd.
           io_on_err (finish_spawn fuel child_pid pidfd notify_fd ws p) (close_opt notify_fd))) K
      (\<lambda>r t. leak_free t \<and> ?first \<subseteq> closes t \<and> (case r of
         Inr (Some sp) \<Rightarrow> sp_pidfd sp = pidfd \<and> parent_side ws \<subseteq> handle_fds sp \<union> closes t | _ \<Rightarrow> True)) h"
    by (rule runs_bind [OF receive_notify_runs])
      (auto intro!: runs_mono [OF finish] leak_free_append simp: finished_def
        split: sum.splits option.splits)
  then show ?thesis
    by (rule runs_on_err)
      (auto intro!: runs_mono [OF give_up_runs] leak_free_append
        simp: tail_ok_def socket_fds_parts split: option.splits)
qed

lemma spawn_tail_runs:
  assumes "holding (insert pidfd (ws_fds ws \<union> socket_fds socks)) t0"
  shows "runs (io_then (close_parent_pipe_ends ws)
     (io_bind (io_on_err
        (io_bind (receive_notify socks child_pid) (\<lambda>notify_fd.
           io_on_err (finish_spawn fuel child_pid pidfd notify_fd ws p) (close_opt notify_fd)))
        (io_then (close_fd pidfd)
          (io_then (close_opt (map_option snd socks)) (drop_workspace ws)))) (\<lambda>r.
       io_then (close_opt (map_option snd socks)) (io_ret r)))) K (\<lambda>r t. spawn_holds r (t0 @ t)) h"
proof -
  have fine: "spawn_holds r (t0 @ t @ u @ v)"
    if "leak_free t" "child_side ws \<subseteq> closes t" "tail_ok pidfd socks ws r u" "leak_free v"
      "isl r \<or> set_option (map_option snd socks) \<subseteq> closes v" for r t u v
  proof -
    have quiet: "leak_free (t @ u @ v)" using that by (simp add: tail_ok_def leak_free_append)
    show ?thesis
    proof (cases r)
      case (Inl e)
      then have "insert pidfd (ws_fds ws \<union> socket_fds socks) \<subseteq> closes (t @ u @ v)"
        using that by (auto simp: tail_ok_def)
      from holding_closed [OF assms quiet this] Inl show ?thesis by (simp add: spawn_holds_def)
    next
      case (Inr x)
      show ?thesis
      proof (cases x)
        case None
        with Inr show ?thesis by (simp add: spawn_holds_def)
      next
        case (Some sp)
        have "holding (handle_fds sp) (t0 @ t @ u @ v)"
        proof (rule holding_append [OF assms])
          show "holding (handle_fds sp) (t @ u @ v)"
            using quiet by (auto simp: leak_free_def intro: holding_mono)
          show "insert pidfd (ws_fds ws \<union> socket_fds socks)
              \<subseteq> handle_fds sp \<union> {fd. Fd (Close fd) \<in> fst ` set (t @ u @ v)}"
            using that Inr Some
            by (auto simp: tail_ok_def ws_fds_sides socket_fds_parts handle_fds_def
                closes_def [symmetric] simp del: set_append)
        qed
        with Inr Some show ?thesis by (simp add: spawn_holds_def)
      qed
    qed
  qed
  have stop: "spawn_holds (Inl e) (t0 @ t @ u)"
    if "leak_free t" "child_side ws \<subseteq> closes t" "tail_ok pidfd socks ws (Inl e) u" for e t u
    using fine [OF that, of "[]"] by simp
  have last: "runs (io_then (close_opt (map_option snd socks)) (io_ret r)) K
      (\<lambda>r' t. r' = Inr r \<and> leak_free t \<and> set_option (map_option snd socks) \<subseteq> closes t) h"
    for r :: "spawned_sandbox option" and h
    by (rule runs_then [OF cleanup_runs(3)]) (auto intro!: runs_ret)
  show ?thesis
    by (rule runs_then [OF cleanup_runs(5)], rule runs_bind [OF spawn_handshake_runs])
      (auto intro!: runs_mono [OF last] fine stop)
qed


lemma made_simps [simp]:
  "made c [] = 0" "made c (t @ u) = made c t + made c u"
  "made c (e # t) = (if fst e = c then 1 + made c t else made c t)"
  by (simp_all add: made_def)

lemma closes_made: "fd \<notin> closes t \<Longrightarrow> made (Fd (Close fd)) t = 0"
  by (induction t) (auto split: call.splits fd_call.splits if_splits)

text \<open>When the handshake of a spawn fails, the child's three pipe ends are closed twice: once
  by \<open>close_parent_pipe_ends\<close> and again when the workspace is dropped. In between the numbers
  may have been reused for other files.\<close>
theorem spawn_failure_closes_twice:
  "\<exists>t. spawn_sandbox 1 demo_host demo_plan hang_os []
         = (Inl (ChildSetup ''timeout waiting for child''), t)
     \<and> (\<forall>fd \<in> child_side demo_ws. made (Fd (Close fd)) t = 2)"
proof -
  obtain t where t: "launch demo_host demo_plan hang_os [] = (Inr (42, demo_ws, None), t)"
    "closes t = {}" using hang_launch by blast
  have "made (Fd (Close fd)) t = 0" for fd using t(2) by (simp add: closes_made)
  moreover have hang: "hang_os h (Fd (Poll fds n)) = ok_answer" "hang_os h (Proc c) = run_os h (Proc c)"
    "hang_os h (Fd (Close fd)) = ok_answer" "hang_os h (Fs (RemoveDirAll q)) = ok_answer" for h fds n c fd q
    by (simp_all add: hang_os_def run_os_def)
  ultimately show ?thesis
    using t by (simp add: spawn_sandbox_def finish_spawn_def monitor_eval pidfd_open_def io_on_err_def
        receive_notify_def io_bind_some_def sync_with_child_def poll_or_kill_def kill_child_def
        close_parent_pipe_ends_def close_opt_def drop_workspace_def drop_pipes_def drop_pipe_def
        drop_sync_def remove_dir_all_def hang run_os_simps demo_ws_simps child_side_def)
qed

end
