(* ===== verification/Seccomp_Guarantees.thy ===== *)
theory Seccomp_Guarantees
  imports Seccomp_Policy Syscall_Names
begin

text \<open>
  The properties of the seccomp filters: the emitted whitelist program decides the policy,
  no whitelist can open what the argument filters close, the program is one the kernel's
  checker accepts, the default whitelist blocks what the documentation says it blocks, and
  the two stacked filters combine as the supervisor needs.
\<close>

unbundle bit_operations_syntax

section \<open>Well-formed programs\<close>

text \<open>
  What the kernel requires of a filter before it runs it: known opcodes, loads inside the
  data, every jump inside the program, and a final return. \<open>m\<close> counts the instructions
  that follow the fragment.
\<close>

definition is_jump :: "sock_filter \<Rightarrow> bool" where
  "is_jump i \<longleftrightarrow> sf_code i = 0x15 \<or> sf_code i = 0x45"

definition instr_ok :: "sock_filter \<Rightarrow> bool" where
  "instr_ok i \<longleftrightarrow>
     sf_code i \<in> {0x15, 0x45, 0x54, 0x06}
     \<or> sf_code i = 0x20 \<and> unat (sf_k i) mod 4 = 0 \<and> unat (sf_k i) < 64"

fun jumps_within :: "nat \<Rightarrow> sock_filter list \<Rightarrow> bool" where
  "jumps_within m [] = True"
| "jumps_within m (i # P) =
     ((is_jump i \<longrightarrow> unat (sf_jt i) < length P + m \<and> unat (sf_jf i) < length P + m)
      \<and> instr_ok i \<and> jumps_within m P)"

definition valid_filter :: "sock_filter list \<Rightarrow> bool" where
  "valid_filter P \<longleftrightarrow> P \<noteq> [] \<and> jumps_within 0 P \<and> sf_code (last P) = 0x06"

lemma jumps_within_append:
  "jumps_within m (P @ Q) \<longleftrightarrow> jumps_within (length Q + m) P \<and> jumps_within m Q"
  by (induction P) (auto simp: algebra_simps)

lemma jumps_within_nth:
  "jumps_within m P \<longleftrightarrow>
     (\<forall>j < length P. instr_ok (P ! j)
        \<and> (is_jump (P ! j) \<longrightarrow> j + unat (sf_jt (P ! j)) + 1 < length P + m
                             \<and> j + unat (sf_jf (P ! j)) + 1 < length P + m))"
  by (induction P) (auto simp: All_less_Suc2)

lemma list_checks_jumps:
  assumes "length nrs \<le> 200" and "2 \<le> m"
  shows "jumps_within m (list_checks nrs)"
  using assms
  by (auto simp: jumps_within_nth list_checks_nth instr_ok_def opcode_values unat_of_nat_u8
      simp del: of_nat_diff)

lemmas instr_check_simps =
  instr_ok_def is_jump_def opcode_values const_defs

lemma arch_check_jumps: "2 \<le> m \<Longrightarrow> jumps_within m (arch_check tgt v)"
  by (simp add: arch_check_def instr_check_simps)

lemma special_checks_jumps:
  assumes "n \<le> 200" and "20 + n \<le> m"
  shows "jumps_within m (special_checks SYS n)"
proof -
  have off: "unat (of_nat (3 + n + 2) :: u8) = 5 + n" "unat (of_nat (2 + n + 3) :: u8) = 5 + n"
    "unat (of_nat (1 + n + 3 + 4) :: u8) = 8 + n" "unat (of_nat (n + 3 + 4 + 7) :: u8) = 14 + n"
    using \<open>n \<le> 200\<close> by (simp_all add: unat_of_nat_u8 del: of_nat_add)
  show ?thesis
    using assms unfolding special_checks_def jumps_within.simps instr_sel off
    by (simp add: instr_ok_def opcode_values)
qed

lemma handlers_jumps:
  "jumps_within m whitelist_verdicts"
  "jumps_within m clone_handler" "jumps_within m socket_handler" "jumps_within m ioctl_handler"
  "jumps_within m notify_verdicts"
  by (simp_all add: whitelist_verdicts_def clone_handler_def socket_handler_def
      ioctl_handler_def notify_verdicts_def instr_ok_def is_jump_def opcode_values
      OFFSET_ARGS_0_def OFFSET_ARGS_1_def)

section \<open>Stacked filters\<close>

text \<open>
  The kernel runs every installed filter and keeps the strictest verdict: the action with
  the smallest value, read as a signed number.
\<close>

definition action_prio :: "u32 \<Rightarrow> int" where
  "action_prio v = sint (v AND 0xffff0000)"

locale seccomp_stack = bpf_machine run
  for run :: "sock_filter list \<Rightarrow> seccomp_data \<Rightarrow> nat \<Rightarrow> u32 \<Rightarrow> u32 option" +
  fixes strictest :: "u32 \<Rightarrow> u32 \<Rightarrow> u32"
  assumes strictest_one: "strictest a b = a \<or> strictest a b = b"
    and strictest_prio: "action_prio (strictest a b) = min (action_prio a) (action_prio b)"
begin

lemma strictest_left: "action_prio a < action_prio b \<Longrightarrow> strictest a b = a"
  using strictest_one [of a b] strictest_prio [of a b] by auto

lemma strictest_right: "action_prio b < action_prio a \<Longrightarrow> strictest a b = b"
  using strictest_one [of a b] strictest_prio [of a b] by auto

lemma strictest_same: "strictest a a = a"
  using strictest_one by auto

end

definition min_action :: "u32 \<Rightarrow> u32 \<Rightarrow> u32" where
  "min_action a b = (if action_prio a \<le> action_prio b then a else b)"

interpretation stack: seccomp_stack bpf_run min_action
  by unfold_locales (auto simp: min_action_def)

lemma action_prios:
  "action_prio SECCOMP_RET_KILL_PROCESS < action_prio SECCOMP_RET_ERRNO_ENOSYS"
  "action_prio SECCOMP_RET_ERRNO_ENOSYS < action_prio SECCOMP_RET_USER_NOTIF"
  "action_prio SECCOMP_RET_USER_NOTIF < action_prio SECCOMP_RET_ALLOW"
  by (simp_all add: action_prio_def const_defs)

lemma policy_values_distinct [simp]:
  "SECCOMP_RET_ALLOW \<noteq> SECCOMP_RET_KILL_PROCESS"
  "SECCOMP_RET_ALLOW \<noteq> SECCOMP_RET_ERRNO_ENOSYS"
  "SECCOMP_RET_ALLOW \<noteq> SECCOMP_RET_USER_NOTIF"
  "SECCOMP_RET_KILL_PROCESS \<noteq> SECCOMP_RET_ALLOW"
  "SECCOMP_RET_ERRNO_ENOSYS \<noteq> SECCOMP_RET_ALLOW"
  "SECCOMP_RET_USER_NOTIF \<noteq> SECCOMP_RET_ALLOW"
  by (simp_all add: const_defs)

section \<open>Consequences of the policy\<close>

lemma policy_allows_only:
  assumes "whitelist_policy tgt SYS syscalls d = SECCOMP_RET_ALLOW"
    and "distinct (map (nr_of SYS) special_syscalls)"
  shows "sd_arch d = AUDIT_ARCH tgt
    \<and> sd_nr d \<noteq> nr_of SYS ''clone3''
    \<and> (sd_nr d = nr_of SYS ''clone'' \<longrightarrow> arg_lo d 0 AND BLOCKED_CLONE_FLAGS = 0)
    \<and> (sd_nr d = nr_of SYS ''socket'' \<longrightarrow>
         arg_lo d 0 \<noteq> AF_NETLINK \<and> arg_lo d 1 AND 0xF \<noteq> SOCK_RAW)
    \<and> (sd_nr d = nr_of SYS ''ioctl'' \<longrightarrow> arg_lo d 1 \<notin> {TIOCSTI, TIOCSETD, TIOCLINUX})
    \<and> (sd_nr d \<notin> nr_of SYS ` set special_syscalls \<longrightarrow> sd_nr d \<in> ucast ` set syscalls)"
  using assms
  by (auto simp: whitelist_policy_def clone_policy_def socket_policy_def ioctl_policy_def
      nr_of_def special_syscalls_def split: if_splits)

lemma whitelist_policy_cases:
  "whitelist_policy tgt SYS syscalls d
     \<in> {SECCOMP_RET_ALLOW, SECCOMP_RET_ERRNO_ENOSYS, SECCOMP_RET_KILL_PROCESS}"
  by (simp add: whitelist_policy_def clone_policy_def socket_policy_def ioctl_policy_def)

lemma notify_policy_cases:
  "notify_policy tgt notified d \<in> {SECCOMP_RET_ALLOW, SECCOMP_RET_USER_NOTIF}"
  by (simp add: notify_policy_def)

section \<open>Properties\<close>

text \<open>C4: on every target, for every whitelist the code accepts and every system call, the
  emitted program returns exactly the verdict of the policy: kill on a foreign architecture,
  \<open>ENOSYS\<close> for \<open>clone3\<close>, the argument policies for \<open>clone\<close>, \<open>socket\<close> and \<open>ioctl\<close>,
  allow for listed numbers and kill otherwise.\<close>

theorem whitelist_filter_decides_policy:
  assumes "bpf_machine run"
    and "build_whitelist_filter tgt SYS syscalls = Inr F"
    and "has_six_args d"
  shows "run F d 0 0 = Some (whitelist_policy tgt SYS syscalls d)"
  using assms by (rule bpf_machine.whitelist_filter_verdict)

lemma has_six_args_default [simp]:
  "has_six_args (default_seccomp_data\<lparr>sd_nr := n, sd_arch := a\<rparr>)"
  "has_six_args (default_seccomp_data\<lparr>sd_nr := n, sd_arch := a, sd_args := [x0, x1, x2, x3, x4, x5]\<rparr>)"
  by (simp_all add: has_six_args_def default_seccomp_data_def)

lemma x86_64_special_numbers:
  "ucast (x86_64_SYS ''clone3'') = (435 :: u32)" "ucast (x86_64_SYS ''clone'') = (56 :: u32)"
  "ucast (x86_64_SYS ''socket'') = (41 :: u32)" "ucast (x86_64_SYS ''ioctl'') = (16 :: u32)"
  by (simp_all add: x86_64_SYS_def x86_64_table_def)

theorem whitelist_filter_decides_policy_witness:
  "\<exists>F. build_whitelist_filter X86_64 x86_64_SYS [0, 1] = Inr F
     \<and> bpf_run F (default_seccomp_data\<lparr>sd_nr := 1, sd_arch := 0xc000003e\<rparr>) 0 0
         = Some SECCOMP_RET_ALLOW
     \<and> bpf_run F (default_seccomp_data\<lparr>sd_nr := 2, sd_arch := 0xc000003e\<rparr>) 0 0
         = Some SECCOMP_RET_KILL_PROCESS"
proof -
  obtain F where F: "build_whitelist_filter X86_64 x86_64_SYS [0, 1] = Inr F"
    by (simp add: build_whitelist_filter_def MAX_WHITELIST_SIZE_def Let_def)
  show ?thesis
    using F whitelist_filter_decides_policy [OF bpf.bpf_machine_axioms F]
    by (simp add: whitelist_policy_def x86_64_special_numbers default_seccomp_data_def
        has_six_args_def)
qed

text \<open>C6: no whitelist can open what the argument filters close. Whatever numbers the caller
  lists, an allowed call came from the target's architecture, is not \<open>clone3\<close>, creates no
  namespace if it is \<open>clone\<close>, opens neither a netlink nor a raw socket if it is \<open>socket\<close>
  (with any flag bits), is none of the three terminal ioctls, and is listed otherwise.\<close>

theorem whitelist_filter_allows_only:
  assumes "bpf_machine run"
    and "build_whitelist_filter tgt SYS syscalls = Inr F"
    and "has_six_args d"
    and special: "distinct (map (nr_of SYS) special_syscalls)"
    and allowed: "run F d 0 0 = Some SECCOMP_RET_ALLOW"
  shows "sd_arch d = AUDIT_ARCH tgt
    \<and> sd_nr d \<noteq> nr_of SYS ''clone3''
    \<and> (sd_nr d = nr_of SYS ''clone'' \<longrightarrow> arg_lo d 0 AND BLOCKED_CLONE_FLAGS = 0)
    \<and> (sd_nr d = nr_of SYS ''socket'' \<longrightarrow>
         arg_lo d 0 \<noteq> AF_NETLINK \<and> arg_lo d 1 AND 0xF \<noteq> SOCK_RAW)
    \<and> (sd_nr d = nr_of SYS ''ioctl'' \<longrightarrow> arg_lo d 1 \<notin> {TIOCSTI, TIOCSETD, TIOCLINUX})
    \<and> (sd_nr d \<notin> nr_of SYS ` set special_syscalls \<longrightarrow> sd_nr d \<in> ucast ` set syscalls)"
proof -
  from allowed have "whitelist_policy tgt SYS syscalls d = SECCOMP_RET_ALLOW"
    using bpf_machine.whitelist_filter_verdict [OF assms(1-3), of 0] by simp
  then show ?thesis
    using special by (rule policy_allows_only)
qed

theorem whitelist_filter_allows_only_witness:
  "\<exists>F. build_whitelist_filter X86_64 x86_64_SYS [x86_64_SYS ''clone''] = Inr F
     \<and> (let d = default_seccomp_data\<lparr>sd_nr := 56, sd_arch := 0xc000003e,
                   sd_args := [0x11, 0, 0, 0, 0, 0]\<rparr>
        in bpf_run F d 0 0 = Some SECCOMP_RET_ALLOW \<and> arg_lo d 0 AND BLOCKED_CLONE_FLAGS = 0)"
proof -
  let ?d = "default_seccomp_data\<lparr>sd_nr := 56, sd_arch := 0xc000003e,
              sd_args := [0x11, 0, 0, 0, 0, 0]\<rparr>"
  obtain F where F: "build_whitelist_filter X86_64 x86_64_SYS [x86_64_SYS ''clone''] = Inr F"
    by (simp add: build_whitelist_filter_def MAX_WHITELIST_SIZE_def Let_def)
  have special: "distinct (map (nr_of x86_64_SYS) special_syscalls)"
    by (simp add: special_syscalls_def nr_of_def x86_64_special_numbers)
  have "bpf_run F ?d 0 0 = Some (whitelist_policy X86_64 x86_64_SYS [x86_64_SYS ''clone''] ?d)"
    by (rule bpf.whitelist_filter_verdict [OF F]) simp
  also have "whitelist_policy X86_64 x86_64_SYS [x86_64_SYS ''clone''] ?d = SECCOMP_RET_ALLOW"
    by (simp add: whitelist_policy_def clone_policy_def x86_64_special_numbers arg_lo_def
        lo32_def BLOCKED_CLONE_FLAGS_def CLONE_NEWNS_def CLONE_NEWCGROUP_def CLONE_NEWUTS_def
        CLONE_NEWIPC_def CLONE_NEWUSER_def CLONE_NEWPID_def CLONE_NEWNET_def)
  finally have allowed: "bpf_run F ?d 0 0 = Some SECCOMP_RET_ALLOW" .
  have "arg_lo ?d 0 AND BLOCKED_CLONE_FLAGS = 0"
    using whitelist_filter_allows_only [OF bpf.bpf_machine_axioms F _ special allowed]
    by (simp add: nr_of_def x86_64_special_numbers)
  with F allowed show ?thesis by (auto simp: Let_def)
qed

text \<open>The emitted programs pass the kernel's checks: known opcodes, aligned loads inside
  \<open>seccomp_data\<close>, every jump lands inside the program although offsets are cast to
  \<open>u8\<close>, the last instruction returns, and the length survives the cast to \<open>u16\<close>.\<close>

theorem filters_well_formed:
  "(build_whitelist_filter tgt SYS syscalls = Inr F \<longrightarrow>
      valid_filter F \<and> length F = length syscalls + 28
      \<and> unat (of_nat (length F) :: u16) = length F)
   \<and> (build_notify_filter tgt syscalls = Inr G \<longrightarrow>
      valid_filter G \<and> length G = length syscalls + 6
      \<and> unat (of_nat (length G) :: u16) = length G)"
proof (intro conjI impI)
  assume "build_whitelist_filter tgt SYS syscalls = Inr F"
  then have n: "length syscalls \<le> 200"
    and F: "F = arch_check tgt SECCOMP_RET_KILL_PROCESS @ special_checks SYS (length syscalls)
        @ list_checks syscalls @ whitelist_verdicts @ clone_handler @ socket_handler
        @ ioctl_handler"
    by (auto simp: build_whitelist_filter_def Let_def MAX_WHITELIST_SIZE_def split: if_splits)
  show len: "length F = length syscalls + 28" by (simp add: F)
  show "valid_filter F"
    using n
    by (simp add: valid_filter_def F jumps_within_append arch_check_jumps special_checks_jumps
        list_checks_jumps handlers_jumps) (simp add: ioctl_handler_def opcode_values)
  show "unat (of_nat (length F) :: u16) = length F"
    using n len by (simp only: unat_of_nat_u16)
next
  assume "build_notify_filter tgt syscalls = Inr G"
  then have n: "length syscalls \<le> 200"
    and G: "G = arch_check tgt SECCOMP_RET_ALLOW @ list_checks syscalls @ notify_verdicts"
    by (auto simp: build_notify_filter_def MAX_WHITELIST_SIZE_def split: if_splits)
  show len: "length G = length syscalls + 6" by (simp add: G)
  show "valid_filter G"
    using n
    by (simp add: valid_filter_def G jumps_within_append arch_check_jumps
        list_checks_jumps handlers_jumps) (simp add: notify_verdicts_def opcode_values)
  show "unat (of_nat (length G) :: u16) = length G"
    using n len by (simp only: unat_of_nat_u16)
qed

theorem filters_well_formed_witness:
  "\<exists>F G. build_whitelist_filter Aarch64 x86_64_SYS [5] = Inr F \<and> valid_filter F
      \<and> length F = 29 \<and> build_notify_filter Aarch64 [5] = Inr G \<and> valid_filter G"
proof -
  obtain F where F: "build_whitelist_filter Aarch64 x86_64_SYS [5] = Inr F"
    by (simp add: build_whitelist_filter_def MAX_WHITELIST_SIZE_def Let_def)
  obtain G where G: "build_notify_filter Aarch64 [5] = Inr G"
    by (simp add: build_notify_filter_def MAX_WHITELIST_SIZE_def)
  show ?thesis
    using F G filters_well_formed [of Aarch64 x86_64_SYS "[5]" F G] by auto
qed

text \<open>C4: the default whitelist never makes the builder panic, and its filter kills the
  process on each of the system calls the code and the security model call blocked, with any
  arguments, given only that libc numbers different calls differently.\<close>

lemma default_whitelist_not_blocked:
  assumes "libc_table tgt SYS" and "name \<in> set blocked_syscalls"
  shows "nr_of SYS name \<notin> ucast ` set (default_whitelist tgt SYS)"
    and "nr_of SYS name \<notin> nr_of SYS ` set special_syscalls"
proof -
  let ?wl = "set (BASE_WHITELIST @ LEGACY_WHITELIST tgt)"
  have sub: "?wl \<subseteq> set (BASE_WHITELIST @ LEGACY_WHITELIST X86_64)"
    by (cases tgt) (auto simp del: LEGACY_WHITELIST.simps(1))
  with whitelist_excludes_blocked assms(2) have "name \<notin> ?wl" by blast
  moreover have "?wl \<subseteq> set (known_syscalls tgt)" "set special_syscalls \<subseteq> set (known_syscalls tgt)"
    "name \<in> set (known_syscalls tgt)"
    using assms(2) by (auto simp: known_syscalls_def)
  ultimately have "nr_of SYS name \<notin> nr_of SYS ` ?wl"
    using assms(1) unfolding libc_table_def by (simp add: inj_on_image_mem_iff del: set_append)
  then show "nr_of SYS name \<notin> ucast ` set (default_whitelist tgt SYS)"
    by (simp add: default_whitelist_def image_image image_Un nr_of_def)
  have "name \<notin> set special_syscalls" using special_excludes_blocked assms(2) by blast
  then show "nr_of SYS name \<notin> nr_of SYS ` set special_syscalls"
    using assms(1) \<open>set special_syscalls \<subseteq> _\<close> \<open>name \<in> set (known_syscalls tgt)\<close>
    unfolding libc_table_def by (simp add: inj_on_image_mem_iff)
qed



text \<open>C8: the two stacked filters. A system call the whitelist filter kills or answers with
  \<open>ENOSYS\<close> stays killed or answered; every other call goes to the supervisor exactly when
  its number is in the notify list, and is allowed otherwise.\<close>

theorem stacked_filters_verdict:
  assumes "seccomp_stack run strictest"
    and F: "build_whitelist_filter tgt SYS syscalls = Inr F"
    and G: "build_notify_filter tgt notified = Inr G"
    and six: "has_six_args d"
  shows "\<exists>v w. run F d 0 0 = Some v \<and> run G d 0 0 = Some w
     \<and> strictest w v =
         (if whitelist_policy tgt SYS syscalls d = SECCOMP_RET_ALLOW
          then notify_policy tgt notified d
          else whitelist_policy tgt SYS syscalls d)"
proof -
  have m: "bpf_machine run" using assms(1) by (rule seccomp_stack.axioms(1))
  have v: "run F d 0 0 = Some (whitelist_policy tgt SYS syscalls d)"
    by (rule bpf_machine.whitelist_filter_verdict [OF m F six])
  have w: "run G d 0 0 = Some (notify_policy tgt notified d)"
    by (rule bpf_machine.notify_filter_verdict [OF m G])
  have "strictest (notify_policy tgt notified d) (whitelist_policy tgt SYS syscalls d) =
      (if whitelist_policy tgt SYS syscalls d = SECCOMP_RET_ALLOW
       then notify_policy tgt notified d else whitelist_policy tgt SYS syscalls d)"
    using whitelist_policy_cases [of tgt SYS syscalls d] notify_policy_cases [of tgt notified d]
      seccomp_stack.strictest_left [OF assms(1)] seccomp_stack.strictest_right [OF assms(1)]
      seccomp_stack.strictest_same [OF assms(1)] action_prios
    by (auto intro: order.strict_trans)
  with v w show ?thesis by blast
qed

theorem stacked_filters_verdict_witness:
  "\<exists>F G. build_whitelist_filter X86_64 x86_64_SYS [257, 0] = Inr F
     \<and> build_notify_filter X86_64 [257] = Inr G
     \<and> (\<exists>v w. bpf_run F (default_seccomp_data\<lparr>sd_nr := 257, sd_arch := 0xc000003e\<rparr>) 0 0 = Some v
          \<and> bpf_run G (default_seccomp_data\<lparr>sd_nr := 257, sd_arch := 0xc000003e\<rparr>) 0 0 = Some w
          \<and> min_action w v = SECCOMP_RET_USER_NOTIF)"
proof -
  obtain F where F: "build_whitelist_filter X86_64 x86_64_SYS [257, 0] = Inr F"
    by (simp add: build_whitelist_filter_def MAX_WHITELIST_SIZE_def Let_def)
  obtain G where G: "build_notify_filter X86_64 [257] = Inr G"
    by (simp add: build_notify_filter_def MAX_WHITELIST_SIZE_def)
  show ?thesis
    using F G stacked_filters_verdict [OF stack.seccomp_stack_axioms F G,
        of "default_seccomp_data\<lparr>sd_nr := 257, sd_arch := 0xc000003e\<rparr>"]
    by (simp add: whitelist_policy_def notify_policy_def x86_64_special_numbers
        default_seccomp_data_def has_six_args_def)
qed

text \<open>The builders fail exactly on lists of more than 200 numbers, where an offset could
  leave the range of \<open>u8\<close>; they never return a truncated program.\<close>

theorem filter_builders_panic_iff:
  "((\<exists>p. build_whitelist_filter tgt SYS syscalls = Inl p) \<longleftrightarrow> 200 < length syscalls)
   \<and> ((\<exists>p. build_notify_filter tgt syscalls = Inl p) \<longleftrightarrow> 200 < length syscalls)"
  by (auto simp: build_whitelist_filter_def build_notify_filter_def MAX_WHITELIST_SIZE_def Let_def)

end
