(* ===== verification/Sandbox_Guarantees.thy ===== *)
theory Sandbox_Guarantees
  imports Parent_Guarantees Seccomp_Guarantees
begin

text \<open>
  The parts put together: what is in force at the moment the program of a sandbox is executed. The
  order of the calls comes from the child (\<open>Child_Guarantees\<close>), the meaning of the filter from the
  machine of the kernel (\<open>Seccomp_Guarantees\<close>), the Landlock rules from \<open>Lockdown_Guarantees\<close>.
\<close>

unbundle bit_operations_syntax

text \<open>What a call must be to get through the filter of a plan.\<close>

definition call_allowed :: "host \<Rightarrow> plan \<Rightarrow> seccomp_data \<Rightarrow> bool" where
  "call_allowed host p d \<longleftrightarrow>
     (let SYS = h_sysno host; nr = sd_nr d in
      sd_arch d = AUDIT_ARCH (h_target host)
      \<and> nr \<noteq> nr_of SYS ''clone3''
      \<and> (nr = nr_of SYS ''clone'' \<longrightarrow> arg_lo d 0 AND BLOCKED_CLONE_FLAGS = 0)
      \<and> (nr = nr_of SYS ''socket'' \<longrightarrow> arg_lo d 0 \<noteq> AF_NETLINK \<and> arg_lo d 1 AND 0xF \<noteq> SOCK_RAW)
      \<and> (nr = nr_of SYS ''ioctl'' \<longrightarrow> arg_lo d 1 \<notin> {TIOCSTI, TIOCSETD, TIOCLINUX})
      \<and> (nr \<notin> nr_of SYS ` set special_syscalls \<longrightarrow>
           nr \<in> ucast ` set (effective_whitelist (h_target host) SYS (h_hash_order host) p)))"

text \<open>The kernel has accepted a program that allows only such calls.\<close>

definition filtered :: "host \<Rightarrow> plan \<Rightarrow> hist \<Rightarrow> bool" where
  "filtered host p u \<longleftrightarrow>
     (\<exists>prog s. (Attr (SetFilter 0 prog), s) \<in> set u \<and> ans_ret s = 0
        \<and> (\<forall>d. has_six_args d \<longrightarrow> bpf_run (take (unat (fp_len prog)) (fp_filter prog)) d 0 0 = Some SECCOMP_RET_ALLOW
              \<longrightarrow> call_allowed host p d))"

text \<open>Every rule a run of lockdown added is one of the grants of the plan; where the kernel has Landlock,
  the ruleset is enforced; and every grant that lets files be changed is for a directory of the
  workspace or for \<open>/dev\<close>.\<close>

definition grants_enforced :: "plan \<Rightarrow> hist \<Rightarrow> bool" where
  "grants_enforced p ld \<longleftrightarrow>
     (\<exists>root extra. rules_from (grants p root extra) ld
        \<and> ((\<exists>v. (Ll LandlockVersion, v) \<in> set ld \<and> ans_ret v < 0)
            \<or> (\<exists>fd r. (Ll (LandlockRestrict fd), r) \<in> set ld \<and> 0 \<le> ans_ret r))
        \<and> (\<forall>(q, a) \<in> grants p root extra. a AND modify_rights \<noteq> 0 \<longrightarrow>
             q \<in> {path_join root ''work'', path_join root ''tmp'', path_join root ''home''} \<or> q = ''/dev''))"

definition landlocked :: "plan \<Rightarrow> hist \<Rightarrow> bool" where
  "landlocked p u \<longleftrightarrow> (\<exists>before ld after. u = before @ ld @ after \<and> grants_enforced p ld)"

definition limited :: "plan \<Rightarrow> hist \<Rightarrow> bool" where
  "limited p u \<longleftrightarrow> (\<forall>(r, l) \<in> set (limits p). \<exists>a. (Attr (Setrlimit r l), a) \<in> set u \<and> ans_ret a = 0)"

definition in_force :: "host \<Rightarrow> plan \<Rightarrow> hist \<Rightarrow> bool" where
  "in_force host p u \<longleftrightarrow>
     (\<exists>n. (Attr PrSetNoNewPrivs, n) \<in> set u \<and> ans_ret n = 0)
     \<and> landlocked p u \<and> limited p u \<and> filtered host p u
     \<and> (\<forall>cap < 64. \<exists>b. (Attr (PrCapbsetDrop cap), b) \<in> set u)"

text \<open>\<open>sandboxed host p t\<close>: a program executed in \<open>t\<close> is the only one, is the command of the plan, and is
  executed in the child of a fork that has put everything in force for itself.\<close>

definition sandboxed :: "host \<Rightarrow> plan \<Rightarrow> hist \<Rightarrow> bool" where
  "sandboxed host p t \<longleftrightarrow> (\<forall>u c a v. t = u @ (c, a) # v \<longrightarrow> is_exec c \<longrightarrow>
     no_exec u \<and> no_exec v \<and> (\<exists>info. execs_command p info c)
     \<and> (\<exists>b f w. u = b @ (Proc Fork, f) # w \<and> ans_ret f = 0 \<and> in_force host p w))"

lemma whitelist_filter_length:
  assumes "build_whitelist_filter tgt SYS syscalls = Inr F"
  shows "take (unat (of_nat (length F) :: u16)) F = F"
proof -
  have "length F < 2 ^ 16"
    using assms by (auto simp: build_whitelist_filter_def MAX_WHITELIST_SIZE_def Let_def arch_check_def special_checks_def
        list_checks_def whitelist_verdicts_def clone_handler_def socket_handler_def ioctl_handler_def split: if_splits)
  then show ?thesis by (simp add: unat_of_nat)
qed

lemma confined_filtered:
  assumes "confined (h_target host) (h_sysno host) (h_hash_order host) ws p info pre"
    and "distinct (map (nr_of (h_sysno host)) special_syscalls)"
  shows "filtered host p pre"
proof -
  obtain sf x y where pre: "pre = x @ sf @ y"
    and "filter_installed (h_target host) (h_sysno host) (h_hash_order host) p sf"
    using assms(1) unfolding confined_def by (metis append.assoc)
  then obtain F n s where F: "build_whitelist_filter (h_target host) (h_sysno host)
      (effective_whitelist (h_target host) (h_sysno host) (h_hash_order host) p) = Inr F"
    and sf: "sf = [(Attr PrSetNoNewPrivs, n), (Attr (SetFilter 0 (filter_prog F)), s)]" "ans_ret s = 0"
    unfolding filter_installed_def by blast
  have s: "(Attr (SetFilter 0 (filter_prog F)), s) \<in> set pre" "ans_ret s = 0"
    using sf by (simp_all add: pre)
  have "call_allowed host p d" if "has_six_args d"
    "bpf_run (take (unat (fp_len (filter_prog F))) (fp_filter (filter_prog F))) d 0 0 = Some SECCOMP_RET_ALLOW" for d
    using that(2) bpf.whitelist_filter_verdict [OF F that(1), of 0] policy_allows_only [OF _ assms(2)]
      whitelist_filter_length [OF F]
    by (simp add: call_allowed_def Let_def filter_prog_def)
  with s show ?thesis unfolding filtered_def by blast
qed

lemma confined_landlocked:
  assumes "confined tgt SYS ho ws p info pre"
  shows "landlocked p pre"
proof -
  let ?G = "grants p (ws_root ws) (extra_paths info)"
  obtain before ld after where pre: "pre = before @ ld @ after"
    and ld: "locked_down p (ws_root ws) (extra_paths info) ld"
    using assms unfolding confined_def by blast
  have G: "q \<in> {path_join (ws_root ws) ''work'', path_join (ws_root ws) ''tmp'', path_join (ws_root ws) ''home''}
      \<or> q = ''/dev''" if "(q, a) \<in> ?G" "a AND modify_rights \<noteq> 0" for q a
    using grants_cases [OF that(1)] that(2) by (auto simp: modify_rights_value)
  have "(\<exists>v. (Ll LandlockVersion, v) \<in> set ld \<and> ans_ret v < 0)
      \<or> (\<exists>fd r. (Ll (LandlockRestrict fd), r) \<in> set ld \<and> 0 \<le> ans_ret r)"
  proof -
    obtain a ll rl caps where "ld = [(Attr PrSetNoNewPrivs, a)] @ ll @ rl @ caps" "landlock_enforced p ll"
      using ld unfolding locked_down_def by blast
    then have ll: "set ll \<subseteq> set ld" "landlock_enforced p ll" by auto
    from ll(2) have "(\<exists>v. (Ll LandlockVersion, v) \<in> set ll \<and> ans_ret v < 0)
      \<or> (\<exists>fd r. (Ll (LandlockRestrict fd), r) \<in> set ll \<and> 0 \<le> ans_ret r)"
      unfolding landlock_enforced_def by (elim disjE exE conjE) (rule disjI1, force, rule disjI2, force)
    with ll(1) show ?thesis by blast
  qed
  moreover have "rules_from ?G ld" using ld by (simp add: locked_down_def)
  ultimately show ?thesis
    unfolding landlocked_def grants_enforced_def pre using G by blast
qed

lemma confined_limited:
  assumes "confined tgt SYS ho ws p info pre"
  shows "limited p pre" "(\<exists>n. (Attr PrSetNoNewPrivs, n) \<in> set pre \<and> ans_ret n = 0)"
    "\<forall>cap < 64. \<exists>b. (Attr (PrCapbsetDrop cap), b) \<in> set pre"
proof -
  obtain before after a ll rl caps where pre: "pre = before @ ((Attr PrSetNoNewPrivs, a) # ll @ rl @ caps) @ after"
    and ld: "ans_ret a = 0" "limits_set p rl" "caps_dropped caps"
    using assms unfolding confined_def locked_down_def by auto
  have "\<exists>b. (Attr (Setrlimit r l), b) \<in> set rl \<and> ans_ret b = 0" if "(r, l) \<in> set (limits p)" for r l
  proof -
    have "Attr (Setrlimit r l) \<in> set (map fst rl)"
      using ld(2) that unfolding limits_set_def by force
    then obtain b where "(Attr (Setrlimit r l), b) \<in> set rl" by auto
    then show ?thesis using ld(2) unfolding limits_set_def by fastforce
  qed
  moreover have "\<exists>b. (Attr (PrCapbsetDrop cap), b) \<in> set caps" if "cap < 64" for cap
  proof -
    have "Attr (PrCapbsetDrop cap) \<in> set (map fst caps)"
      using ld(3) that unfolding caps_dropped_def by simp
    then show ?thesis by force
  qed
  ultimately have "\<forall>(r, l) \<in> set (limits p). \<exists>b. (Attr (Setrlimit r l), b) \<in> set pre \<and> ans_ret b = 0"
    "\<forall>cap < 64. \<exists>b. (Attr (PrCapbsetDrop cap), b) \<in> set pre"
    unfolding pre by (fastforce, simp, blast)
  moreover have "(Attr PrSetNoNewPrivs, a) \<in> set pre" by (simp add: pre)
  ultimately show "limited p pre" "(\<exists>n. (Attr PrSetNoNewPrivs, n) \<in> set pre \<and> ans_ret n = 0)"
    "\<forall>cap < 64. \<exists>b. (Attr (PrCapbsetDrop cap), b) \<in> set pre"
    using ld(1) unfolding limited_def by blast+
qed

lemma later:
  "landlocked p u \<Longrightarrow> landlocked p (z @ u)" "limited p u \<Longrightarrow> limited p (z @ u)"
  "filtered host p u \<Longrightarrow> filtered host p (z @ u)"
proof -
  show "landlocked p u \<Longrightarrow> landlocked p (z @ u)"
    unfolding landlocked_def by (metis append.assoc)
  show "limited p u \<Longrightarrow> limited p (z @ u)" unfolding limited_def by fastforce
  show "filtered host p u \<Longrightarrow> filtered host p (z @ u)" unfolding filtered_def by fastforce
qed

text \<open>Only one place of a history can hold its only program.\<close>

lemma exec_place:
  "x @ (c, a) # y = u @ (c', a') # v \<Longrightarrow> no_exec x \<Longrightarrow> no_exec y \<Longrightarrow> is_exec c' \<Longrightarrow>
     u = x \<and> c' = c \<and> a' = a \<and> v = y"
proof (induction x arbitrary: u)
  case Nil
  then show ?case by (cases u) auto
next
  case (Cons e x)
  then show ?case by (cases u) auto
qed

lemma guarded_sandboxed:
  assumes "guarded host p t" and "distinct (map (nr_of (h_sysno host)) special_syscalls)"
  shows "sandboxed host p t"
proof (cases "no_exec t")
  case True
  then show ?thesis by (auto simp: sandboxed_def)
next
  case False
  then obtain b f w where w: "t = b @ (Proc Fork, f) # w" "no_exec b" "ans_ret f = 0" "\<not> no_exec w"
      "guarded_child host p w"
    using assms(1) unfolding guarded_def by auto
  then obtain cl pre c a y ws info where cl: "w = cl @ pre @ (c, a) # y" "no_exec cl" "no_exec pre" "no_exec y"
    and pre: "confined (h_target host) (h_sysno host) (h_hash_order host) ws p info pre"
    and c: "execs_command p info c"
    unfolding guarded_child_def by blast
  define x where "x = b @ (Proc Fork, f) # cl @ pre"
  have t: "t = x @ (c, a) # y" "no_exec x"
    using w(1,2) cl by (simp_all add: x_def)
  have force: "in_force host p (cl @ pre)"
    using confined_limited [OF pre] confined_filtered [OF pre assms(2)] confined_landlocked [OF pre]
    unfolding in_force_def by (simp add: later) blast
  show ?thesis
    unfolding sandboxed_def
  proof (intro allI impI)
    fix u c' a' v assume "t = u @ (c', a') # v" "is_exec c'"
    from exec_place [OF this(1) [unfolded t(1)] t(2) cl(4) this(2)] have "u = x" "c' = c" "v = y" by simp_all
    with force c t(2) cl(4) w(3) show "no_exec u \<and> no_exec v \<and> (\<exists>info. execs_command p info c')
       \<and> (\<exists>b f w. u = b @ (Proc Fork, f) # w \<and> ans_ret f = 0 \<and> in_force host p w)"
      unfolding x_def by blast
  qed
qed



end
