(* ===== verification/Virtual_Fs.thy ===== *)
theory Virtual_Fs
  imports Std_Path
begin

text \<open>
  \<open>notify/virtual_fs.rs\<close>: the translation of the child's paths to host paths.
\<close>

type_synonym virtual_fs = "(path \<times> path) list"

definition vfs_new :: "path \<Rightarrow> virtual_fs" where
  "vfs_new workspace_root =
     [(''/work'', path_join workspace_root ''work''),
      (''/tmp'', path_join workspace_root ''tmp''),
      (''/home'', path_join workspace_root ''home'')]"

definition vfs_empty :: virtual_fs where
  "vfs_empty = []"

definition add_mapping :: "virtual_fs \<Rightarrow> path \<Rightarrow> path \<Rightarrow> virtual_fs" where
  "add_mapping vfs virtual_path real_path = vfs @ [(virtual_path, real_path)]"

fun translate :: "virtual_fs \<Rightarrow> path \<Rightarrow> path option" where
  "translate [] p = None"
| "translate ((virtual_prefix, real_prefix) # vfs) p =
    (case strip_prefix p virtual_prefix of
       Some sfx \<Rightarrow> Some (path_join real_prefix sfx)
     | None \<Rightarrow> translate vfs p)"

definition system_prefixes :: "path list" where
  "system_prefixes = [''/usr'', ''/bin'', ''/lib'', ''/lib64'', ''/etc'', ''/proc'', ''/dev'']"

definition is_allowed :: "virtual_fs \<Rightarrow> path \<Rightarrow> bool" where
  "is_allowed vfs p \<longleftrightarrow>
     list_ex (\<lambda>m. path_starts_with p (fst m)) vfs
     \<or> list_ex (\<lambda>q. path_starts_with p q) system_prefixes"

section \<open>Lemmas on stripping a prefix\<close>

lemma split_Cons_nosep: "c \<notin> set w \<Longrightarrow> split_char c w = [w]"
  by (induction w) auto

lemma split_append_nosep:
  "c \<notin> set w \<Longrightarrow> split_char c (w @ c # ys) = w # split_char c ys"
  by (simp add: split_char_append split_Cons_nosep)

lemma split_join:
  assumes "ws \<noteq> []" "\<forall>w \<in> set ws. c \<notin> set w"
  shows "split_char c (join_with [c] ws) = ws"
  using assms
proof (induction "[c]" ws rule: join_with.induct)
  case (3 w v ws)
  then show ?case by (simp add: split_append_nosep)
qed (auto simp: split_Cons_nosep)

lemma body_components_Cons:
  "body_components (s # ss) = (if skipped s then [] else [seg_component s]) @ body_components ss"
  by (simp add: body_components_def)

lemma body_drop_segments:
  "body_components (drop_segments n ss) = drop n (body_components ss)"
proof (induction n ss rule: drop_segments.induct)
  case (2 n s ss)
  then show ?case by (cases n) (auto simp: body_components_Cons)
qed (simp add: body_components_def)

lemma trim_right_split: "\<exists>t. ss = trim_right ss @ t \<and> list_all skipped t"
proof -
  have "ss = trim_right ss @ rev (takeWhile skipped (rev ss))"
    unfolding trim_right_def rev_append [symmetric] takeWhile_dropWhile_id by simp
  moreover have "list_all skipped (rev (takeWhile skipped (rev ss)))"
    by (auto simp: list_all_iff dest: set_takeWhileD)
  ultimately show ?thesis by blast
qed

lemma body_all_skipped: "list_all skipped t \<Longrightarrow> body_components t = []"
  by (auto simp: body_components_def list_all_iff filter_empty_conv)

lemma body_trim_right: "body_components (trim_right ss) = body_components ss"
proof -
  obtain t where t: "ss = trim_right ss @ t" "list_all skipped t" using trim_right_split by blast
  have "body_components ss = body_components (trim_right ss) @ body_components t"
    by (subst t(1)) simp
  then show ?thesis using body_all_skipped [OF t(2)] by simp
qed

lemma drop_segments_set: "set (drop_segments n ss) \<subseteq> set ss"
  by (induction n ss rule: drop_segments.induct) (auto split: nat.splits)

lemma drop_segments_hd: "drop_segments n ss = s # ts \<Longrightarrow> \<not> skipped s"
  by (induction n ss rule: drop_segments.induct) (auto split: if_splits nat.splits)

lemma trim_right_set: "set (trim_right ss) \<subseteq> set ss"
  by (auto simp: trim_right_def dest: set_dropWhileD)

lemma trim_right_hd: "trim_right (s # ss) = r # rs \<Longrightarrow> r = s"
proof -
  assume a: "trim_right (s # ss) = r # rs"
  obtain t where "s # ss = trim_right (s # ss) @ t" using trim_right_split by blast
  with a show "r = s" by simp
qed

lemma join_absolute:
  assumes "ss \<noteq> []" "hd ss \<noteq> []" "slash \<notin> set (hd ss)"
  shows "\<not> is_absolute (join_with [slash] ss)"
proof -
  obtain c cs ss' where "ss = (c # cs) # ss'" using assms by (cases ss; cases "hd ss") auto
  with assms(3) show ?thesis by (cases ss') (auto simp: is_absolute_def)
qed

text \<open>What is left after stripping an absolute prefix: a relative path with the remaining
  components.\<close>

lemma strip_prefix_absolute:
  assumes "is_absolute q" and "strip_prefix p q = Some sfx"
  shows "\<not> is_absolute sfx
    \<and> prefix (components q) (components p)
    \<and> components p = components q @ body_components (segments sfx)"
proof -
  let ?n = "length (filter in_body (components q))"
  let ?ss = "trim_right (drop_segments ?n (segments p))"
  have q: "components q = RootDir # body_components (segments q)"
    using assms(1) by (simp add: components_def)
  have pre: "prefix (components q) (components p)" and sfx: "sfx = join_with [slash] ?ss"
    using assms(2) q by (auto simp: strip_prefix_def path_starts_with_def split: if_splits)
  have p: "components p = RootDir # body_components (segments p)"
  proof -
    have "RootDir \<in> set (components p)" using set_mono_prefix [OF pre] q by auto
    then show ?thesis by (auto simp: components_def split: if_splits)
  qed
  have n: "?n = length (body_components (segments q))"
    using body_no_root [of "segments q"]
    by (auto simp: q in_body_def intro!: arg_cong [of _ _ length] filter_True)
  have body: "body_components ?ss = drop ?n (body_components (segments p))"
    by (simp add: body_trim_right body_drop_segments)
  have seg: "\<forall>w \<in> set ?ss. slash \<notin> set w"
    using trim_right_set drop_segments_set split_no_sep unfolding segments_def by fastforce
  have rest: "body_components (segments sfx) = body_components ?ss"
  proof (cases "?ss = []")
    case True
    then show ?thesis by (simp add: sfx body_components_def skipped_def)
  next
    case False
    then have "split_char slash (join_with [slash] ?ss) = ?ss" using seg by (rule split_join)
    then have "segments sfx = ?ss" unfolding sfx by (subst segments_def)
    then show ?thesis by simp
  qed
  have "\<not> is_absolute sfx"
  proof (cases "?ss = []")
    case True
    then show ?thesis by (simp add: sfx is_absolute_def)
  next
    case False
    then obtain s ts where d: "drop_segments ?n (segments p) = s # ts"
      by (cases "drop_segments ?n (segments p)") (auto simp: trim_right_def)
    moreover have "hd ?ss = s" using False trim_right_hd unfolding d by (metis list.collapse)
    ultimately have "hd ?ss \<noteq> []" using drop_segments_hd [OF d] by (auto simp: skipped_def)
    then show ?thesis using False seg unfolding sfx by (intro join_absolute) auto
  qed
  moreover have "components p = components q @ body_components (segments sfx)"
    using pre unfolding rest body unfolding n by (auto simp: p q prefix_def)
  ultimately show ?thesis using pre by blast
qed

lemma strip_prefix_None:
  "strip_prefix p q = None \<longleftrightarrow> \<not> prefix (components q) (components p)"
  by (simp add: strip_prefix_def path_starts_with_def)

text \<open>A translated path is the real prefix of the first matching mapping, followed by the
  components below the virtual prefix.\<close>

lemma translate_components:
  assumes "\<forall>m \<in> set vfs. is_absolute (fst m) \<and> snd m \<noteq> []"
  shows "case translate vfs p of
      None \<Rightarrow> \<forall>m \<in> set vfs. \<not> prefix (components (fst m)) (components p)
    | Some q \<Rightarrow> \<exists>v r rest. (v, r) \<in> set vfs \<and> components p = components v @ rest
        \<and> components q = components r @ rest"
  using assms
proof (induction vfs p rule: translate.induct)
  case (1 p)
  then show ?case by simp
next
  case (2 v r vfs p)
  show ?case
  proof (cases "strip_prefix p v")
    case None
    with 2 have IH: "case translate vfs p of
      None \<Rightarrow> \<forall>m \<in> set vfs. \<not> prefix (components (fst m)) (components p)
    | Some q \<Rightarrow> \<exists>v r rest. (v, r) \<in> set vfs \<and> components p = components v @ rest
        \<and> components q = components r @ rest" by simp
    show ?thesis
      using IH None strip_prefix_None [of p v]
      by (cases "translate vfs p") (simp_all, blast)
  next
    case (Some sfx)
    with 2 have sfx: "\<not> is_absolute sfx" "components p = components v @ body_components (segments sfx)"
      using strip_prefix_absolute by auto
    moreover have "components (path_join r sfx) = components r @ body_components (segments sfx)"
      using 2 sfx by (intro components_join) auto
    ultimately show ?thesis using Some by auto
  qed
qed

lemma path_join_ne: "base \<noteq> [] \<Longrightarrow> path_join base p \<noteq> []"
  by (auto simp: path_join_def is_absolute_def)

lemma vfs_new_ok:
  assumes "root \<noteq> []"
  shows "\<forall>m \<in> set (vfs_new root). is_absolute (fst m) \<and> snd m \<noteq> []"
  using path_join_ne [OF assms] by (simp add: vfs_new_def is_absolute_def)

lemma workspace_prefixes:
  "components ''/work'' = [RootDir, Normal ''work'']"
  "components ''/tmp'' = [RootDir, Normal ''tmp'']"
  "components ''/home'' = [RootDir, Normal ''home'']"
  by (simp_all add: components_def is_absolute_def segments_def body_components_def
      skipped_def seg_component_def)

section \<open>Properties\<close>

text \<open>C28: a path is translated exactly when its first component is \<open>work\<close>, \<open>tmp\<close> or
  \<open>home\<close> below the root; the translation has the components of that directory of the
  workspace followed by the path's remaining components, unchanged.\<close>

theorem translate_replaces_prefix:
  assumes "root \<noteq> []"
  shows "case translate (vfs_new root) p of
      None \<Rightarrow> \<not> (\<exists>d \<in> {''work'', ''tmp'', ''home''}. prefix [RootDir, Normal d] (components p))
    | Some q \<Rightarrow> \<exists>d \<in> {''work'', ''tmp'', ''home''}. \<exists>rest.
        components p = [RootDir, Normal d] @ rest
        \<and> components q = components (path_join root d) @ rest"
proof (cases "translate (vfs_new root) p")
  case None
  with translate_components [OF vfs_new_ok [OF assms], of p] show ?thesis
    by (simp add: vfs_new_def workspace_prefixes)
next
  case (Some q)
  with translate_components [OF vfs_new_ok [OF assms], of p] obtain v r rest
    where m: "(v, r) \<in> set (vfs_new root)" "components p = components v @ rest"
      "components q = components r @ rest"
    by auto
  then have "\<exists>d \<in> {''work'', ''tmp'', ''home''}. components v = [RootDir, Normal d] \<and> r = path_join root d"
    by (auto simp: vfs_new_def workspace_prefixes)
  with m Some show ?thesis by auto
qed

theorem translate_replaces_prefix_witness:
  "\<exists>d \<in> {''work'', ''tmp'', ''home''}. \<exists>rest.
     components ''/work/main.py'' = [RootDir, Normal d] @ rest
     \<and> components ''/tmp/eb/work/main.py'' = components (path_join ''/tmp/eb'' d) @ rest"
proof -
  have "translate (vfs_new ''/tmp/eb'') ''/work/main.py'' = Some ''/tmp/eb/work/main.py''"
    by code_simp
  with translate_replaces_prefix [of "''/tmp/eb''" "''/work/main.py''"] show ?thesis by simp
qed

text \<open>C29: a translated path without \<open>..\<close> denotes a place below one of the three workspace
  directories.\<close>

theorem translate_confined:
  assumes "root \<noteq> []" and "translate (vfs_new root) p = Some q"
    and "ParentDir \<notin> set (components p)"
  shows "\<exists>d \<in> {''work'', ''tmp'', ''home''}. prefix (resolve (path_join root d)) (resolve q)"
proof -
  obtain d rest where d: "d \<in> {''work'', ''tmp'', ''home''}"
    "components p = [RootDir, Normal d] @ rest" "components q = components (path_join root d) @ rest"
    using translate_replaces_prefix [OF assms(1), of p] assms(2) by auto
  have "body_components (segments p) = Normal d # rest"
  proof (cases "is_absolute p")
    case True
    with d(2) show ?thesis by (simp add: components_def)
  next
    case False
    then have "RootDir \<notin> set (components p)" using body_no_root(1) by (simp add: components_def)
    with d(2) show ?thesis by simp
  qed
  then have "RootDir \<notin> set rest" using body_no_root(1) by (metis list.set_intros(2))
  with d assms(3) have "prefix (resolve (path_join root d)) (resolve q)"
    by (simp add: resolve_def resolve_from_append resolve_from_normal)
  with d(1) show ?thesis by blast
qed

theorem translate_confined_witness:
  "\<exists>d \<in> {''work'', ''tmp'', ''home''}.
     prefix (resolve (path_join ''/tmp/eb'' d)) (resolve ''/tmp/eb/home/.bashrc'')"
proof -
  have "translate (vfs_new ''/tmp/eb'') ''/home/.bashrc'' = Some ''/tmp/eb/home/.bashrc''"
    and "ParentDir \<notin> set (components ''/home/.bashrc'')"
    by code_simp+
  from translate_confined [OF _ this] show ?thesis by simp
qed

text \<open>With \<open>..\<close> the translation leaves the workspace: the path the supervisor opens on
  the child's behalf can denote a file outside the workspace root.\<close>

theorem translate_escapes:
  "translate (vfs_new ''/tmp/eb'') ''/work/../../../etc/shadow''
       = Some ''/tmp/eb/work/../../../etc/shadow''
   \<and> resolve ''/tmp/eb/work/../../../etc/shadow'' = [''etc'', ''shadow'']"
  by code_simp

text \<open>Every translated path is an allowed one, and beyond the mappings exactly the system
  prefixes are allowed.\<close>

theorem is_allowed_spec:
  assumes "root \<noteq> []"
  shows "is_allowed (vfs_new root) p \<longleftrightarrow>
     translate (vfs_new root) p \<noteq> None
     \<or> (\<exists>d \<in> {''usr'', ''bin'', ''lib'', ''lib64'', ''etc'', ''proc'', ''dev''}.
           prefix [RootDir, Normal d] (components p))"
proof -
  have sys: "map components system_prefixes =
      map (\<lambda>d. [RootDir, Normal d]) [''usr'', ''bin'', ''lib'', ''lib64'', ''etc'', ''proc'', ''dev'']"
    by (simp add: system_prefixes_def components_def is_absolute_def segments_def
        body_components_def skipped_def seg_component_def)
  have "list_ex (\<lambda>q. path_starts_with p q) system_prefixes \<longleftrightarrow>
      (\<exists>c \<in> set (map components system_prefixes). prefix c (components p))"
    by (simp add: list_ex_iff path_starts_with_def)
  then have s: "list_ex (\<lambda>q. path_starts_with p q) system_prefixes \<longleftrightarrow>
      (\<exists>d \<in> {''usr'', ''bin'', ''lib'', ''lib64'', ''etc'', ''proc'', ''dev''}.
           prefix [RootDir, Normal d] (components p))"
    unfolding sys by simp
  have "list_ex (\<lambda>m. path_starts_with p (fst m)) (vfs_new root) \<longleftrightarrow>
      (\<exists>d \<in> {''work'', ''tmp'', ''home''}. prefix [RootDir, Normal d] (components p))"
    by (simp add: vfs_new_def path_starts_with_def workspace_prefixes)
  also have "\<dots> \<longleftrightarrow> translate (vfs_new root) p \<noteq> None"
    using translate_replaces_prefix [OF assms, of p] by (cases "translate (vfs_new root) p") auto
  finally show ?thesis unfolding is_allowed_def s by blast
qed

theorem is_allowed_spec_witness:
  "is_allowed (vfs_new ''/tmp/eb'') ''/etc/passwd'' \<longleftrightarrow>
     translate (vfs_new ''/tmp/eb'') ''/etc/passwd'' \<noteq> None
     \<or> (\<exists>d \<in> {''usr'', ''bin'', ''lib'', ''lib64'', ''etc'', ''proc'', ''dev''}.
           prefix [RootDir, Normal d] (components ''/etc/passwd''))"
  by (rule is_allowed_spec) simp

end
