(* ===== verification/Supervisor.thy ===== *)
theory Supervisor
  imports Sys_Calls Sandbox_Plan Std_Text Virtual_Fs Syscall_Names
begin

text \<open>
  \<open>notify/supervisor.rs\<close>: the parent's handling of one intercepted system call. \<open>tgt\<close> is the
  compilation target, \<open>SYS\<close> the table of libc's numbers, \<open>dbg\<close> whether debug assertions are
  compiled in.
\<close>

unbundle bit_operations_syntax

section \<open>Data\<close>

text \<open>\<open>NotifyEvent::SyscallHandled\<close>, the only event.\<close>

record notify_event =
  ne_pid :: u32
  ne_syscall_nr :: i32
  ne_allowed :: bool

record supervisor =
  listener_fd :: int
  mode :: notify_mode
  vfs :: virtual_fs

definition new_supervisor :: "int \<Rightarrow> notify_mode \<Rightarrow> virtual_fs \<Rightarrow> supervisor" where
  "new_supervisor fd m v = \<lparr>listener_fd = fd, mode = m, vfs = v\<rparr>"

definition O_CLOEXEC :: i32 where "O_CLOEXEC = 0x80000"

definition handled :: "seccomp_notif \<Rightarrow> notify_event" where
  "handled notif =
     \<lparr>ne_pid = sn_pid notif, ne_syscall_nr = sd_nr (sn_data notif), ne_allowed = True\<rparr>"

definition arg :: "seccomp_notif \<Rightarrow> nat \<Rightarrow> u64" where
  "arg notif i = sd_args (sn_data notif) ! i"

section \<open>Classification of system calls\<close>

definition is_at_syscall :: "sysno \<Rightarrow> i32 \<Rightarrow> bool" where
  "is_at_syscall SYS nr =
     (let nr = scast nr :: i64 in
      nr = SYS ''openat'' \<or> nr = SYS ''newfstatat'' \<or> nr = SYS ''faccessat''
      \<or> nr = SYS ''faccessat2'' \<or> nr = SYS ''readlinkat'')"

definition is_open_syscall :: "target_arch \<Rightarrow> sysno \<Rightarrow> i32 \<Rightarrow> bool" where
  "is_open_syscall tgt SYS nr =
     (let nr = scast nr :: i64 in
      if nr = SYS ''openat'' then True
      else if tgt = X86_64 \<and> (nr = SYS ''open'' \<or> nr = SYS ''creat'') then True
      else False)"

text \<open>The match of \<open>syscall_name\<close>, arm by arm: the second list is compiled on \<open>x86_64\<close> only.\<close>

definition syscall_name :: "target_arch \<Rightarrow> sysno \<Rightarrow> i32 \<Rightarrow> string" where
  "syscall_name tgt SYS nr =
     (let names = [''openat'', ''faccessat'', ''faccessat2'', ''newfstatat'', ''statx'', ''readlinkat'']
            @ (if tgt = X86_64
               then [''open'', ''creat'', ''access'', ''stat'', ''lstat'', ''readlink''] else [])
      in case find (\<lambda>n. SYS n = scast nr) names of Some n \<Rightarrow> n | None \<Rightarrow> ''unknown'')"

section \<open>Replies\<close>

definition respond_continue :: "supervisor \<Rightarrow> seccomp_notif \<Rightarrow> (io_error, unit) io" where
  "respond_continue sv notif =
     io_map_err Os (notif_send (listener_fd sv)
       \<lparr>nr_id = sn_id notif, nr_val = 0, nr_error = 0,
        nr_flags = SECCOMP_USER_NOTIF_FLAG_CONTINUE\<rparr>)"

definition open_and_inject ::
  "supervisor \<Rightarrow> seccomp_notif \<Rightarrow> path \<Rightarrow> i32 \<Rightarrow> (io_error, unit) io" where
  "open_and_inject sv notif real_path flags =
     (if has_nul real_path then io_err (InvalidInput ''invalid path'')
      else io_bind (io_call (Fd (Open real_path (flags AND NOT O_CLOEXEC) 438)))
       (\<lambda>r. if ans_ret r < 0 then io_err (Os (ans_errno r))
            else io_bind (io_try (io_map_err Os (notif_addfd (listener_fd sv)
                     \<lparr>na_id = sn_id notif, na_flags = SECCOMP_ADDFD_FLAG_SEND,
                      na_srcfd = of_int (ans_ret r), na_newfd = 0, na_newfd_flags = 0\<rparr>)))
              (\<lambda>result. io_then (invoke (Fd (Close (ans_ret r))))
                 (io_bind (io_lift result) (\<lambda>_. io_ret ())))))"

text \<open>
  \<open>File::open\<close> adds \<open>O_CLOEXEC\<close>. The file is closed when it goes out of scope, on the error
  paths too.
\<close>

definition with_file :: "path \<Rightarrow> (int \<Rightarrow> (io_error, 'a) io) \<Rightarrow> (io_error, 'a) io" where
  "with_file p f =
     io_bind (io_map_err Os (sys (Fd (Open p O_CLOEXEC 438))))
       (\<lambda>r. io_bind (io_try (f (ans_ret r)))
          (\<lambda>res. io_then (invoke (Fd (Close (ans_ret r)))) (io_lift res)))"

definition read_child_string :: "supervisor \<Rightarrow> u32 \<Rightarrow> u64 \<Rightarrow> (io_error, string) io" where
  "read_child_string sv pid addr =
     with_file (''/proc/'' @ dec (unat pid) @ ''/mem'')
       (\<lambda>file. io_then (io_map_err Os (sys (Fd (Lseek file addr))))
         (io_bind (io_map_err Os (sys (Fd (Read file 4096))))
           (\<lambda>r. let buf = take (nat (ans_ret r)) (ans_data r);
                    buf = takeWhile (\<lambda>b. b \<noteq> 0) buf
                in if utf8_valid buf then io_ret (bytes_to_string buf)
                   else io_err (InvalidData ''invalid UTF-8 in path''))))"

section \<open>Handling one notification\<close>

definition handle_monitor :: "supervisor \<Rightarrow> seccomp_notif \<Rightarrow> (io_error, notify_event option) io" where
  "handle_monitor sv notif =
     io_then (respond_continue sv notif) (io_ret (Some (handled notif)))"

definition path_addr :: "sysno \<Rightarrow> seccomp_notif \<Rightarrow> u64" where
  "path_addr SYS notif =
     (if is_at_syscall SYS (sd_nr (sn_data notif)) then arg notif 1 else arg notif 0)"

definition open_flags :: "sysno \<Rightarrow> seccomp_notif \<Rightarrow> i32" where
  "open_flags SYS notif =
     (if sd_nr (sn_data notif) = ucast (SYS ''openat'') then ucast (arg notif 2)
      else ucast (arg notif 1))"

definition proceed :: "supervisor \<Rightarrow> seccomp_notif \<Rightarrow> (io_error, notify_event option) io" where
  "proceed sv notif = io_then (respond_continue sv notif) (io_ret (Some (handled notif)))"

definition handle_virtualize ::
  "target_arch \<Rightarrow> sysno \<Rightarrow> supervisor \<Rightarrow> seccomp_notif \<Rightarrow> (io_error, notify_event option) io" where
  "handle_virtualize tgt SYS sv notif =
     io_bind (io_try (read_child_string sv (sn_pid notif) (path_addr SYS notif)))
      (\<lambda>r. case r of
         Inl _ \<Rightarrow> io_then (respond_continue sv notif) (io_ret None)
       | Inr p \<Rightarrow>
          io_bind (io_try (notif_id_valid (listener_fd sv) (sn_id notif)))
           (\<lambda>valid. case valid of
              Inl _ \<Rightarrow> io_ret None
            | Inr _ \<Rightarrow>
               (case translate (vfs sv) p of
                  None \<Rightarrow> proceed sv notif
                | Some real_path \<Rightarrow>
                    if is_open_syscall tgt SYS (sd_nr (sn_data notif))
                    then io_bind (io_try (open_and_inject sv notif real_path (open_flags SYS notif)))
                          (\<lambda>res. case res of
                             Inr _ \<Rightarrow> io_ret (Some (handled notif))
                           | Inl _ \<Rightarrow> proceed sv notif)
                    else proceed sv notif)))"

definition handle_event ::
  "bool \<Rightarrow> target_arch \<Rightarrow> sysno \<Rightarrow> supervisor \<Rightarrow> (io_error, notify_event option) io" where
  "handle_event dbg tgt SYS sv =
     io_bind (io_try (notif_recv (listener_fd sv)))
      (\<lambda>r. case r of
         Inl e \<Rightarrow> if e = ENOENT then io_ret None else io_err (Os e)
       | Inr notif \<Rightarrow>
          (case mode sv of
             Disabled \<Rightarrow>
               if dbg then io_err (DebugPanic
                 ''supervisor received notification with NotifyMode::Disabled'')
               else io_then (respond_continue sv notif) (io_ret None)
           | Monitor \<Rightarrow> handle_monitor sv notif
           | Virtualize \<Rightarrow> handle_virtualize tgt SYS sv notif))"

end
