(* ===== verification/Supervisor_Guarantees.thy ===== *)
theory Supervisor_Guarantees
  imports Supervisor
begin

text \<open>
  What the supervisor does with one notification: it is answered at most once and always
  under its own identifier, files are opened only for a validated notification and at the
  translation of the path the child passed, and every descriptor is closed again.
\<close>

unbundle bit_operations_syntax

section \<open>The shape of a run\<close>

definition mem_file :: "seccomp_notif \<Rightarrow> path" where
  "mem_file notif = ''/proc/'' @ dec (unat (sn_pid notif)) @ ''/mem''"

text \<open>A run of \<open>read_child_string\<close>: the file is closed whatever happens to it.\<close>

definition memory_read :: "seccomp_notif \<Rightarrow> u64 \<Rightarrow> io_error + string \<Rightarrow> hist \<Rightarrow> bool" where
  "memory_read notif addr r t \<longleftrightarrow>
     (\<exists>a. t = [(Fd (Open (mem_file notif) O_CLOEXEC 438), a)] \<and> ans_ret a < 0 \<and> (\<exists>e. r = Inl e))
     \<or> (\<exists>a b c. t = [(Fd (Open (mem_file notif) O_CLOEXEC 438), a),
                     (Fd (Lseek (ans_ret a) addr), b), (Fd (Close (ans_ret a)), c)]
          \<and> 0 \<le> ans_ret a \<and> (\<exists>e. r = Inl e))
     \<or> (\<exists>a b d c. t = [(Fd (Open (mem_file notif) O_CLOEXEC 438), a),
                       (Fd (Lseek (ans_ret a) addr), b), (Fd (Read (ans_ret a) 4096), d),
                       (Fd (Close (ans_ret a)), c)]
          \<and> 0 \<le> ans_ret a
          \<and> (\<forall>s. r = Inr s \<longrightarrow> s = bytes_to_string
                (takeWhile (\<lambda>b. b \<noteq> 0) (take (nat (ans_ret d)) (ans_data d)))))"

lemma read_child_string_runs:
  "runs (read_child_string sv (sn_pid notif) addr) K (memory_read notif addr) h"
  unfolding runs_wp read_child_string_def with_file_def Let_def mem_file_def [symmetric]
  by (simp add: wp_rules memory_read_def)

text \<open>A run of \<open>open_and_inject\<close>.\<close>

definition injection :: "supervisor \<Rightarrow> seccomp_notif \<Rightarrow> path \<Rightarrow> i32 \<Rightarrow> io_error + unit \<Rightarrow> hist \<Rightarrow> bool" where
  "injection sv notif q flags r t \<longleftrightarrow>
     t = [] \<and> (\<exists>e. r = Inl e)
     \<or> (\<exists>a. t = [(Fd (Open q (flags AND NOT O_CLOEXEC) 438), a)] \<and> ans_ret a < 0 \<and> (\<exists>e. r = Inl e))
     \<or> (\<exists>a b c inj. t = [(Fd (Open q (flags AND NOT O_CLOEXEC) 438), a),
                         (Nt (NotifAddfd (listener_fd sv) inj), b), (Fd (Close (ans_ret a)), c)]
          \<and> na_id inj = sn_id notif \<and> na_srcfd inj = of_int (ans_ret a) \<and> na_flags inj = SECCOMP_ADDFD_FLAG_SEND
          \<and> 0 \<le> ans_ret a
          \<and> (if ans_ret b < 0 then \<exists>e. r = Inl e else r = Inr ()))"

lemma open_and_inject_runs:
  "runs (open_and_inject sv notif q flags) K (injection sv notif q flags) h"
  unfolding runs_wp open_and_inject_def notif_addfd_def
  by (simp add: wp_rules injection_def)

text \<open>A run of \<open>respond_continue\<close>.\<close>

definition continued :: "supervisor \<Rightarrow> seccomp_notif \<Rightarrow> io_error + unit \<Rightarrow> hist \<Rightarrow> bool" where
  "continued sv notif r t \<longleftrightarrow>
     (\<exists>resp a. t = [(Nt (NotifSend (listener_fd sv) resp), a)]
        \<and> nr_id resp = sn_id notif \<and> nr_flags resp = SECCOMP_USER_NOTIF_FLAG_CONTINUE
        \<and> nr_error resp = 0 \<and> nr_val resp = 0
        \<and> (if ans_ret a < 0 then r = Inl (Os (ans_errno a)) else r = Inr ()))"

lemma respond_continue_runs: "runs (respond_continue sv notif) K (continued sv notif) h"
  unfolding runs_wp respond_continue_def notif_send_def
  by (simp add: wp_rules continued_def)

text \<open>The result of continuing with \<open>x\<close>.\<close>

definition with_result :: "'a \<Rightarrow> io_error + unit \<Rightarrow> io_error + 'a" where
  "with_result x r = (case r of Inl e \<Rightarrow> Inl e | Inr _ \<Rightarrow> Inr x)"

lemma continue_runs:
  assumes "\<And>r t. continued sv notif r t \<Longrightarrow> Q (with_result x r) t"
  shows "runs (io_then (respond_continue sv notif) (io_ret x)) K Q h"
  using assms
  by (intro runs_then [OF respond_continue_runs] runs_ret) (fastforce simp: with_result_def)+

definition opens_path :: "target_arch \<Rightarrow> sysno \<Rightarrow> supervisor \<Rightarrow> seccomp_notif \<Rightarrow> string \<Rightarrow> path \<Rightarrow> bool" where
  "opens_path tgt SYS sv notif p q \<longleftrightarrow>
     translate (vfs sv) p = Some q \<and> is_open_syscall tgt SYS (sd_nr (sn_data notif))"

inductive virtualized ::
  "target_arch \<Rightarrow> sysno \<Rightarrow> supervisor \<Rightarrow> seccomp_notif \<Rightarrow> io_error + notify_event option \<Rightarrow> hist \<Rightarrow> bool"
  for tgt SYS sv notif where
  unreadable: "memory_read notif (path_addr SYS notif) (Inl e) u \<Longrightarrow> continued sv notif r w
     \<Longrightarrow> virtualized tgt SYS sv notif (with_result None r) (u @ w)"
| stale: "memory_read notif (path_addr SYS notif) (Inr p) u \<Longrightarrow> ans_ret v < 0
     \<Longrightarrow> virtualized tgt SYS sv notif (Inr None) (u @ [(Nt (NotifIdValid (listener_fd sv) (sn_id notif)), v)])"
| passed: "memory_read notif (path_addr SYS notif) (Inr p) u \<Longrightarrow> 0 \<le> ans_ret v
     \<Longrightarrow> \<nexists>q. opens_path tgt SYS sv notif p q \<Longrightarrow> continued sv notif r w
     \<Longrightarrow> virtualized tgt SYS sv notif (with_result (Some (handled notif)) r)
           (u @ (Nt (NotifIdValid (listener_fd sv) (sn_id notif)), v) # w)"
| injected: "memory_read notif (path_addr SYS notif) (Inr p) u \<Longrightarrow> 0 \<le> ans_ret v
     \<Longrightarrow> opens_path tgt SYS sv notif p q \<Longrightarrow> injection sv notif q (open_flags SYS notif) (Inr ()) w
     \<Longrightarrow> virtualized tgt SYS sv notif (Inr (Some (handled notif)))
           (u @ (Nt (NotifIdValid (listener_fd sv) (sn_id notif)), v) # w)"
| fell_through: "memory_read notif (path_addr SYS notif) (Inr p) u \<Longrightarrow> 0 \<le> ans_ret v
     \<Longrightarrow> opens_path tgt SYS sv notif p q \<Longrightarrow> injection sv notif q (open_flags SYS notif) (Inl e) w
     \<Longrightarrow> continued sv notif r x
     \<Longrightarrow> virtualized tgt SYS sv notif (with_result (Some (handled notif)) r)
           (u @ (Nt (NotifIdValid (listener_fd sv) (sn_id notif)), v) # w @ x)"

lemma proceed_runs:
  assumes "\<And>r t. continued sv notif r t \<Longrightarrow> Q (with_result (Some (handled notif)) r) t"
  shows "runs (proceed sv notif) K Q h"
  unfolding proceed_def using assms by (rule continue_runs)

lemma id_valid_runs:
  "runs (io_try (notif_id_valid fd nid)) K
     (\<lambda>r t. \<exists>v. t = [(Nt (NotifIdValid fd nid), v)]
        \<and> (if ans_ret v < 0 then r = Inr (Inl (ans_errno v)) else r = Inr (Inr ()))) h"
  unfolding runs_wp notif_id_valid_def by (simp add: wp_rules)

lemma handle_virtualize_runs:
  "runs (handle_virtualize tgt SYS sv notif) K (virtualized tgt SYS sv notif) h"
proof -
  let ?addr = "path_addr SYS notif" and ?V = "virtualized tgt SYS sv notif"
  have inject: "runs (io_bind (io_try (open_and_inject sv notif q (open_flags SYS notif)))
        (\<lambda>res. case res of Inr _ \<Rightarrow> io_ret (Some (handled notif)) | Inl _ \<Rightarrow> proceed sv notif))
      K (\<lambda>r w. ?V r (u @ (Nt (NotifIdValid (listener_fd sv) (sn_id notif)), v) # w)) h'"
    if "memory_read notif ?addr (Inr p) u" "0 \<le> ans_ret v" "opens_path tgt SYS sv notif p q"
    for p q u v h'
    by (rule runs_bind [OF runs_try [where P = "\<lambda>r t. case r of Inl _ \<Rightarrow> False
            | Inr x \<Rightarrow> injection sv notif q (open_flags SYS notif) x t"]])
      (use that in \<open>auto intro!: open_and_inject_runs proceed_runs runs_ret
          intro: injected fell_through split: sum.splits\<close>)
  have valid: "runs (case valid of Inl _ \<Rightarrow> io_ret None
            | Inr _ \<Rightarrow> (case translate (vfs sv) p of
                  None \<Rightarrow> proceed sv notif
                | Some real_path \<Rightarrow>
                    if is_open_syscall tgt SYS (sd_nr (sn_data notif))
                    then io_bind (io_try (open_and_inject sv notif real_path (open_flags SYS notif)))
                          (\<lambda>res. case res of
                             Inr _ \<Rightarrow> io_ret (Some (handled notif))
                           | Inl _ \<Rightarrow> proceed sv notif)
                    else proceed sv notif))
      K (\<lambda>r w. ?V r (u @ (Nt (NotifIdValid (listener_fd sv) (sn_id notif)), v) # w)) h'"
    if "memory_read notif ?addr (Inr p) u"
      "if ans_ret v < 0 then \<exists>e. valid = Inl e else valid = Inr ()" for p u v valid h'
    using that stale [OF that(1)]
    by (auto intro!: inject proceed_runs runs_ret intro: passed simp: opens_path_def
        split: option.splits if_splits)
  show ?thesis
    unfolding handle_virtualize_def
    apply (rule runs_bind [OF runs_try [where P = "\<lambda>r t. case r of Inl _ \<Rightarrow> False
            | Inr x \<Rightarrow> memory_read notif ?addr x t"]])
      apply (auto intro!: read_child_string_runs)[1]
    subgoal for x t
      apply (cases x)
       apply (auto intro!: continue_runs intro: unreadable)[1]
      apply simp
      apply (rule runs_bind [OF id_valid_runs])
       apply (elim exE conjE)
       apply (simp only: append_Cons append_Nil)
       apply (rule valid)
        apply (simp_all split: if_splits)
      done
    apply simp
    done
qed

text \<open>A run of \<open>handle_event\<close>.\<close>

inductive event_handled ::
  "bool \<Rightarrow> target_arch \<Rightarrow> sysno \<Rightarrow> supervisor \<Rightarrow> io_error + notify_event option \<Rightarrow> hist \<Rightarrow> bool"
  for dbg tgt SYS sv where
  no_target: "ans_ret a < 0 \<Longrightarrow> ans_errno a = ENOENT
     \<Longrightarrow> event_handled dbg tgt SYS sv (Inr None) [(Nt (NotifRecv (listener_fd sv)), a)]"
| no_receive: "ans_ret a < 0 \<Longrightarrow> ans_errno a \<noteq> ENOENT
     \<Longrightarrow> event_handled dbg tgt SYS sv (Inl (Os (ans_errno a))) [(Nt (NotifRecv (listener_fd sv)), a)]"
| asserted: "0 \<le> ans_ret a \<Longrightarrow> mode sv = Disabled \<Longrightarrow> dbg
     \<Longrightarrow> event_handled dbg tgt SYS sv (Inl (DebugPanic s)) [(Nt (NotifRecv (listener_fd sv)), a)]"
| disabled: "0 \<le> ans_ret a \<Longrightarrow> mode sv = Disabled \<Longrightarrow> continued sv (notif_fields (ans_vals a)) r t
     \<Longrightarrow> event_handled dbg tgt SYS sv (with_result None r) ((Nt (NotifRecv (listener_fd sv)), a) # t)"
| monitored: "0 \<le> ans_ret a \<Longrightarrow> mode sv = Monitor \<Longrightarrow> continued sv (notif_fields (ans_vals a)) r t
     \<Longrightarrow> event_handled dbg tgt SYS sv (with_result (Some (handled (notif_fields (ans_vals a)))) r)
           ((Nt (NotifRecv (listener_fd sv)), a) # t)"
| virtualizing: "0 \<le> ans_ret a \<Longrightarrow> mode sv = Virtualize
     \<Longrightarrow> virtualized tgt SYS sv (notif_fields (ans_vals a)) r t
     \<Longrightarrow> event_handled dbg tgt SYS sv r ((Nt (NotifRecv (listener_fd sv)), a) # t)"

lemma recv_runs:
  "runs (io_try (notif_recv fd)) K
     (\<lambda>r t. \<exists>a. t = [(Nt (NotifRecv fd), a)]
        \<and> r = Inr (if ans_ret a < 0 then Inl (ans_errno a) else Inr (notif_fields (ans_vals a)))) h"
  unfolding runs_wp notif_recv_def by (simp add: wp_rules)

lemma handle_event_runs: "runs (handle_event dbg tgt SYS sv) K (event_handled dbg tgt SYS sv) h"
proof -
  let ?fd = "listener_fd sv"
  have body: "runs (case r of
         Inl e \<Rightarrow> if e = ENOENT then io_ret None else io_err (Os e)
       | Inr notif \<Rightarrow>
          (case mode sv of
             Disabled \<Rightarrow>
               if dbg then io_err (DebugPanic
                 ''supervisor received notification with NotifyMode::Disabled'')
               else io_then (respond_continue sv notif) (io_ret None)
           | Monitor \<Rightarrow> handle_monitor sv notif
           | Virtualize \<Rightarrow> handle_virtualize tgt SYS sv notif))
      K (\<lambda>r t. event_handled dbg tgt SYS sv r ((Nt (NotifRecv ?fd), a) # t)) h'"
    if r: "r = (if ans_ret a < 0 then Inl (ans_errno a) else Inr (notif_fields (ans_vals a)))"
    for r a h'
  proof (cases "ans_ret a < 0")
    case True
    then show ?thesis
      using r by (auto intro!: runs_ret runs_err intro: no_target no_receive)
  next
    case False
    then have a: "0 \<le> ans_ret a" by simp
    note rules = runs_err runs_ret continue_runs runs_mono [OF handle_virtualize_runs]
    show ?thesis
      using r False a
      by (cases "mode sv"; cases dbg)
        (auto simp: handle_monitor_def intro!: rules
          intro: asserted [OF a] disabled [OF a] monitored [OF a] virtualizing [OF a])
  qed
  show ?thesis
    unfolding handle_event_def
    by (rule runs_bind [OF recv_runs], elim exE conjE, simp only: append_Cons append_Nil,
        rule body, simp_all)
qed

section \<open>Replies\<close>

definition is_reply :: "call \<Rightarrow> bool" where
  "is_reply c \<longleftrightarrow> (case c of Nt (NotifSend _ _) \<Rightarrow> True | Nt (NotifAddfd _ _) \<Rightarrow> True | _ \<Rightarrow> False)"

definition reply_id :: "call \<Rightarrow> u64" where
  "reply_id c = (case c of Nt (NotifSend _ r) \<Rightarrow> nr_id r | Nt (NotifAddfd _ a) \<Rightarrow> na_id a | _ \<Rightarrow> 0)"

definition replies :: "hist \<Rightarrow> hist" where
  "replies t = filter (\<lambda>e. is_reply (fst e) \<and> 0 \<le> ans_ret (snd e)) t"

definition only_replies_to :: "u64 \<Rightarrow> hist \<Rightarrow> bool" where
  "only_replies_to nid t \<longleftrightarrow> (\<forall>e \<in> set t. is_reply (fst e) \<longrightarrow> reply_id (fst e) = nid)"

definition answered :: "'e + 'a \<Rightarrow> nat" where
  "answered r = (case r of Inl _ \<Rightarrow> 0 | Inr _ \<Rightarrow> 1)"

lemma is_reply_simps [simp]:
  "is_reply (Nt (NotifSend fd r))" "is_reply (Nt (NotifAddfd fd a))"
  "\<not> is_reply (Fd c)" "\<not> is_reply (Nt (NotifRecv fd))" "\<not> is_reply (Nt (NotifIdValid fd n))"
  "reply_id (Nt (NotifSend fd r)) = nr_id r" "reply_id (Nt (NotifAddfd fd a)) = na_id a"
  by (simp_all add: is_reply_def reply_id_def)

lemma replies_simps [simp]:
  "replies [] = []" "replies (t @ u) = replies t @ replies u"
  "replies ((c, a) # t) = (if is_reply c \<and> 0 \<le> ans_ret a then [(c, a)] else []) @ replies t"
  "only_replies_to n []"
  "only_replies_to n (t @ u) \<longleftrightarrow> only_replies_to n t \<and> only_replies_to n u"
  "only_replies_to n ((c, a) # t) \<longleftrightarrow> (is_reply c \<longrightarrow> reply_id c = n) \<and> only_replies_to n t"
  by (auto simp: replies_def only_replies_to_def)

lemma memory_read_replies:
  "memory_read notif addr r t \<Longrightarrow> replies t = [] \<and> only_replies_to n t"
  by (auto simp: memory_read_def)

lemma continued_replies:
  "continued sv notif r t \<Longrightarrow> length (replies t) = answered r \<and> only_replies_to (sn_id notif) t"
  by (auto simp: continued_def answered_def split: if_splits)

lemma injection_replies:
  "injection sv notif q flags r t \<Longrightarrow>
     length (replies t) = answered r \<and> only_replies_to (sn_id notif) t"
  by (auto simp: injection_def answered_def split: if_splits)

lemma answered_with_result [simp]: "answered (with_result x r) = answered r"
  by (cases r) (simp_all add: answered_def with_result_def)

lemma answered_simps [simp]: "answered (Inl e) = 0" "answered (Inr x) = 1"
  by (simp_all add: answered_def)

text \<open>When nothing was answered: the call failed, the target was gone, or the notification was
  no longer valid.\<close>

definition unanswered :: "supervisor \<Rightarrow> io_error + notify_event option \<Rightarrow> hist \<Rightarrow> bool" where
  "unanswered sv r t \<longleftrightarrow>
     (\<exists>e. r = Inl e)
     \<or> r = Inr None \<and> (\<exists>pre c a. t = pre @ [(c, a)] \<and> ans_ret a < 0
          \<and> (c = Nt (NotifRecv (listener_fd sv)) \<and> ans_errno a = ENOENT
             \<or> (\<exists>n. c = Nt (NotifIdValid (listener_fd sv) n))))"

lemma with_result_Inr: "with_result x r = Inr y \<longleftrightarrow> (\<exists>u. r = Inr u) \<and> x = y"
  by (cases r) (auto simp: with_result_def)

lemma virtualized_replies:
  assumes "virtualized tgt SYS sv notif r t"
  shows "length (replies t) \<le> 1 \<and> (\<forall>ev. r = Inr (Some ev) \<longrightarrow> length (replies t) = 1)
    \<and> only_replies_to (sn_id notif) t
    \<and> (replies t = [] \<longrightarrow> (\<exists>e. r = Inl e)
         \<or> r = Inr None \<and> (\<exists>pre n a. t = pre @ [(Nt (NotifIdValid (listener_fd sv) n), a)] \<and> ans_ret a < 0))"
  using assms
proof cases
  case (unreadable e u r' w)
  then show ?thesis
    using memory_read_replies [OF unreadable(3)] continued_replies [OF unreadable(4)]
    by (cases r') (auto simp: with_result_def)
next
  case (stale p u v)
  then show ?thesis using memory_read_replies [OF stale(3)] by auto
next
  case (passed p u v r' w)
  then show ?thesis
    using memory_read_replies [OF passed(3)] continued_replies [OF passed(6)]
    by (cases r') (auto simp: with_result_def)
next
  case (injected p u v q w)
  then show ?thesis
    using memory_read_replies [OF injected(3)] injection_replies [OF injected(6)] by auto
next
  case (fell_through p u v q e w r' x)
  then show ?thesis
    using memory_read_replies [OF fell_through(3)] injection_replies [OF fell_through(6)]
      continued_replies [OF fell_through(7)]
    by (cases r') (auto simp: with_result_def)
qed

section \<open>Opened files\<close>

text \<open>\<open>all_opens P pre t\<close>: every file \<open>t\<close> opens, after \<open>pre\<close> and the part of \<open>t\<close> before it,
  satisfies \<open>P\<close>.\<close>

fun all_opens :: "(hist \<Rightarrow> path \<Rightarrow> i32 \<Rightarrow> bool) \<Rightarrow> hist \<Rightarrow> hist \<Rightarrow> bool" where
  "all_opens P pre [] = True"
| "all_opens P pre ((c, a) # t) =
    ((case c of Fd (Open q fl m) \<Rightarrow> P pre q fl | _ \<Rightarrow> True) \<and> all_opens P (pre @ [(c, a)]) t)"

lemma all_opens_append:
  "all_opens P pre (t @ u) \<longleftrightarrow> all_opens P pre t \<and> all_opens P (pre @ t) u"
  by (induction P pre t rule: all_opens.induct) auto

text \<open>The path a run read from the child's memory.\<close>

definition path_read :: "hist \<Rightarrow> string \<Rightarrow> bool" where
  "path_read pre p \<longleftrightarrow> (\<exists>f d. (Fd (Read f 4096), d) \<in> set pre
     \<and> p = bytes_to_string (takeWhile (\<lambda>b. b \<noteq> 0) (take (nat (ans_ret d)) (ans_data d))))"

definition id_checked :: "supervisor \<Rightarrow> seccomp_notif \<Rightarrow> hist \<Rightarrow> bool" where
  "id_checked sv notif pre \<longleftrightarrow> (\<exists>us v. pre = us @ [(Nt (NotifIdValid (listener_fd sv) (sn_id notif)), v)]
     \<and> 0 \<le> ans_ret v)"

definition open_permitted ::
  "target_arch \<Rightarrow> sysno \<Rightarrow> supervisor \<Rightarrow> hist \<Rightarrow> path \<Rightarrow> i32 \<Rightarrow> bool" where
  "open_permitted tgt SYS sv pre q fl \<longleftrightarrow>
     (let notif = notif_fields (ans_vals (snd (hd pre))) in
      mode sv = Virtualize \<and>
      (q = mem_file notif
       \<or> (\<exists>p. path_read pre p \<and> opens_path tgt SYS sv notif p q \<and> id_checked sv notif pre
            \<and> fl = (open_flags SYS notif AND NOT O_CLOEXEC))))"

lemma memory_read_opens:
  "memory_read notif addr r t \<Longrightarrow> (\<And>pre. pre \<noteq> [] \<Longrightarrow> hd pre = e \<Longrightarrow> P pre (mem_file notif) O_CLOEXEC)
     \<Longrightarrow> all_opens P [e] t \<and> leak_free t"
  by (auto simp: memory_read_def)

lemma continued_opens: "continued sv notif r t \<Longrightarrow> all_opens P pre t \<and> leak_free t"
  by (auto simp: continued_def)

lemma injection_opens:
  "injection sv notif q flags r t \<Longrightarrow> P pre q (flags AND NOT O_CLOEXEC)
     \<Longrightarrow> all_opens P pre t \<and> leak_free t"
  by (auto simp: injection_def)

lemma path_read_mono: "path_read t p \<Longrightarrow> set t \<subseteq> set u \<Longrightarrow> path_read u p"
  unfolding path_read_def by blast

lemma memory_read_path: "memory_read notif addr (Inr p) t \<Longrightarrow> path_read t p"
  by (fastforce simp: memory_read_def path_read_def)

lemma virtualized_opens:
  assumes "virtualized tgt SYS sv notif r t" and "mode sv = Virtualize"
    and "notif = notif_fields (ans_vals (snd e))"
  shows "all_opens (open_permitted tgt SYS sv) [e] t \<and> leak_free t"
proof -
  let ?P = "open_permitted tgt SYS sv"
  let ?v = "\<lambda>v. (Nt (NotifIdValid (listener_fd sv) (sn_id notif)), v)"
  have mem: "all_opens ?P [e] u \<and> leak_free u" if "memory_read notif (path_addr SYS notif) x u" for x u
    using that by (rule memory_read_opens) (simp add: open_permitted_def assms(2,3))
  have permitted: "?P (e # u @ [?v v]) q (open_flags SYS notif AND NOT O_CLOEXEC)"
    if "memory_read notif (path_addr SYS notif) (Inr p) u" "0 \<le> ans_ret v" "opens_path tgt SYS sv notif p q"
    for p u v q
  proof -
    have "path_read (e # u @ [?v v]) p"
      by (rule path_read_mono [OF memory_read_path [OF that(1)]]) auto
    moreover have "id_checked sv notif (e # u @ [?v v])"
      unfolding id_checked_def using that(2) by (intro exI [of _ "e # u"] exI [of _ v]) simp
    ultimately show ?thesis
      using that(3) assms(2,3) unfolding open_permitted_def Let_def by auto
  qed
  show ?thesis
    using assms(1)
  proof cases
    case (unreadable e' u r' w)
    then show ?thesis
      using mem [OF unreadable(3)] continued_opens [OF unreadable(4)]
      by (simp add: all_opens_append leak_free_append)
  next
    case (stale p u v)
    then show ?thesis using mem [OF stale(3)] by (simp add: all_opens_append leak_free_append)
  next
    case (passed p u v r' w)
    then show ?thesis
      using mem [OF passed(3)] continued_opens [OF passed(6)]
      by (simp add: all_opens_append leak_free_append)
  next
    case (injected p u v q w)
    then show ?thesis
      using mem [OF injected(3)]
        injection_opens [OF injected(6), of ?P, OF permitted [OF injected(3,4,5)]]
      by (simp add: all_opens_append leak_free_append)
  next
    case (fell_through p u v q e' w r' x)
    then show ?thesis
      using mem [OF fell_through(3)] continued_opens [OF fell_through(7)]
        injection_opens [OF fell_through(6), of ?P, OF permitted [OF fell_through(3,4,5)]]
      by (simp add: all_opens_append leak_free_append)
  qed
qed

section \<open>Properties\<close>

text \<open>A run of the supervisor to apply the properties to: a child opens \<open>/work/a\<close>.\<close>

definition demo_os :: os where
  "demo_os = (\<lambda>_ c. case c of
      Nt (NotifRecv fd) \<Rightarrow> ok_answer\<lparr>ans_vals := [1, 42, 0, 257, 0xc000003e, 0, 0, 4096, 0, 0, 0, 0]\<rparr>
    | Fd (Open p fl m) \<Rightarrow> ok_answer\<lparr>ans_ret := 5\<rparr>
    | Fd (Read fd n) \<Rightarrow> ok_answer\<lparr>ans_ret := 7, ans_data := string_to_bytes ''/work/a''\<rparr>
    | _ \<Rightarrow> ok_answer)"

definition demo_supervisor :: supervisor where
  "demo_supervisor = new_supervisor 7 Virtualize (vfs_new ''/tmp/eb'')"

text \<open>C13: one call of \<open>handle_event\<close> answers the notification it received at most once and
  under no other identifier; when it reports an event it has answered exactly once; and when it
  has not answered, it failed, the target was gone, or the notification was stale.\<close>

theorem handle_event_replies_once:
  assumes "handle_event dbg tgt SYS sv K h = (r, h')"
  shows "\<exists>t. h' = h @ t \<and> length (replies t) \<le> 1
    \<and> (\<forall>ev. r = Inr (Some ev) \<longrightarrow> length (replies t) = 1)
    \<and> only_replies_to (sn_id (notif_fields (ans_vals (snd (hd t))))) t
    \<and> (replies t = [] \<longrightarrow> unanswered sv r t)"
proof -
  obtain t where t: "h' = h @ t" "event_handled dbg tgt SYS sv r t"
    using runs_eq [OF handle_event_runs assms] by blast
  from t(2) have "length (replies t) \<le> 1
    \<and> (\<forall>ev. r = Inr (Some ev) \<longrightarrow> length (replies t) = 1)
    \<and> only_replies_to (sn_id (notif_fields (ans_vals (snd (hd t))))) t
    \<and> (replies t = [] \<longrightarrow> unanswered sv r t)"
  proof cases
    case (disabled a r' u)
    then show ?thesis
      using continued_replies [OF disabled(5)] by (cases r') (auto simp: with_result_def unanswered_def)
  next
    case (monitored a r' u)
    then show ?thesis
      using continued_replies [OF monitored(5)] by (cases r') (auto simp: with_result_def unanswered_def)
  next
    case (virtualizing a u)
    then show ?thesis
      using virtualized_replies [OF virtualizing(4)]
      unfolding unanswered_def by (auto simp flip: append_Cons)
  qed (auto simp: unanswered_def)
  with t(1) show ?thesis by blast
qed

lemma demo_result:
  "fst (handle_event False X86_64 x86_64_SYS demo_supervisor demo_os []) =
     Inr (Some \<lparr>ne_pid = 42, ne_syscall_nr = 257, ne_allowed = True\<rparr>)"
  by code_simp

theorem handle_event_replies_once_witness:
  "\<exists>t. snd (handle_event False X86_64 x86_64_SYS demo_supervisor demo_os []) = [] @ t
     \<and> length (replies t) = 1"
proof -
  have "handle_event False X86_64 x86_64_SYS demo_supervisor demo_os [] =
      (Inr (Some \<lparr>ne_pid = 42, ne_syscall_nr = 257, ne_allowed = True\<rparr>),
       snd (handle_event False X86_64 x86_64_SYS demo_supervisor demo_os []))"
    using demo_result by (simp add: prod_eq_iff)
  from handle_event_replies_once [OF this] show ?thesis by blast
qed

text \<open>C14: the supervisor opens files only in \<open>Virtualize\<close> mode: the memory of the child, and
  then, right after the kernel confirmed that the notification is still valid, the translation
  of the path read from that memory, with the flags the child asked for.\<close>

theorem handle_event_opens_permitted:
  "\<exists>t. snd (handle_event dbg tgt SYS sv K h) = h @ t \<and> all_opens (open_permitted tgt SYS sv) [] t"
proof -
  obtain t where t: "snd (handle_event dbg tgt SYS sv K h) = h @ t"
    "event_handled dbg tgt SYS sv (fst (handle_event dbg tgt SYS sv K h)) t"
    using runs_result [OF handle_event_runs] by blast
  from t(2) have "all_opens (open_permitted tgt SYS sv) [] t"
  proof cases
    case (virtualizing a u)
    then show ?thesis
      using virtualized_opens [OF virtualizing(4,3), of "(Nt (NotifRecv (listener_fd sv)), a)"] by simp
  next
    case (disabled a r' u)
    then show ?thesis using continued_opens [OF disabled(5)] by simp
  next
    case (monitored a r' u)
    then show ?thesis using continued_opens [OF monitored(5)] by simp
  qed auto
  with t(1) show ?thesis by blast
qed

text \<open>The supervisor leaks no descriptor: whatever fails, every file it opened during one
  call of \<open>handle_event\<close> is closed before the call returns.\<close>

theorem handle_event_closes_fds:
  "\<exists>t. snd (handle_event dbg tgt SYS sv K h) = h @ t \<and> leak_free t"
proof -
  obtain t where t: "snd (handle_event dbg tgt SYS sv K h) = h @ t"
    "event_handled dbg tgt SYS sv (fst (handle_event dbg tgt SYS sv K h)) t"
    using runs_result [OF handle_event_runs] by blast
  from t(2) have "leak_free t"
  proof cases
    case (virtualizing a u)
    then show ?thesis
      using virtualized_opens [OF virtualizing(4,3), of "(Nt (NotifRecv (listener_fd sv)), a)"] by simp
  next
    case (disabled a r' u)
    then show ?thesis using continued_opens [OF disabled(5), where P = "\<lambda>_ _ _. True"] by simp
  next
    case (monitored a r' u)
    then show ?thesis using continued_opens [OF monitored(5), where P = "\<lambda>_ _ _. True"] by simp
  qed auto
  with t(1) show ?thesis by blast
qed

lemma scast_nr:
  fixes nr :: i32 and n :: i64
  assumes "scast nr = n"
  shows "nr = ucast n"
proof -
  have "ucast (scast nr :: i64) = nr"
    by (intro bit_word_eqI) (simp add: bit_simps)
  with assms show ?thesis by simp
qed

text \<open>Where the supervisor looks for the arguments. For \<open>statx\<close>, whose path is the second
  argument, it reads the path at the address in the first one (the directory descriptor); for
  \<open>creat\<close>, whose second argument is the file mode, it takes that mode as the open flags.\<close>

theorem supervisor_argument_positions:
  assumes "libc_table X86_64 SYS"
  shows "(sd_nr (sn_data notif) = nr_of SYS ''statx'' \<longrightarrow> path_addr SYS notif = arg notif 0)
    \<and> (sd_nr (sn_data notif) = nr_of SYS ''creat'' \<longrightarrow> open_flags SYS notif = ucast (arg notif 1))"
proof -
  have inj: "nr_of SYS a = nr_of SYS b \<Longrightarrow> a = b"
    if "a \<in> set (known_syscalls X86_64)" "b \<in> set (known_syscalls X86_64)" for a b
    using assms that unfolding libc_table_def inj_on_def by blast
  have known: "{''statx'', ''creat'', ''openat'', ''newfstatat'', ''faccessat'', ''faccessat2'', ''readlinkat''}
      \<subseteq> set (known_syscalls X86_64)"
    by (simp add: known_syscalls_def BASE_WHITELIST_def)
  have "\<not> is_at_syscall SYS (nr_of SYS ''statx'')"
  proof
    assume "is_at_syscall SYS (nr_of SYS ''statx'')"
    then obtain n where n: "n \<in> {''openat'', ''newfstatat'', ''faccessat'', ''faccessat2'', ''readlinkat''}"
      "scast (nr_of SYS ''statx'') = SYS n" by (auto simp: is_at_syscall_def Let_def)
    then have "nr_of SYS ''statx'' = nr_of SYS n" unfolding nr_of_def [of SYS n] by (blast dest: scast_nr)
    with inj [of "''statx''" n] known n(1) show False by auto
  qed
  moreover have "nr_of SYS ''creat'' \<noteq> nr_of SYS ''openat''"
    using inj [of "''creat''" "''openat''"] known by auto
  ultimately show ?thesis by (auto simp: path_addr_def open_flags_def simp flip: nr_of_def)
qed

theorem supervisor_argument_positions_witness:
  "path_addr x86_64_SYS (default_seccomp_notif\<lparr>sn_data := default_seccomp_data\<lparr>sd_nr := 332\<rparr>\<rparr>)
     = arg (default_seccomp_notif\<lparr>sn_data := default_seccomp_data\<lparr>sd_nr := 332\<rparr>\<rparr>) 0"
proof -
  have "nr_of x86_64_SYS ''statx'' = 332" by code_simp
  with supervisor_argument_positions [OF x86_64_libc_table,
      of "default_seccomp_notif\<lparr>sn_data := default_seccomp_data\<lparr>sd_nr := 332\<rparr>\<rparr>"]
  show ?thesis by simp
qed

end
