(* ===== verification/Executor_Loop.thy ===== *)
theory Executor_Loop
  imports Sandbox_Parent
begin

text \<open>
  The event loop of \<open>executor.rs\<close>: the table of running sandboxes, the tokens under which their
  descriptors are registered, and the operations of the \<open>Executor\<close>. Operations of a mutable
  \<open>Executor\<close> take its state and return the new one beside their result. The table is an
  association list in the order in which the \<open>HashMap\<close> happens to iterate; a readiness
  notification answers with the tokens that are ready.
\<close>

unbundle bit_operations_syntax

section \<open>Identifiers and tokens\<close>

datatype sandbox_id = SandboxId u64

definition TOKEN_TYPE_BITS :: nat where "TOKEN_TYPE_BITS = 2"
definition TOKEN_TYPE_MASK :: u64 where "TOKEN_TYPE_MASK = 3"
definition TOKEN_TYPE_PIDFD :: u64 where "TOKEN_TYPE_PIDFD = 0"
definition TOKEN_TYPE_STDOUT :: u64 where "TOKEN_TYPE_STDOUT = 1"
definition TOKEN_TYPE_STDERR :: u64 where "TOKEN_TYPE_STDERR = 2"

definition encode_token :: "u64 \<Rightarrow> u64 \<Rightarrow> u64" where
  "encode_token sandbox_id token_type = push_bit TOKEN_TYPE_BITS sandbox_id OR token_type"

definition decode_token :: "u64 \<Rightarrow> sandbox_id \<times> u64" where
  "decode_token raw = (SandboxId (drop_bit TOKEN_TYPE_BITS raw), raw AND TOKEN_TYPE_MASK)"

section \<open>State\<close>

datatype exec_event =
  EvCompleted sandbox_id sandbox_output | EvTimeout sandbox_id sandbox_output
| EvStdout sandbox_id "u8 list" | EvStderr sandbox_id "u8 list"

record sandbox_state =
  ss_spawned :: spawned_sandbox
  ss_deadline :: nat
  ss_start :: nat
  ss_stdout :: "u8 list"
  ss_stderr :: "u8 list"
  ss_max_output :: u64
  ss_pidfd_ready :: bool
  ss_stdout_closed :: bool
  ss_stderr_closed :: bool

definition is_done :: "sandbox_state \<Rightarrow> bool" where
  "is_done s \<longleftrightarrow> ss_pidfd_ready s \<and> ss_stdout_closed s \<and> ss_stderr_closed s"

type_synonym table = "(sandbox_id \<times> sandbox_state) list"

record executor =
  ex_sandboxes :: table
  ex_next_id :: u64

definition table_insert :: "sandbox_id \<Rightarrow> sandbox_state \<Rightarrow> table \<Rightarrow> table" where
  "table_insert i s t = (i, s) # filter (\<lambda>e. fst e \<noteq> i) t"

definition table_remove :: "sandbox_id \<Rightarrow> table \<Rightarrow> table" where
  "table_remove i t = filter (\<lambda>e. fst e \<noteq> i) t"

definition table_update :: "sandbox_id \<Rightarrow> (sandbox_state \<Rightarrow> sandbox_state) \<Rightarrow> table \<Rightarrow> table" where
  "table_update i f t = map (\<lambda>(k, s). (k, if k = i then f s else s)) t"

section \<open>Creating and spawning\<close>

definition executor_new :: "(io_error, executor) io" where
  "executor_new =
     io_then (io_map_err Os (sys (Mio PollNew))) (io_ret \<lparr>ex_sandboxes = [], ex_next_id = 0\<rparr>)"

definition register_fd :: "int \<Rightarrow> u64 \<Rightarrow> (executor_error, unit) io" where
  "register_fd fd token =
     io_then (io_map_err (\<lambda>e. IoErr (Os e)) (sys (Mio (Register fd token)))) (io_ret ())"

definition register_sandbox :: "u64 \<Rightarrow> spawned_sandbox \<Rightarrow> (executor_error, unit) io" where
  "register_sandbox n sp =
     io_then (register_fd (sp_pidfd sp) (encode_token n TOKEN_TYPE_PIDFD))
     (io_then (register_fd (sp_stdout sp) (encode_token n TOKEN_TYPE_STDOUT))
       (register_fd (sp_stderr sp) (encode_token n TOKEN_TYPE_STDERR)))"

text \<open>The identifier is used up even when the spawn fails. With debug assertions (\<open>dbg\<close>) the
  addition panics when it overflows; otherwise it wraps.\<close>

definition executor_spawn ::
  "bool \<Rightarrow> nat \<Rightarrow> host \<Rightarrow> plan \<Rightarrow> executor \<Rightarrow> ('e, (executor_error + sandbox_id option) \<times> executor) io" where
  "executor_spawn dbg fuel host p ex =
     (let n = ex_next_id ex; ex' = ex\<lparr>ex_next_id := n + 1\<rparr>
      in if dbg \<and> n + 1 = 0 then io_ret (Inl (Panicked (Panic ''attempt to add with overflow'')), ex)
         else io_bind (io_try
           (io_bind (spawn_sandbox fuel host p) (\<lambda>r. case r of
              None \<Rightarrow> io_ret None
            | Some sp \<Rightarrow>
                io_then (io_on_err (register_sandbox n sp) (drop_spawned sp))
                (io_bind clock_now (\<lambda>t0. io_bind clock_now (\<lambda>t1.
                   io_ret (Some \<lparr>ss_spawned = sp, ss_deadline = t0 + timeout p, ss_start = t1,
                      ss_stdout = [], ss_stderr = [], ss_max_output = max_output p,
                      ss_pidfd_ready = False, ss_stdout_closed = False, ss_stderr_closed = False\<rparr>)))))))
         (\<lambda>r. case r of
            Inl e \<Rightarrow> io_ret (Inl e, ex')
          | Inr None \<Rightarrow> io_ret (Inr None, ex')
          | Inr (Some st) \<Rightarrow>
              io_ret (Inr (Some (SandboxId n)),
                      ex'\<lparr>ex_sandboxes := table_insert (SandboxId n) st (ex_sandboxes ex')\<rparr>)))"

section \<open>Control\<close>

definition active_count :: "executor \<Rightarrow> nat" where
  "active_count ex = length (ex_sandboxes ex)"

definition executor_kill :: "sandbox_id \<Rightarrow> executor \<Rightarrow> (io_error, unit) io" where
  "executor_kill i ex = (case map_of (ex_sandboxes ex) i of
       Some st \<Rightarrow> io_then (io_map_err Os (sys (Proc (PidfdKill (sp_pidfd (ss_spawned st)))))) (io_ret ())
     | None \<Rightarrow> io_ret ())"

definition executor_write_stdin :: "sandbox_id \<Rightarrow> u8 list \<Rightarrow> executor \<Rightarrow> (io_error, nat) io" where
  "executor_write_stdin i data ex = (case map_of (ex_sandboxes ex) i of
       Some st \<Rightarrow>
         (let fd = sp_stdin (ss_spawned st) in
          if fd < 0 then io_err (BrokenPipe ''stdin closed'')
          else io_bind (io_map_err Os (sys (Fd (Write fd data)))) (\<lambda>r. io_ret (nat (ans_ret r))))
     | None \<Rightarrow> io_err (NotFound ''sandbox not found''))"

definition executor_close_stdin :: "sandbox_id \<Rightarrow> executor \<Rightarrow> ('e, executor) io" where
  "executor_close_stdin i ex = (case map_of (ex_sandboxes ex) i of
       Some st \<Rightarrow>
         if 0 \<le> sp_stdin (ss_spawned st)
         then io_then (close_fd (sp_stdin (ss_spawned st)))
           (io_ret (ex\<lparr>ex_sandboxes := table_update i
              (ss_spawned_update (\<lambda>sp. sp\<lparr>sp_stdin := -1\<rparr>)) (ex_sandboxes ex)\<rparr>))
         else io_ret ex
     | None \<Rightarrow> io_ret ex)"

section \<open>Polling\<close>

definition nearest_deadline :: "executor \<Rightarrow> nat option" where
  "nearest_deadline ex = (case map (\<lambda>(i, s). ss_deadline s) (ex_sandboxes ex) of
       [] \<Rightarrow> None
     | d # ds \<Rightarrow> Some (fold min ds d))"

definition calculate_timeout :: "duration option \<Rightarrow> executor \<Rightarrow> ('e, duration option) io" where
  "calculate_timeout user_timeout ex =
     io_bind clock_now (\<lambda>now. io_ret (case (user_timeout, nearest_deadline ex) of
        (Some user, Some deadline) \<Rightarrow> Some (min user (deadline - now))
      | (Some user, None) \<Rightarrow> Some user
      | (None, Some deadline) \<Rightarrow> Some (deadline - now)
      | (None, None) \<Rightarrow> None))"

definition total_output :: "sandbox_state \<Rightarrow> nat" where
  "total_output st = length (ss_stdout st) + length (ss_stderr st)"

definition mark_closed :: "bool \<Rightarrow> sandbox_state \<Rightarrow> sandbox_state" where
  "mark_closed is_stdout st =
     (if is_stdout then st\<lparr>ss_stdout_closed := True\<rparr> else st\<lparr>ss_stderr_closed := True\<rparr>)"

definition append_output :: "bool \<Rightarrow> u8 list \<Rightarrow> sandbox_state \<Rightarrow> sandbox_state" where
  "append_output is_stdout data st =
     (if is_stdout then st\<lparr>ss_stdout := ss_stdout st @ data\<rparr>
      else st\<lparr>ss_stderr := ss_stderr st @ data\<rparr>)"

definition data_event :: "bool \<Rightarrow> sandbox_id \<Rightarrow> u8 list \<Rightarrow> exec_event" where
  "data_event is_stdout i data = (if is_stdout then EvStdout i data else EvStderr i data)"

text \<open>Reading a pipe until it is empty or closed, or the limit is exceeded. Every round that goes
  on has added at least one byte below the limit. (An answer without bytes counts as 0.)\<close>

function read_loop ::
  "sandbox_id \<Rightarrow> bool \<Rightarrow> sandbox_state \<Rightarrow> exec_event list \<Rightarrow> (unit, sandbox_state \<times> exec_event list) io" where
  "read_loop i is_stdout st events =
     (let fd = (if is_stdout then sp_stdout (ss_spawned st) else sp_stderr (ss_spawned st)) in
      io_bind (io_call (Fd (Read fd 4096))) (\<lambda>a.
        if ans_ret a < 0
        then io_ret (if ans_errno a = EAGAIN then st else mark_closed is_stdout st, events)
        else if ans_ret a = 0 \<or> ans_data a = [] then io_ret (mark_closed is_stdout st, events)
        else
          (let data = take (nat (ans_ret a)) (ans_data a);
               st' = append_output is_stdout data st;
               events' = events @ [data_event is_stdout i data]
           in if total_output st' > unat (ss_max_output st')
              then io_then (invoke (Proc (PidfdKill (sp_pidfd (ss_spawned st'))))) (io_ret (st', events'))
              else read_loop i is_stdout st' events')))"
  by pat_completeness auto
termination
proof (relation "measure (\<lambda>(i, is_stdout, st, events). Suc (unat (ss_max_output st)) - total_output st)")
  show "wf (measure (\<lambda>(i :: sandbox_id, is_stdout :: bool, st, events :: exec_event list).
      Suc (unat (ss_max_output st)) - total_output st))" by simp
qed (auto simp: append_output_def total_output_def neq_Nil_conv split: if_splits)

declare read_loop.simps [simp del]

definition read_pipe ::
  "sandbox_id \<Rightarrow> bool \<Rightarrow> table \<times> exec_event list \<Rightarrow> (unit, table \<times> exec_event list) io" where
  "read_pipe i is_stdout te = (case map_of (fst te) i of
       None \<Rightarrow> io_ret te
     | Some st \<Rightarrow> io_bind (read_loop i is_stdout st (snd te))
         (\<lambda>(st', events). io_ret (table_update i (\<lambda>_. st') (fst te), events)))"

primrec read_pipes ::
  "sandbox_id list \<Rightarrow> bool \<Rightarrow> table \<times> exec_event list \<Rightarrow> (unit, table \<times> exec_event list) io" where
  "read_pipes [] is_stdout te = io_ret te"
| "read_pipes (i # is) is_stdout te = io_bind (read_pipe i is_stdout te) (read_pipes is is_stdout)"

text \<open>First part of \<open>check_completions\<close>: sandboxes past their deadline are killed and count as
  exited; then the identifiers of all that are done.\<close>

primrec expire :: "nat \<Rightarrow> table \<Rightarrow> (unit, table) io" where
  "expire now [] = io_ret []"
| "expire now (e # t) = (case e of (i, st) \<Rightarrow>
     if ss_deadline st \<le> now \<and> \<not> ss_pidfd_ready st
     then io_then (invoke (Proc (PidfdKill (sp_pidfd (ss_spawned st)))))
       (io_bind (expire now t) (\<lambda>t'. io_ret ((i, st\<lparr>ss_pidfd_ready := True\<rparr>) # t')))
     else io_bind (expire now t) (\<lambda>t'. io_ret ((i, st) # t')))"

definition completion_status :: "bool \<Rightarrow> int option \<Rightarrow> sandbox_state \<Rightarrow> status" where
  "completion_status timed_out sig st =
     (if timed_out then Timeout
      else if sig \<noteq> None then Signaled
      else if total_output st > unat (ss_max_output st) then OutputLimitExceeded
      else Exited)"

text \<open>One sandbox that is done, already removed from the table: deregistered, waited for, and
  dropped on every way out.\<close>

definition complete_one :: "sandbox_id \<Rightarrow> sandbox_state \<Rightarrow> (io_error, exec_event) io" where
  "complete_one i st =
     io_then (invoke (Mio (Deregister (sp_pidfd (ss_spawned st)))))
     (io_then (invoke (Mio (Deregister (sp_stdout (ss_spawned st)))))
     (io_then (invoke (Mio (Deregister (sp_stderr (ss_spawned st)))))
     (io_bind (io_try (io_bind (wait_for_exit (sp_pidfd (ss_spawned st))) (\<lambda>(ec, sig).
        io_bind clock_now (\<lambda>t0. io_bind clock_now (\<lambda>t1.
          let timed_out = ss_deadline st \<le> t1;
              out = \<lparr>out_stdout = ss_stdout st, out_stderr = ss_stderr st,
                     out_status = completion_status timed_out sig st,
                     out_duration = t0 - ss_start st, out_exit_code = ec, out_signal = sig\<rparr>
          in io_ret (if timed_out then EvTimeout i out else EvCompleted i out))))))
       (\<lambda>r. io_then (drop_spawned (ss_spawned st)) (io_lift r)))))"

text \<open>A failing wait ends the loop: its sandbox has left the table without an event, the later
  ones stay in it. The first component tells whether the loop ended so.\<close>

primrec complete_all ::
  "sandbox_id list \<Rightarrow> table \<Rightarrow> exec_event list
     \<Rightarrow> ('e, (io_error + unit) \<times> table \<times> exec_event list) io" where
  "complete_all [] t events = io_ret (Inr (), t, events)"
| "complete_all (i # is) t events = (case map_of t i of
       None \<Rightarrow> complete_all is t events
     | Some st \<Rightarrow> io_bind (io_try (complete_one i st)) (\<lambda>r. case r of
           Inl e \<Rightarrow> io_ret (Inl e, table_remove i t, events)
         | Inr ev \<Rightarrow> complete_all is (table_remove i t) (events @ [ev])))"

definition check_completions ::
  "table \<Rightarrow> exec_event list \<Rightarrow> (unit, (io_error + unit) \<times> table \<times> exec_event list) io" where
  "check_completions t events =
     io_bind clock_now (\<lambda>now. io_bind (expire now t) (\<lambda>t'.
       complete_all (map fst (filter (\<lambda>(i, st). is_done st) t')) t' events))"

text \<open>The tokens of one readiness notification, sorted by kind; tokens of sandboxes that are gone
  are ignored.\<close>

definition ready_ids :: "table \<Rightarrow> u64 \<Rightarrow> u64 list \<Rightarrow> sandbox_id list" where
  "ready_ids t ty tokens =
     map fst (filter (\<lambda>(i, k). map_of t i \<noteq> None \<and> k = ty) (map decode_token tokens))"

definition mark_ready :: "sandbox_id list \<Rightarrow> table \<Rightarrow> table" where
  "mark_ready is t = fold (\<lambda>i. table_update i (ss_pidfd_ready_update (\<lambda>_. True))) is t"

definition dispatch ::
  "u64 list \<Rightarrow> table \<Rightarrow> (unit, (io_error + unit) \<times> table \<times> exec_event list) io" where
  "dispatch tokens t =
     io_bind (read_pipes (ready_ids t TOKEN_TYPE_STDOUT tokens) True
                (mark_ready (ready_ids t TOKEN_TYPE_PIDFD tokens) t, [])) (\<lambda>te.
     io_bind (read_pipes (ready_ids t TOKEN_TYPE_STDERR tokens) False te) (\<lambda>(t', events).
       check_completions t' events))"

definition executor_poll ::
  "duration option \<Rightarrow> executor \<Rightarrow> (unit, (io_error + unit) \<times> executor \<times> exec_event list) io" where
  "executor_poll user_timeout ex =
     (if ex_sandboxes ex = [] then io_ret (Inr (), ex, [])
      else io_bind (calculate_timeout user_timeout ex) (\<lambda>effective_timeout.
        io_bind (io_call (Mio (PollWait effective_timeout))) (\<lambda>a.
          if ans_ret a < 0 then io_ret (Inl (Os (ans_errno a)), ex, [])
          else io_bind (dispatch (map of_int (ans_vals a)) (ex_sandboxes ex))
            (\<lambda>(r, t, events). io_ret (r, ex\<lparr>ex_sandboxes := t\<rparr>, events)))))"

end
