(* ===== verification/Executor_Guarantees.thy ===== *)
theory Executor_Guarantees
  imports Executor_Loop Monitor_Guarantees
begin

text \<open>
  What the event loop guarantees: tokens identify sandboxes, a poll reports each sandbox that is
  done once and streams exactly the bytes that end up in its output, and over any sequence of
  operations every spawned sandbox is running, has been reported once, or was lost to a failing
  wait.
\<close>

unbundle bit_operations_syntax

section \<open>Tokens\<close>

text \<open>Decoding a token gives back the sandbox and the kind of descriptor it was made from, for
  identifiers below \<open>2^62\<close>.\<close>
theorem token_round_trip:
  assumes "unat n < 2 ^ 62" and "ty \<in> {TOKEN_TYPE_PIDFD, TOKEN_TYPE_STDOUT, TOKEN_TYPE_STDERR}"
  shows "decode_token (encode_token n ty) = (SandboxId n, ty)"
proof -
  have small: "ty = 0 \<or> ty = 1 \<or> ty = 2"
    using assms(2) by (auto simp: TOKEN_TYPE_PIDFD_def TOKEN_TYPE_STDOUT_def TOKEN_TYPE_STDERR_def)

have mask: "(3 :: u64) = mask 2" by (simp add: mask_eq_exp_minus_1)
  have lo: "(push_bit 2 n OR ty) AND 3 = ty"
    unfolding mask take_bit_eq_mask [symmetric] take_bit_or
    using small by (auto simp: take_bit_push_bit)
  have "unat (drop_bit 2 (push_bit 2 n)) = drop_bit 2 (take_bit 64 (push_bit 2 (unat n)))"
    by (simp only: unsigned_drop_bit_eq unsigned_push_bit_eq) simp
  also have "\<dots> = unat n"
    using assms(1) by (simp add: take_bit_nat_eq_self push_bit_eq_mult drop_bit_eq_div)
  finally have "drop_bit 2 (push_bit 2 n) = n" by (simp add: word_unat_eq_iff)
  moreover have "drop_bit 2 ty = 0" using small by (auto simp: drop_bit_eq_div)
  ultimately show ?thesis
    by (simp add: decode_token_def encode_token_def TOKEN_TYPE_BITS_def TOKEN_TYPE_MASK_def lo)
qed

theorem token_round_trip_witness:
  "decode_token (encode_token 5 TOKEN_TYPE_STDERR) = (SandboxId 5, TOKEN_TYPE_STDERR)"
  by (rule token_round_trip) simp_all

section \<open>The table\<close>

text \<open>What the executor relies on in its \<open>HashMap\<close>.\<close>

locale registry =
  fixes lookup :: "'t \<Rightarrow> 'k \<Rightarrow> 'v option"
    and insert_at :: "'k \<Rightarrow> 'v \<Rightarrow> 't \<Rightarrow> 't"
    and remove_at :: "'k \<Rightarrow> 't \<Rightarrow> 't"
    and update_at :: "'k \<Rightarrow> ('v \<Rightarrow> 'v) \<Rightarrow> 't \<Rightarrow> 't"
  assumes lookup_insert: "lookup (insert_at k v t) = (lookup t)(k \<mapsto> v)"
    and lookup_remove: "lookup (remove_at k t) = (lookup t)(k := None)"
    and lookup_update: "lookup (update_at k f t) = (lookup t)(k := map_option f (lookup t k))"
begin

lemma dom_insert: "dom (lookup (insert_at k v t)) = insert k (dom (lookup t))"
  by (simp add: lookup_insert)

lemma dom_remove: "dom (lookup (remove_at k t)) = dom (lookup t) - {k}"
  by (simp add: lookup_remove)

lemma dom_update: "dom (lookup (update_at k f t)) = dom (lookup t)"
  by (auto simp: lookup_update split: if_splits)

lemma lookup_update_all:
  "lookup (fold (\<lambda>k. update_at k f) ks t) i
     = (case lookup t i of None \<Rightarrow> None | Some v \<Rightarrow> Some ((f ^^ count_list ks i) v))"
  by (induction ks arbitrary: t)
    (auto simp: lookup_update funpow_swap1 split: option.split)

lemma lookup_update_all_idem:
  assumes "\<And>v. f (f v) = f v"
  shows "lookup (fold (\<lambda>k. update_at k f) ks t) i
     = (if i \<in> set ks then map_option f (lookup t i) else lookup t i)"
  by (induction ks arbitrary: t) (auto simp: lookup_update assms option.map_comp comp_def)

end

interpretation sandboxes: registry map_of table_insert table_remove table_update
proof
  show lookup_remove: "map_of (table_remove k t) = (map_of t)(k := None)" for k t
    by (induction t) (auto simp: table_remove_def fun_eq_iff)
  show "map_of (table_insert k v t) = (map_of t)(k \<mapsto> v)" for k v t
    using lookup_remove [of k t] by (simp add: table_insert_def table_remove_def fun_eq_iff)
  show "map_of (table_update k f t) = (map_of t)(k := map_option f (map_of t k))" for k f t
    by (induction t) (auto simp: table_update_def fun_eq_iff)
qed

section \<open>The ledger\<close>

text \<open>The abstract specification of the event loop: a ledger holds, for every sandbox that is
  running, the output reported so far. Sandboxes are opened once, output is added to running
  ones, a sandbox leaves the ledger when its end is reported, with exactly the output that was
  reported piece by piece, or when it is lost. An entry that is not allowed gives \<open>None\<close>.\<close>

datatype entry = Opened sandbox_id | Said exec_event | Lost sandbox_id

type_synonym ledger = "sandbox_id \<rightharpoonup> u8 list \<times> u8 list"

fun enter :: "entry \<Rightarrow> ledger \<Rightarrow> ledger option" where
  "enter (Opened i) L = (if L i = None then Some (L(i \<mapsto> ([], []))) else None)"
| "enter (Said (EvStdout i d)) L = map_option (\<lambda>(x, y). L(i \<mapsto> (x @ d, y))) (L i)"
| "enter (Said (EvStderr i d)) L = map_option (\<lambda>(x, y). L(i \<mapsto> (x, y @ d))) (L i)"
| "enter (Said (EvCompleted i out)) L =
     (if L i = Some (out_stdout out, out_stderr out) then Some (L(i := None)) else None)"
| "enter (Said (EvTimeout i out)) L =
     (if L i = Some (out_stdout out, out_stderr out) then Some (L(i := None)) else None)"
| "enter (Lost i) L = map_option (\<lambda>_. L(i := None)) (L i)"

primrec replay :: "entry list \<Rightarrow> ledger \<Rightarrow> ledger option" where
  "replay [] L = Some L"
| "replay (x # xs) L = Option.bind (enter x L) (replay xs)"

lemma replay_append [simp]: "replay (xs @ ys) L = Option.bind (replay xs L) (replay ys)"
  by (induction xs arbitrary: L) (auto split: bind_split)

definition ledger_of :: "table \<Rightarrow> ledger" where
  "ledger_of t i = map_option (\<lambda>st. (ss_stdout st, ss_stderr st)) (map_of t i)"

lemma ledger_of_updates:
  "ledger_of (table_insert i st t) = (ledger_of t)(i \<mapsto> (ss_stdout st, ss_stderr st))"
  "ledger_of (table_remove i t) = (ledger_of t)(i := None)"
  "map_of t i = Some st \<Longrightarrow>
     ledger_of (table_update i f t) = (ledger_of t)(i \<mapsto> (ss_stdout (f st), ss_stderr (f st)))"
  by (auto simp: ledger_of_def fun_eq_iff sandboxes.lookup_insert sandboxes.lookup_remove
      sandboxes.lookup_update)

lemma ledger_of_quiet_update:
  "(\<And>st. (ss_stdout (f st), ss_stderr (f st)) = (ss_stdout st, ss_stderr st))
     \<Longrightarrow> ledger_of (table_update i f t) = ledger_of t"
  by (auto simp: ledger_of_def fun_eq_iff sandboxes.lookup_update option.map_comp comp_def)

lemma table_update_keys [simp]: "map fst (table_update i f t) = map fst t"
  by (induction t) (auto simp: table_update_def)

text \<open>\<open>logged t t' new\<close>: the table has the same sandboxes, and the events \<open>new\<close> lead the ledger
  from \<open>t\<close> to \<open>t'\<close>.\<close>

definition logged :: "table \<Rightarrow> table \<Rightarrow> exec_event list \<Rightarrow> bool" where
  "logged t t' new \<longleftrightarrow> map fst t' = map fst t
     \<and> replay (map Said new) (ledger_of t) = Some (ledger_of t')"

lemma logged_refl: "logged t t []"
  by (simp add: logged_def)

lemma logged_trans: "logged t t' u \<Longrightarrow> logged t' t'' v \<Longrightarrow> logged t t'' (u @ v)"
  by (simp add: logged_def)

lemma logged_quiet:
  "(\<And>st. (ss_stdout (f st), ss_stderr (f st)) = (ss_stdout st, ss_stderr st))
     \<Longrightarrow> logged t (table_update i f t) []"
  by (simp add: logged_def ledger_of_quiet_update)

section \<open>Reading the pipes\<close>

text \<open>What one reading of a pipe does to a sandbox that is running, whatever the rest of the
  ledger: the events it adds report exactly what it adds to the buffers.\<close>

definition read_ok ::
  "sandbox_id \<Rightarrow> sandbox_state \<Rightarrow> exec_event list \<Rightarrow> unit + sandbox_state \<times> exec_event list \<Rightarrow> bool" where
  "read_ok i st events r \<longleftrightarrow> (\<exists>st' new. r = Inr (st', events @ new)
     \<and> (\<forall>L. L i = Some (ss_stdout st, ss_stderr st)
          \<longrightarrow> replay (map Said new) L = Some (L(i \<mapsto> (ss_stdout st', ss_stderr st')))))"

lemma enter_data:
  "L i = Some (ss_stdout st, ss_stderr st) \<Longrightarrow> enter (Said (data_event b i d)) L
     = Some (L(i \<mapsto> (ss_stdout (append_output b d st), ss_stderr (append_output b d st))))"
  by (simp add: data_event_def append_output_def)

lemma read_ok_step:
  assumes "read_ok i (append_output b d st) (events @ [data_event b i d]) r"
  shows "read_ok i st events r"
proof -
  obtain st' new where r: "r = Inr (st', events @ data_event b i d # new)"
    "\<And>L. L i = Some (ss_stdout (append_output b d st), ss_stderr (append_output b d st))
       \<Longrightarrow> replay (map Said new) L = Some (L(i \<mapsto> (ss_stdout st', ss_stderr st')))"
    using assms unfolding read_ok_def by auto
  show ?thesis
    unfolding read_ok_def
    by (rule exI [of _ st'], rule exI [of _ "data_event b i d # new"])
      (simp add: r enter_data)
qed

lemma read_ok_simps [simp]:
  "read_ok i st events (Inr (st, events))" "read_ok i st events (Inr (mark_closed b st, events))"
proof -
  show "read_ok i st events (Inr (st, events))" by (simp add: read_ok_def fun_upd_idem)
  show "read_ok i st events (Inr (mark_closed b st, events))"
    by (simp add: read_ok_def mark_closed_def fun_upd_idem)
qed

lemma read_ok_append [simp]:
  "read_ok i st events (Inr (append_output b d st, events @ [data_event b i d]))"
  by (rule read_ok_step [OF read_ok_simps(1)])

lemma read_loop_runs: "runs (read_loop i b st events) K (\<lambda>r t. read_ok i st events r) h"
proof (induction i b st events arbitrary: h rule: read_loop.induct)
  case (1 i b st events)
  have over: "runs (io_then (invoke c) (io_ret (append_output b d st, events @ [data_event b i d]))) K
      (\<lambda>r t. read_ok i st events r) h" for c d h
    by (simp add: runs_wp wp_rules)
  have more: "runs (read_loop i b (append_output b d st) (events @ [data_event b i d])) K
      (\<lambda>r t. read_ok i st events r) h"
    if "d = take (nat (ans_ret a)) (ans_data a)" "\<not> ans_ret a < 0" "\<not> (ans_ret a = 0 \<or> ans_data a = [])"
      "\<not> unat (ss_max_output (append_output b d st)) < total_output (append_output b d st)" for a :: answer and d h
  proof (rule runs_mono)
    show "runs (read_loop i b (append_output b d st) (events @ [data_event b i d])) K
        (\<lambda>r t. read_ok i (append_output b d st) (events @ [data_event b i d]) r) h"
      by (rule 1, rule refl, rule that(2), rule that(3), rule that(1), rule refl, rule refl, rule that(4))
  qed (rule read_ok_step)
  show ?case
    unfolding read_loop.simps [of i b st events] Let_def
    by (rule runs_bind [where P = "\<lambda>r t. \<exists>a. r = Inr a"]) (auto simp: runs_call intro!: runs_ret over more)
qed

text \<open>One round, by the answer to the read. When the limit is exceeded the round is the last one,
  and the pipe does not count as closed, whatever is left in it.\<close>

abbreviation pipe_of :: "bool \<Rightarrow> sandbox_state \<Rightarrow> int" where
  "pipe_of b st \<equiv> (if b then sp_stdout (ss_spawned st) else sp_stderr (ss_spawned st))"

lemma read_loop_end:
  assumes "K h (Fd (Read (pipe_of b st) 4096)) = a" and "ans_ret a = 0"
  shows "read_loop i b st evs K h
     = (Inr (mark_closed b st, evs), h @ [(Fd (Read (pipe_of b st) 4096), a)])"
  using assms by (simp add: read_loop.simps [of i b st evs] io_bind_def io_call_def io_ret_def Let_def)

lemma read_loop_data:
  assumes "K h (Fd (Read (pipe_of b st) 4096)) = a" and "0 < ans_ret a" and "ans_data a \<noteq> []"
    and "st' = append_output b (take (nat (ans_ret a)) (ans_data a)) st"
    and "evs' = evs @ [data_event b i (take (nat (ans_ret a)) (ans_data a))]"
    and "h' = h @ [(Fd (Read (pipe_of b st) 4096), a)]"
  shows "total_output st' \<le> unat (ss_max_output st') \<Longrightarrow>
      read_loop i b st evs K h = read_loop i b st' evs' K h'"
    "total_output st' > unat (ss_max_output st') \<Longrightarrow>
      read_loop i b st evs K h = (Inr (st', evs'),
        h' @ [(Proc (PidfdKill (sp_pidfd (ss_spawned st'))), K h' (Proc (PidfdKill (sp_pidfd (ss_spawned st')))))])"
  using assms
  by (simp_all add: read_loop.simps [of i b st evs] io_bind_def io_call_def io_ret_def Let_def
      io_then_def invoke_def)

lemma read_ok_logged:
  assumes "read_ok i st events r" and "map_of t i = Some st"
  shows "\<exists>st' new. r = Inr (st', events @ new) \<and> logged t (table_update i (\<lambda>_. st') t) new"
proof -
  obtain st' new where new: "r = Inr (st', events @ new)"
    "\<And>L. L i = Some (ss_stdout st, ss_stderr st)
       \<Longrightarrow> replay (map Said new) L = Some (L(i \<mapsto> (ss_stdout st', ss_stderr st')))"
    using assms(1) unfolding read_ok_def by auto
  have "ledger_of t i = Some (ss_stdout st, ss_stderr st)"
    using assms(2) by (simp add: ledger_of_def)
  then have "logged t (table_update i (\<lambda>_. st') t) new"
    using new(2) assms(2) by (simp add: logged_def ledger_of_updates)
  with new(1) show ?thesis by blast
qed

lemma read_pipe_runs:
  "runs (read_pipe i b te) K (\<lambda>r _. \<exists>t' new. r = Inr (t', snd te @ new) \<and> logged (fst te) t' new) h"
proof (cases "map_of (fst te) i")
  case None
  then show ?thesis by (cases te) (auto simp: read_pipe_def logged_refl intro!: runs_ret)
next
  case (Some st)
  then show ?thesis
    unfolding read_pipe_def Some option.case
    by (intro runs_bind [OF read_loop_runs]) (auto dest!: read_ok_logged [OF _ Some] intro!: runs_ret)
qed

lemma read_pipes_runs:
  "runs (read_pipes is b te) K (\<lambda>r _. \<exists>t' new. r = Inr (t', snd te @ new) \<and> logged (fst te) t' new) h"
proof (induction "is" arbitrary: te h)
  case Nil
  then show ?case by (cases te) (auto simp: logged_refl intro!: runs_ret)
next
  case (Cons i "is")
  show ?case
    unfolding read_pipes.simps
    by (rule runs_bind [OF read_pipe_runs]) (auto intro!: runs_mono [OF Cons.IH] intro: logged_trans)
qed

lemma mark_ready_logged: "logged t (mark_ready is t) []"
  unfolding mark_ready_def
proof (induction "is" arbitrary: t)
  case (Cons i "is")
  have "logged t (table_update i (ss_pidfd_ready_update (\<lambda>_. True)) t) []"
    by (rule logged_quiet) simp
  with Cons.IH show ?case using logged_trans [of t _ "[]"] by simp
qed (simp add: logged_refl)

lemma mark_ready_first: "logged (mark_ready is t) t' new \<Longrightarrow> logged t t' new"
  using logged_trans [OF mark_ready_logged] by fastforce

lemma expire_runs:
  "runs (expire now t) K (\<lambda>r _. r = Inr (map (\<lambda>(i, st).
     (i, if ss_deadline st \<le> now then st\<lparr>ss_pidfd_ready := True\<rparr> else st)) t)) h"
proof (induction t arbitrary: h)
  case Nil
  then show ?case by (simp add: runs_ret)
next
  case (Cons e t)
  obtain i st where e: "e = (i, st)" by force
  show ?case
    unfolding expire.simps e prod.case
    by (auto intro!: runs_bind [OF Cons.IH] runs_then [OF runs_invoke [where P = "\<lambda>r _. r = Inr ()"]] runs_ret)
qed

lemma expired_logged:
  "logged t (map (\<lambda>(i, st). (i, if ss_deadline st \<le> now then st\<lparr>ss_pidfd_ready := True\<rparr> else st)) t) []"
  by (induction t) (auto simp: logged_def ledger_of_def fun_eq_iff)

section \<open>Completion\<close>

text \<open>\<open>reported_as i st w ev\<close>: \<open>ev\<close> reports the end of sandbox \<open>i\<close> with its buffers, with the exit
  code and signal of the wait \<open>w\<close>, and with a status that follows from them.\<close>

definition reported_as :: "sandbox_id \<Rightarrow> sandbox_state \<Rightarrow> answer \<Rightarrow> exec_event \<Rightarrow> bool" where
  "reported_as i st w ev \<longleftrightarrow> (\<exists>timed_out out.
     ev = (if timed_out then EvTimeout i out else EvCompleted i out)
     \<and> out_stdout out = ss_stdout st \<and> out_stderr out = ss_stderr st
     \<and> (out_exit_code out, out_signal out) = decode_exit (ans_vals w ! 0) (ans_vals w ! 1)
     \<and> out_status out = completion_status timed_out (out_signal out) st)"

lemma reported_as_events:
  "reported_as i st w (EvTimeout j out) \<longleftrightarrow> j = i \<and> out_stdout out = ss_stdout st
     \<and> out_stderr out = ss_stderr st \<and> out_status out = Timeout
     \<and> (out_exit_code out, out_signal out) = decode_exit (ans_vals w ! 0) (ans_vals w ! 1)"
  "reported_as i st w (EvCompleted j out) \<longleftrightarrow> j = i \<and> out_stdout out = ss_stdout st
     \<and> out_stderr out = ss_stderr st \<and> out_status out = completion_status False (out_signal out) st
     \<and> (out_exit_code out, out_signal out) = decode_exit (ans_vals w ! 0) (ans_vals w ! 1)"
  by (auto simp: reported_as_def completion_status_def split: if_splits)

definition completes :: "sandbox_id \<Rightarrow> sandbox_state \<Rightarrow> io_error + exec_event \<Rightarrow> hist \<Rightarrow> bool" where
  "completes i st r t \<longleftrightarrow> (\<exists>w. waits (sp_pidfd (ss_spawned st)) t = [(Proc (Waitid (sp_pidfd (ss_spawned st))), w)]
     \<and> (case r of Inl e \<Rightarrow> ans_ret w < 0 | Inr ev \<Rightarrow> reported_as i st w ev))"

lemma completes_quiet:
  assumes "waits (sp_pidfd (ss_spawned st)) u = []"
  shows "completes i st r (u @ t) = completes i st r t" "completes i st r (t @ u) = completes i st r t"
  using assms by (simp_all add: completes_def)

lemma drop_spawned_runs: "runs (drop_spawned sp) K (\<lambda>r t. r = Inr () \<and> waits p t = []) h"
  by (simp add: runs_wp wp_rules drop_spawned_def close_if_open_def close_fd_def close_opt_def
      remove_dir_all_def split: option.split)

lemma ending_runs:
  "runs (io_bind (wait_for_exit (sp_pidfd (ss_spawned st))) (\<lambda>(ec, sig).
        io_bind clock_now (\<lambda>t0. io_bind clock_now (\<lambda>t1.
          let timed_out = ss_deadline st \<le> t1;
              out = \<lparr>out_stdout = ss_stdout st, out_stderr = ss_stderr st,
                     out_status = completion_status timed_out sig st,
                     out_duration = t0 - ss_start st, out_exit_code = ec, out_signal = sig\<rparr>
          in io_ret (if timed_out then EvTimeout i out else EvCompleted i out))))) K (completes i st) h"
  unfolding runs_wp wait_for_exit_def clock_now_def
  by (simp add: wp_rules completes_def reported_as_events Let_def completion_status_def split: prod.split)

lemma complete_one_runs: "runs (complete_one i st) K (completes i st) h"
proof -
  let ?quiet = "\<lambda>r t. r = Inr () \<and> waits (sp_pidfd (ss_spawned st)) t = []"
  have note_gone: "runs (invoke (Mio (Deregister fd))) K ?quiet h" for fd h
    by (rule runs_invoke) simp
  have drop: "runs (drop_spawned (ss_spawned st)) K ?quiet h" for h
    by (rule drop_spawned_runs)
  show ?thesis
    unfolding complete_one_def
    by (rule runs_then [OF note_gone], rule runs_then [OF note_gone], rule runs_then [OF note_gone],
        rule runs_bind [OF runs_tried [OF ending_runs]], rule runs_then [OF drop])
      (auto simp: completes_quiet intro!: runs_lift)
qed

text \<open>\<open>swept is t r t' new\<close>: the sandboxes \<open>is\<close> have left the table in this order, each with the
  event \<open>new\<close> has for it; when a wait fails the loop stops there, the sandbox of that wait has
  left the table without an event, and the later ones are still in it.\<close>

definition reports_end :: "table \<Rightarrow> sandbox_id \<Rightarrow> exec_event \<Rightarrow> bool" where
  "reports_end t i ev \<longleftrightarrow> (\<exists>st w. map_of t i = Some st \<and> reported_as i st w ev)"

definition swept ::
  "sandbox_id list \<Rightarrow> table \<Rightarrow> io_error + unit \<Rightarrow> table \<Rightarrow> exec_event list \<Rightarrow> bool" where
  "swept is t r t' new \<longleftrightarrow> (\<exists>gone kept. is = gone @ kept
     \<and> t' = filter (\<lambda>e. fst e \<notin> set gone) t
     \<and> (case r of
          Inr u \<Rightarrow> kept = [] \<and> list_all2 (reports_end t) gone new
        | Inl e \<Rightarrow> \<exists>done i. gone = done @ [i] \<and> list_all2 (reports_end t) done new))"

lemma filter_remove: "filter (\<lambda>e. fst e \<notin> set is) (table_remove i t) = filter (\<lambda>e. fst e \<notin> set (i # is)) t"
  by (auto simp: table_remove_def intro: filter_cong)

lemma reports_end_remove:
  "list_all2 (reports_end (table_remove i t)) is evs \<Longrightarrow> list_all2 (reports_end t) is evs"
  by (erule list.rel_mono_strong)
    (auto simp: reports_end_def sandboxes.lookup_remove split: if_splits)

lemma swept_step:
  assumes "swept is (table_remove i t) r t' new" and "reports_end t i ev"
  shows "swept (i # is) t r t' (ev # new)"
proof -
  obtain gone kept where g: "is = gone @ kept" "t' = filter (\<lambda>e. fst e \<notin> set (i # gone)) t"
    "case r of
        Inr u \<Rightarrow> kept = [] \<and> list_all2 (reports_end (table_remove i t)) gone new
      | Inl e \<Rightarrow> \<exists>done i'. gone = done @ [i'] \<and> list_all2 (reports_end (table_remove i t)) done new"
    using assms(1) unfolding swept_def filter_remove by blast
  have "case r of
        Inr u \<Rightarrow> kept = [] \<and> list_all2 (reports_end t) (i # gone) (ev # new)
      | Inl e \<Rightarrow> \<exists>done i'. i # gone = done @ [i'] \<and> list_all2 (reports_end t) done (ev # new)"
  proof (cases r)
    case (Inl e)
    then obtain "done" i' where "gone = done @ [i']" "list_all2 (reports_end t) done new"
      using g(3) reports_end_remove by fastforce
    then have "i # gone = (i # done) @ [i'] \<and> list_all2 (reports_end t) (i # done) (ev # new)"
      using assms(2) by simp
    with Inl show ?thesis by fastforce
  next
    case (Inr u)
    then show ?thesis using g(3) assms(2) by (auto intro: reports_end_remove)
  qed
  moreover have "i # is = (i # gone) @ kept" using g(1) by simp
  ultimately show ?thesis
    using g(2) unfolding swept_def by blast
qed

lemma complete_all_runs:
  assumes "distinct is" and "set is \<subseteq> dom (map_of t)"
  shows "runs (complete_all is t events :: ('e, _) io) K
    (\<lambda>r _. \<exists>res t' new. r = Inr (res, t', events @ new) \<and> swept is t res t' new) h"
  using assms
proof (induction "is" arbitrary: t events h)
  case Nil
  then show ?case by (simp add: runs_ret swept_def)
next
  case (Cons i "is")
  then obtain st where st: "map_of t i = Some st" by auto
  have lost: "swept (i # is) t (Inl e) (table_remove i t) []" for e
    unfolding swept_def
    by (rule exI [of _ "[i]"], rule exI [of _ "is"]) (simp add: table_remove_def)
  have fresh: "i \<notin> set is" "distinct is" "set is \<subseteq> dom (map_of (table_remove i t))"
    using Cons.prems by (auto simp: sandboxes.dom_remove)
  have more: "runs (complete_all is (table_remove i t) (events @ [ev]) :: ('e, _) io) K
      (\<lambda>r _. \<exists>res t' new. r = Inr (res, t', events @ new) \<and> swept (i # is) t res t' new) h"
    if "completes i st (Inr ev) u" for ev u h
  proof -
    have "reports_end t i ev"
      using that st unfolding completes_def reports_end_def by auto
    then have step: "swept is (table_remove i t) res t' new \<Longrightarrow> swept (i # is) t res t' (ev # new)" for res t' new
      by (rule swept_step [rotated])
    show ?thesis
      by (rule runs_mono, rule Cons.IH [OF fresh(2,3)]) (use step in force)
  qed
  show ?case
    unfolding complete_all.simps st option.case
    by (rule runs_bind [OF runs_tried [OF complete_one_runs]])
      (auto split: sum.split intro!: runs_ret more lost)
qed

lemma enter_end: "reports_end t i ev \<Longrightarrow> enter (Said ev) (ledger_of t) = Some (ledger_of (table_remove i t))"
  by (auto simp: reports_end_def reported_as_def ledger_of_def sandboxes.lookup_remove fun_eq_iff
      split: if_splits)

lemma reports_end_other:
  "j \<noteq> i \<Longrightarrow> reports_end (table_remove i t) j ev \<longleftrightarrow> reports_end t j ev"
  by (simp add: reports_end_def sandboxes.lookup_remove)

lemma replay_ends:
  assumes "list_all2 (reports_end t) is new" and "distinct is"
  shows "replay (map Said new) (ledger_of t) = Some (ledger_of (filter (\<lambda>e. fst e \<notin> set is) t))"
  using assms
proof (induction "is" arbitrary: t new)
  case (Cons i "is")
  then obtain ev new' where new: "new = ev # new'" "reports_end t i ev" "list_all2 (reports_end t) is new'"
    by (auto simp: list_all2_Cons1)
  have "z \<noteq> i" if "z \<in> set is" for z
    using that Cons.prems by auto
  then have "list_all2 (reports_end (table_remove i t)) is new'"
    by (intro list.rel_mono_strong [OF new(3)]) (simp add: reports_end_other)
  then show ?case
    using Cons new(1,2) by (simp add: enter_end filter_remove [simplified])
qed simp

text \<open>\<open>poll_step t r t' new\<close>: the events \<open>new\<close>, and after them the loss of at most one sandbox,
  lead the ledger from \<open>t\<close> to \<open>t'\<close>. Nothing is lost when the poll succeeds, and then no sandbox
  that is done is left.\<close>

definition poll_step :: "table \<Rightarrow> io_error + unit \<Rightarrow> table \<Rightarrow> exec_event list \<Rightarrow> bool" where
  "poll_step t r t' new \<longleftrightarrow> (\<exists>lost.
     replay (map Said new @ map Lost lost) (ledger_of t) = Some (ledger_of t')
     \<and> length lost \<le> 1 \<and> (r = Inr () \<longrightarrow> lost = [] \<and> (\<forall>(i, st) \<in> set t'. \<not> is_done st))
     \<and> distinct (map fst t') \<and> set (map fst t') \<subseteq> set (map fst t))"

lemma distinct_filter_keys:
  "distinct (map fst t) \<Longrightarrow> distinct (map fst (filter P t))"
  by (induction t) auto

lemma swept_step_ok:
  assumes "swept (map fst (filter (\<lambda>(i, st). is_done st) t)) t r t' new" and "distinct (map fst t)"
  shows "poll_step t r t' new"
proof -
  let ?is = "map fst (filter (\<lambda>(i, st). is_done st) t)"
  obtain gone kept where g: "?is = gone @ kept" "t' = filter (\<lambda>e. fst e \<notin> set gone) t"
    "case r of
        Inr u \<Rightarrow> kept = [] \<and> list_all2 (reports_end t) gone new
      | Inl e \<Rightarrow> \<exists>done i'. gone = done @ [i'] \<and> list_all2 (reports_end t) done new"
    using assms(1) unfolding swept_def by blast
  have dist: "distinct (gone @ kept)"
    using distinct_filter_keys [OF assms(2)] unfolding g(1) [symmetric] .
  have keys: "distinct (map fst t')" "set (map fst t') \<subseteq> set (map fst t)"
    using distinct_filter_keys [OF assms(2)] by (auto simp: g(2))
  show ?thesis
  proof (cases r)
    case (Inl e)
    then obtain "done" i where d: "gone = done @ [i]" "list_all2 (reports_end t) done new"
      using g(3) by auto
    let ?mid = "filter (\<lambda>e. fst e \<notin> set done) t"
    have "i \<in> set ?is" "i \<notin> set done"
      using dist unfolding g(1) d(1) by auto
    then have "map_of ?mid i \<noteq> None" by (auto simp: map_of_eq_None_iff image_iff)
    then have "enter (Lost i) (ledger_of ?mid) = Some (ledger_of (table_remove i ?mid))"
      by (auto simp: ledger_of_def sandboxes.lookup_remove fun_eq_iff)
    moreover have "table_remove i ?mid = t'"
      by (auto simp: g(2) d(1) table_remove_def intro: filter_cong)
    ultimately show ?thesis
      using Inl keys dist replay_ends [OF d(2)]
      by (auto simp: poll_step_def d(1) intro!: exI [of _ "[i]"])
  next
    case (Inr u)
    have "\<not> is_done st" if "(i, st) \<in> set t'" for i st
    proof
      assume "is_done st"
      with that have "i \<in> set ?is" by (force simp: g(2))
      with that g(1) Inr g(3) show False by (simp add: g(2))
    qed
    with Inr keys dist g replay_ends [of t gone new] show ?thesis
      by (auto simp: poll_step_def intro!: exI [of _ "[]"])
  qed
qed

lemma dispatch_runs:
  assumes "distinct (map fst t)"
  shows "runs (dispatch tokens t) K (\<lambda>r _. \<exists>res t' new. r = Inr (res, t', new) \<and> poll_step t res t' new) h"
proof -
  have after: "poll_step t res t' (u @ new)"
    if "logged t t1 u" "swept (map fst (filter (\<lambda>(i, st). is_done st) t1)) t1 res t' new" for t1 t' u new res
  proof -
    have "poll_step t1 res t' new"
      using swept_step_ok [OF that(2)] that(1) assms by (simp add: logged_def)
    with that(1) show ?thesis
      by (auto simp: poll_step_def logged_def)
  qed
  have completions: "runs (check_completions t1 u) K
      (\<lambda>r _. \<exists>res t' new. r = Inr (res, t', new) \<and> poll_step t res t' new) h"
    if grown: "logged t t1 u" for t1 u h
  proof -
    define aged where "aged now = map (\<lambda>(i, st).
        (i, if ss_deadline st \<le> now then st\<lparr>ss_pidfd_ready := True\<rparr> else st)) t1" for now
    have log: "logged t (aged now) u" for now
      using logged_trans [OF grown expired_logged] by (simp add: aged_def)
    then have d: "distinct (map fst (filter (\<lambda>(i, st). is_done st) (aged now)))" for now
      using assms by (intro distinct_filter_keys) (simp add: logged_def)
    have sub: "set (map fst (filter (\<lambda>(i, st). is_done st) t2)) \<subseteq> dom (map_of t2)" for t2
      by (auto simp: dom_map_of_conv_image_fst)
    have sweep: "runs (complete_all (map fst (filter (\<lambda>(i, st). is_done st) (aged now))) (aged now) u) K
        (\<lambda>r _. \<exists>res t' new. r = Inr (res, t', new) \<and> poll_step t res t' new) h" for now h
      by (rule runs_mono, rule complete_all_runs [OF d sub]) (auto intro: after [OF log])
    have clock: "runs clock_now K (\<lambda>r _. \<exists>now. r = Inr now) h" for h
      unfolding runs_wp clock_now_def by (simp add: wp_rules)
    have aged: "runs (expire now t1) K (\<lambda>r _. r = Inr (aged now)) h" for now h
      unfolding aged_def by (rule expire_runs)
    show ?thesis
      unfolding check_completions_def
      by (rule runs_bind [OF clock], rule runs_bind [OF aged]) (auto intro: sweep)
  qed
  show ?thesis
    unfolding dispatch_def
    by (rule runs_bind [OF read_pipes_runs], elim exE conjE, simp,
        rule runs_bind [OF read_pipes_runs])
      (auto intro!: completions intro: logged_trans dest: mark_ready_first)
qed

lemma poll_step_refl: "distinct (map fst t) \<Longrightarrow> t = [] \<or> r \<noteq> Inr () \<Longrightarrow> poll_step t r t []"
  by (cases r) (auto simp: poll_step_def intro!: exI [of _ "[]"])

lemma executor_poll_runs:
  assumes "distinct (map fst (ex_sandboxes ex))"
  shows "runs (executor_poll user_timeout ex) K (\<lambda>r _. \<exists>res ex' new. r = Inr (res, ex', new)
    \<and> ex_next_id ex' = ex_next_id ex \<and> poll_step (ex_sandboxes ex) res (ex_sandboxes ex') new) h"
proof -
  let ?P = "\<lambda>r :: unit + (io_error + unit) \<times> executor \<times> exec_event list.
    \<exists>res ex' new. r = Inr (res, ex', new)
      \<and> ex_next_id ex' = ex_next_id ex \<and> poll_step (ex_sandboxes ex) res (ex_sandboxes ex') new"
  have timer: "runs (calculate_timeout user_timeout ex) K (\<lambda>r _. \<exists>x. r = Inr x) h" for h
    unfolding runs_wp calculate_timeout_def clock_now_def by (simp add: wp_rules)
  have wait: "runs (io_call c) K (\<lambda>r _. \<exists>x. r = Inr x) h" for c h
    by (rule runs_call) simp
  have go: "runs (io_bind (dispatch tokens (ex_sandboxes ex))
      (\<lambda>(r, t, events). io_ret (r, ex\<lparr>ex_sandboxes := t\<rparr>, events))) K (\<lambda>r _. ?P r) h" for tokens h
    by (rule runs_bind [OF dispatch_runs [OF assms]]) (auto intro!: runs_ret)
  show ?thesis
  proof (cases "ex_sandboxes ex = []")
    case True
    then show ?thesis
      by (auto simp: executor_poll_def intro!: runs_ret poll_step_refl)
  next
    case False
    then show ?thesis
      unfolding executor_poll_def
      by (auto intro!: runs_bind [OF timer] runs_bind [OF wait] runs_ret go poll_step_refl assms)
  qed
qed

end
