(* ===== verification/Executor_Session.thy ===== *)
theory Executor_Session
  imports Executor_Guarantees Parent_Guarantees
begin

text \<open>
  Whole lives of an executor: any sequence of operations, under any answers of the kernel, is
  explained by the ledger. From it follows what becomes of every sandbox, and what is reported of
  its output.
\<close>

section \<open>Facts about ledgers\<close>

definition opened :: "entry list \<Rightarrow> sandbox_id list" where
  "opened log = concat (map (\<lambda>x. case x of Opened i \<Rightarrow> [i] | _ \<Rightarrow> []) log)"

definition ends :: "entry list \<Rightarrow> (sandbox_id \<times> sandbox_output) list" where
  "ends log = concat (map (\<lambda>x. case x of
       Said (EvCompleted i out) \<Rightarrow> [(i, out)] | Said (EvTimeout i out) \<Rightarrow> [(i, out)] | _ \<Rightarrow> []) log)"

definition losses :: "entry list \<Rightarrow> sandbox_id list" where
  "losses log = concat (map (\<lambda>x. case x of Lost i \<Rightarrow> [i] | _ \<Rightarrow> []) log)"

definition data_of :: "bool \<Rightarrow> sandbox_id \<Rightarrow> entry list \<Rightarrow> u8 list" where
  "data_of is_stdout i log = concat (map (\<lambda>x. case x of
       Said (EvStdout j d) \<Rightarrow> if is_stdout \<and> j = i then d else []
     | Said (EvStderr j d) \<Rightarrow> if \<not> is_stdout \<and> j = i then d else []
     | _ \<Rightarrow> []) log)"

lemma log_simps [simp]:
  "opened [] = []" "opened (u @ v) = opened u @ opened v" "opened [Opened i] = [i]"
  "opened [Said e] = []" "opened [Lost i] = []"
  "ends [] = []" "ends (u @ v) = ends u @ ends v" "ends [Opened i] = []"
  "ends [Said (EvCompleted i out)] = [(i, out)]" "ends [Said (EvTimeout i out)] = [(i, out)]"
  "ends [Said (EvStdout i d)] = []" "ends [Said (EvStderr i d)] = []" "ends [Lost i] = []"
  "losses [] = []" "losses (u @ v) = losses u @ losses v" "losses [Opened i] = []"
  "losses [Said e] = []" "losses [Lost i] = [i]"
  "data_of b i [] = []" "data_of b i (u @ v) = data_of b i u @ data_of b i v"
  "data_of b i [Opened j] = []" "data_of b i [Lost j] = []"
  "data_of b i [Said (EvCompleted j out)] = []" "data_of b i [Said (EvTimeout j out)] = []"
  "data_of b i [Said (EvStdout j d)] = (if b \<and> j = i then d else [])"
  "data_of b i [Said (EvStderr j d)] = (if \<not> b \<and> j = i then d else [])"
  by (simp_all add: opened_def ends_def losses_def data_of_def)

lemma log_of_events [simp]:
  "opened (map Said evs) = []" "opened (map Lost is) = []" "losses (map Said evs) = []"
  "losses (map Lost is) = is" "ends (map Lost is) = []" "data_of b i (map Lost is) = []"
  by (induction "is") (auto simp: opened_def losses_def ends_def data_of_def comp_def)

lemma replay_snoc:
  "replay (log @ [x]) L = Some L' \<longleftrightarrow> (\<exists>L1. replay log L = Some L1 \<and> enter x L1 = Some L')"
  by (auto simp: bind_eq_Some_conv split: bind_split)

lemma enter_cases:
  assumes "enter x L = Some L'"
  obtains (Opened) i where "x = Opened i" "L i = None" "L' = L(i \<mapsto> ([], []))"
  | (Stdout) i d y z where "x = Said (EvStdout i d)" "L i = Some (y, z)" "L' = L(i \<mapsto> (y @ d, z))"
  | (Stderr) i d y z where "x = Said (EvStderr i d)" "L i = Some (y, z)" "L' = L(i \<mapsto> (y, z @ d))"
  | (End) i out where "x = Said (EvCompleted i out) \<or> x = Said (EvTimeout i out)"
      "L i = Some (out_stdout out, out_stderr out)" "L' = L(i := None)"
  | (Lost) i v where "x = Lost i" "L i = Some v" "L' = L(i := None)"
  using assms by (cases "(x, L)" rule: enter.cases) (auto split: if_splits)

text \<open>Every sandbox is accounted for: those in the ledger at first and those opened are still in
  the ledger, or their end was reported, or they were lost.\<close>

lemma ledger_counts:
  "replay log L0 = Some L \<Longrightarrow>
     count_list (opened log) i + (if i \<in> dom L0 then 1 else 0)
       = (if i \<in> dom L then 1 else 0) + count_list (map fst (ends log)) i + count_list (losses log) i"
proof (induction log arbitrary: L rule: rev_induct)
  case (snoc x log)
  then obtain L1 where L1: "replay log L0 = Some L1" "enter x L1 = Some L"
    unfolding replay_snoc by blast
  from L1(2) show ?case
    by (cases rule: enter_cases) (use snoc.IH [OF L1(1)] in \<open>auto split: if_splits\<close>)
qed simp

text \<open>When no sandbox is opened twice, the ledger holds all that was ever reported of a running
  sandbox, and an end reports all that was ever reported of its sandbox.\<close>

definition told :: "entry list \<Rightarrow> ledger \<Rightarrow> bool" where
  "told log L \<longleftrightarrow> (\<forall>i. L i \<noteq> None \<longrightarrow> L i = Some (data_of True i log, data_of False i log))
     \<and> (\<forall>i b. i \<notin> set (opened log) \<longrightarrow> data_of b i log = [])
     \<and> (\<forall>i out. (i, out) \<in> set (ends log) \<longrightarrow>
          out_stdout out = data_of True i log \<and> out_stderr out = data_of False i log)"

lemma distinct_count: "distinct xs \<Longrightarrow> count_list xs x = (if x \<in> set xs then 1 else 0)"
  by (induction xs) auto

lemma ledger_told:
  "replay log L0 = Some L \<Longrightarrow> L0 = Map.empty \<Longrightarrow> distinct (opened log) \<Longrightarrow> told log L"
proof (induction log arbitrary: L rule: rev_induct)
  case (snoc x log)
  then obtain L1 where L1: "replay log L0 = Some L1" "enter x L1 = Some L"
    unfolding replay_snoc by blast
  have IH: "told log L1" and dist: "distinct (opened log)"
    using snoc L1(1) by (auto simp: distinct_append)
  have once: "i \<in> set (opened log) \<and> i \<notin> fst ` set (ends log)" if "i \<in> dom L1" for i
  proof -
    have "count_list (opened log) i = 1 + count_list (map fst (ends log)) i + count_list (losses log) i"
      using ledger_counts [OF L1(1), of i] that snoc.prems(2) by (simp only: if_True dom_empty empty_iff if_False)
    moreover have "count_list (opened log) i \<le> 1" by (simp add: distinct_count [OF dist])
    ultimately have "count_list (opened log) i \<noteq> 0" "count_list (map fst (ends log)) i = 0" by linarith+
    then show ?thesis unfolding count_list_0_iff by simp
  qed
  have held: "v = (data_of True i log, data_of False i log)" if "L1 i = Some v" for i v
    using conjunct1 [OF IH [unfolded told_def], rule_format, of i] that by simp
  from L1(2) show ?case
  proof (cases rule: enter_cases)
    case (Opened i)
    then show ?thesis using IH snoc.prems(3) by (auto simp: told_def)
  next
    case (Stdout i d y z)
    then have "i \<in> dom L1" by blast
    with Stdout show ?thesis using IH once [of i] held [of i] by (auto simp: told_def rev_image_eqI)
  next
    case (Stderr i d y z)
    then have "i \<in> dom L1" by blast
    with Stderr show ?thesis using IH once [of i] held [of i] by (auto simp: told_def rev_image_eqI)
  next
    case (End i out)
    then show ?thesis using IH held [of i] by (auto simp: told_def split: if_splits)
  next
    case (Lost i v)
    then show ?thesis using IH by (auto simp: told_def split: if_splits)
  qed
qed (simp add: told_def)

section \<open>Sessions\<close>

text \<open>The sandboxes a poll loses: they have left the table, and no event reports their end.\<close>

definition lost_in :: "table \<Rightarrow> exec_event list \<Rightarrow> table \<Rightarrow> sandbox_id list" where
  "lost_in t new t' = filter (\<lambda>i. i \<notin> set (map fst t') \<and> i \<notin> fst ` set (ends (map Said new))) (map fst t)"

text \<open>A session is any sequence of operations on one executor, each under any answers of the kernel,
  with what it opened, what its polls returned, and what they lost. (Killing a sandbox and writing
  to its input leave the executor as it is.) The counter of identifiers must not overflow: a
  session has less than \<open>2^64\<close> spawns.\<close>

inductive session :: "executor \<Rightarrow> entry list \<Rightarrow> bool" where
  created: "executor_new K h = (Inr ex, h') \<Longrightarrow> session ex []"
| spawned: "session ex log \<Longrightarrow> ex_next_id ex + 1 \<noteq> 0 \<Longrightarrow>
     (executor_spawn dbg fuel host p ex :: (unit, _) io) K h = (Inr (Inr (Some i), ex'), h') \<Longrightarrow>
     session ex' (log @ [Opened i])"
| not_spawned: "session ex log \<Longrightarrow> ex_next_id ex + 1 \<noteq> 0 \<Longrightarrow>
     (executor_spawn dbg fuel host p ex :: (unit, _) io) K h = (Inr (r, ex'), h') \<Longrightarrow>
     r = Inl e \<or> r = Inr None \<Longrightarrow> session ex' log"
| stdin_closed: "session ex log \<Longrightarrow>
     (executor_close_stdin i ex :: (unit, _) io) K h = (Inr ex', h') \<Longrightarrow> session ex' log"
| polled: "session ex log \<Longrightarrow> executor_poll user_timeout ex K h = (Inr (r, ex', new), h') \<Longrightarrow>
     session ex' (log @ map Said new @ map Lost (lost_in (ex_sandboxes ex) new (ex_sandboxes ex')))"

inductive_cases sessionE: "session ex log"

lemma executor_new_result: "executor_new K h = (Inr ex, h') \<Longrightarrow> ex = \<lparr>ex_sandboxes = [], ex_next_id = 0\<rparr>"
  by (auto simp: executor_new_def io_map_err_def io_then_def io_bind_def io_ret_def split: sum.splits prod.splits)

lemma wp_True: "wp m K (\<lambda>_ _. True) (\<lambda>_ _. True) h"
  by (simp add: wp_def split: prod.split sum.split)

text \<open>What a spawn does to the executor. The identifier is used up in any case.\<close>

definition spawn_step :: "executor \<Rightarrow> (executor_error + sandbox_id option) \<times> executor \<Rightarrow> bool" where
  "spawn_step ex = (\<lambda>(x, ex'). case x of
       Inr (Some i) \<Rightarrow> i = SandboxId (ex_next_id ex) \<and> ex_next_id ex' = ex_next_id ex + 1
         \<and> (\<exists>st. ex_sandboxes ex' = table_insert i st (ex_sandboxes ex) \<and> ss_stdout st = [] \<and> ss_stderr st = [])
     | _ \<Rightarrow> ex_sandboxes ex' = ex_sandboxes ex \<and> ex_next_id ex' = ex_next_id ex + 1)"

lemma executor_spawn_step:
  assumes "ex_next_id ex + 1 \<noteq> 0"
  shows "wp (executor_spawn dbg fuel host p ex) K (\<lambda>r _. spawn_step ex r) (\<lambda>_ _. False) h"
proof -
  let ?fresh = "\<lambda>r. \<forall>st. r = Some st \<longrightarrow> ss_stdout st = [] \<and> ss_stderr st = []"
  have inner: "wp (io_bind (spawn_sandbox fuel host p) (\<lambda>r. case r of
              None \<Rightarrow> io_ret None
            | Some sp \<Rightarrow>
                io_then (io_on_err (register_sandbox n sp) (drop_spawned sp))
                (io_bind clock_now (\<lambda>t0. io_bind clock_now (\<lambda>t1.
                   io_ret (Some \<lparr>ss_spawned = sp, ss_deadline = t0 + timeout p, ss_start = t1,
                      ss_stdout = [], ss_stderr = [], ss_max_output = max_output p,
                      ss_pidfd_ready = False, ss_stdout_closed = False, ss_stderr_closed = False\<rparr>))))))
      K (\<lambda>r _. ?fresh r) (\<lambda>_ _. True) h" for n h
    unfolding wp_bind
  proof (rule wp_mono [OF wp_True])
    fix r :: "spawned_sandbox option" and h'
    show "wp (case r of
              None \<Rightarrow> io_ret None
            | Some sp \<Rightarrow>
                io_then (io_on_err (register_sandbox n sp) (drop_spawned sp))
                (io_bind clock_now (\<lambda>t0. io_bind clock_now (\<lambda>t1.
                   io_ret (Some \<lparr>ss_spawned = sp, ss_deadline = t0 + timeout p, ss_start = t1,
                      ss_stdout = [], ss_stderr = [], ss_max_output = max_output p,
                      ss_pidfd_ready = False, ss_stdout_closed = False, ss_stderr_closed = False\<rparr>)))))
      K (\<lambda>r _. ?fresh r) (\<lambda>_ _. True) h'"
    proof (cases r)
      case (Some sp)
      then show ?thesis
        by (simp add: wp_then wp_on_err)
          (rule wp_mono [OF wp_True], simp_all add: wp_bind wp_call wp_ret clock_now_def wp_True)
    qed (simp add: wp_ret)
  qed simp
  have "\<not> (dbg \<and> ex_next_id ex + 1 = 0)" using assms by blast
  then show ?thesis
    unfolding executor_spawn_def Let_def
    by (simp only: if_False, subst wp_bind, subst wp_try)
      (rule wp_mono [OF inner], auto simp: spawn_step_def wp_ret split: option.split)
qed

text \<open>The executor of a session: no sandbox is in the table twice, and every identifier in the
  table is below the counter.\<close>

definition executor_ok :: "executor \<Rightarrow> bool" where
  "executor_ok ex \<longleftrightarrow> distinct (map fst (ex_sandboxes ex))
     \<and> (\<forall>i \<in> fst ` set (ex_sandboxes ex). \<exists>n. i = SandboxId n \<and> n < ex_next_id ex)"

definition ledger_ok :: "executor \<Rightarrow> entry list \<Rightarrow> bool" where
  "ledger_ok ex log \<longleftrightarrow> replay log Map.empty = Some (ledger_of (ex_sandboxes ex))
     \<and> distinct (opened log) \<and> (\<forall>i \<in> set (opened log). \<exists>n. i = SandboxId n \<and> n < ex_next_id ex)"

lemma next_id_grows: "(n :: u64) + 1 \<noteq> 0 \<Longrightarrow> m < n + 1 \<longleftrightarrow> m < n \<or> m = n"
proof -
  assume "n + 1 \<noteq> 0"
  then have "unat (n + 1) = Suc (unat n)" using unatSuc [of n] by (simp add: add.commute)
  then show "m < n + 1 \<longleftrightarrow> m < n \<or> m = n"
    by (auto simp: word_less_nat_alt less_Suc_eq word_unat_eq_iff)
qed

lemma spawned_ok:
  assumes "executor_ok ex" and "ledger_ok ex log" and "ex_next_id ex + 1 \<noteq> 0"
    and "spawn_step ex (Inr (Some i), ex')"
  shows "executor_ok ex'" "ledger_ok ex' (log @ [Opened i])"
proof -
  obtain st where ex': "i = SandboxId (ex_next_id ex)" "ex_next_id ex' = ex_next_id ex + 1"
    "ex_sandboxes ex' = table_insert i st (ex_sandboxes ex)" "ss_stdout st = []" "ss_stderr st = []"
    using assms(4) by (auto simp: spawn_step_def)
  have new: "i \<notin> fst ` set (ex_sandboxes ex)" "i \<notin> set (opened log)"
    using assms(1,2) ex'(1) by (auto simp: executor_ok_def ledger_ok_def)
  then have "filter (\<lambda>e. fst e \<noteq> i) (ex_sandboxes ex) = ex_sandboxes ex"
    by (auto simp: filter_id_conv)
  with assms(1,3) ex' new show "executor_ok ex'"
    by (auto simp: executor_ok_def table_insert_def next_id_grows)
  have "ledger_of (ex_sandboxes ex) i = None"
    using new(1) by (simp add: ledger_of_def map_of_eq_None_iff)
  with assms(2,3) ex' new(2) show "ledger_ok ex' (log @ [Opened i])"
    by (auto simp: ledger_ok_def ledger_of_updates next_id_grows)
qed

lemma close_stdin_step:
  "wp (executor_close_stdin i ex) K (\<lambda>ex' _. ex_next_id ex' = ex_next_id ex
     \<and> map fst (ex_sandboxes ex') = map fst (ex_sandboxes ex)
     \<and> ledger_of (ex_sandboxes ex') = ledger_of (ex_sandboxes ex)) (\<lambda>_ _. False) h"
  by (auto simp: executor_close_stdin_def wp_rules close_fd_def ledger_of_quiet_update split: option.split)

lemma ends_found:
  "replay log L = Some L' \<Longrightarrow> i \<in> dom L \<Longrightarrow> i \<notin> dom L' \<Longrightarrow> opened log = [] \<Longrightarrow>
     i \<in> fst ` set (ends log) \<or> i \<in> set (losses log)"
  using ledger_counts [of log L L' i]
  by (auto simp: count_list_0_iff split: if_splits)

lemma losses_found:
  assumes "replay log L = Some L'" and "i \<in> set (losses log)" and "opened log = []"
  shows "i \<in> dom L \<and> i \<notin> dom L' \<and> i \<notin> fst ` set (ends log)"
proof -
  have "count_list (losses log) i \<noteq> 0" using assms(2) by (simp add: count_list_0_iff)
  then have "i \<in> dom L" "i \<notin> dom L'" "count_list (map fst (ends log)) i = 0"
    using ledger_counts [OF assms(1), of i] assms(3) by (auto split: if_splits)
  then show ?thesis by (simp add: count_list_0_iff)
qed

lemma dom_ledger_of: "dom (ledger_of t) = fst ` set t"
  by (auto simp: ledger_of_def dom_map_of_conv_image_fst [symmetric])

lemma lost_in_unique:
  assumes "replay (map Said new @ map Lost lost) (ledger_of t) = Some (ledger_of t')"
    and "length lost \<le> 1" and "distinct (map fst t)"
  shows "lost = lost_in t new t'"
proof -
  let ?log = "map Said new @ map Lost lost"
  have "i \<in> set (lost_in t new t') \<longleftrightarrow> i \<in> set lost" for i
    using ends_found [OF assms(1), of i] losses_found [OF assms(1), of i]
    unfolding lost_in_def dom_ledger_of by auto
  then have "set (lost_in t new t') = set lost" by blast
  moreover have "distinct (lost_in t new t')"
    using assms(3) by (simp add: lost_in_def)
  ultimately show ?thesis
    using assms(2) by (cases lost; cases "lost_in t new t'"; cases "tl (lost_in t new t')") auto
qed

lemma polled_ok:
  assumes "executor_ok ex" and "ledger_ok ex log"
    and "executor_poll user_timeout ex K h = (Inr (r, ex', new), h')"
  shows "executor_ok ex'"
    "ledger_ok ex' (log @ map Said new @ map Lost (lost_in (ex_sandboxes ex) new (ex_sandboxes ex')))"
    "r = Inr () \<Longrightarrow> \<forall>(i, st) \<in> set (ex_sandboxes ex'). \<not> is_done st"
    "length (lost_in (ex_sandboxes ex) new (ex_sandboxes ex')) \<le> (if r = Inr () then 0 else 1)"
proof -
  have keys: "distinct (map fst (ex_sandboxes ex))" using assms(1) by (simp add: executor_ok_def)
  have same: "ex_next_id ex' = ex_next_id ex" and "poll_step (ex_sandboxes ex) r (ex_sandboxes ex') new"
    using runs_eq [OF executor_poll_runs [OF keys] assms(3)] by auto
  then obtain lost where l: "replay (map Said new @ map Lost lost) (ledger_of (ex_sandboxes ex))
       = Some (ledger_of (ex_sandboxes ex'))" "length lost \<le> 1"
    "r = Inr () \<longrightarrow> lost = [] \<and> (\<forall>(i, st) \<in> set (ex_sandboxes ex'). \<not> is_done st)"
    "distinct (map fst (ex_sandboxes ex'))"
    "set (map fst (ex_sandboxes ex')) \<subseteq> set (map fst (ex_sandboxes ex))"
    unfolding poll_step_def by blast
  have lost: "lost = lost_in (ex_sandboxes ex) new (ex_sandboxes ex')"
    by (rule lost_in_unique [OF l(1,2) keys])
  show "executor_ok ex'"
    using assms(1) l(4,5) same unfolding executor_ok_def list.set_map by (metis subsetD)
  show "ledger_ok ex' (log @ map Said new @ map Lost (lost_in (ex_sandboxes ex) new (ex_sandboxes ex')))"
    using assms(2) l(1) same unfolding lost [symmetric] by (simp add: ledger_ok_def)
  show "\<forall>(i, st) \<in> set (ex_sandboxes ex'). \<not> is_done st" if "r = Inr ()"
    using l(3) that by blast
  show "length (lost_in (ex_sandboxes ex) new (ex_sandboxes ex')) \<le> (if r = Inr () then 0 else 1)"
    using l(2,3) unfolding lost [symmetric] by simp
qed

lemma session_ok: "session ex log \<Longrightarrow> executor_ok ex \<and> ledger_ok ex log"
proof (induction rule: session.induct)
  case (created K h ex h')
  then have "ex = \<lparr>ex_sandboxes = [], ex_next_id = 0\<rparr>" by (rule executor_new_result)
  then show ?case by (simp add: executor_ok_def ledger_ok_def ledger_of_def fun_eq_iff)
next
  case (spawned ex log dbg fuel host p K h i ex' h')
  then have "spawn_step ex (Inr (Some i), ex')"
    using wp_Inr [OF executor_spawn_step] by blast
  with spawned show ?case using spawned_ok by blast
next
  case (not_spawned ex log dbg fuel host p K h r ex' h' e)
  then have "spawn_step ex (r, ex')"
    using wp_Inr [OF executor_spawn_step] by blast
  with not_spawned show ?case
    by (auto simp: spawn_step_def executor_ok_def ledger_ok_def next_id_grows split: sum.splits option.splits)
next
  case (stdin_closed ex log i K h ex' h')
  then have same: "ex_next_id ex' = ex_next_id ex"
    "map fst (ex_sandboxes ex') = map fst (ex_sandboxes ex)"
    "ledger_of (ex_sandboxes ex') = ledger_of (ex_sandboxes ex)"
    using wp_Inr [OF close_stdin_step] by blast+
  then have "fst ` set (ex_sandboxes ex') = fst ` set (ex_sandboxes ex)"
    by (metis list.set_map)
  with same stdin_closed show ?case by (simp add: executor_ok_def ledger_ok_def)
next
  case (polled ex log user_timeout K h r ex' new h')
  then show ?case using polled_ok by blast
qed

section \<open>A session to apply the properties to\<close>

text \<open>One sandbox is spawned, writes \<open>hi\<close>, closes its pipes and exits with 0, and a single poll sees
  all of it.\<close>

definition demo_sp :: spawned_sandbox where
  "demo_sp = \<lparr>sp_pidfd = 20, sp_stdin = 4, sp_stdout = 5, sp_stderr = 7, sp_notify = None,
     sp_workspace = demo_ws\<rparr>"

definition loop_os :: os where
  "loop_os = (\<lambda>h c. case c of
      Mio (PollWait d) \<Rightarrow> ok_answer\<lparr>ans_ret := 3, ans_vals := [0, 1, 2]\<rparr>
    | Fd (Read fd n) \<Rightarrow>
        (if fd = 5 \<and> made c h = 0 then ok_answer\<lparr>ans_ret := 2, ans_data := [104, 105]\<rparr> else ok_answer)
    | Proc (Waitid fd) \<Rightarrow> ok_answer\<lparr>ans_vals := [1, 0]\<rparr>
    | _ \<Rightarrow> ok_answer)"

definition demo_st :: sandbox_state where
  "demo_st = \<lparr>ss_spawned = demo_sp, ss_deadline = timeout demo_plan, ss_start = 0, ss_stdout = [],
     ss_stderr = [], ss_max_output = max_output demo_plan, ss_pidfd_ready = False,
     ss_stdout_closed = False, ss_stderr_closed = False\<rparr>"


lemma demo_finish_spawn:
  "poll_count h = 0 \<Longrightarrow> \<exists>u. finish_spawn (Suc 0) 42 20 None demo_ws demo_plan run_os h = (Inr (Some demo_sp), h @ u)"
  by (simp add: finish_spawn_def monitor_eval io_bind_some_def sync_with_child_def poll_or_kill_def
      io_when_def write_plan_stdin_def drop_sync_def demo_sp_def run_os_def demo_ws_def demo_plan_def 
      plan_binary_path_def new_plan_def default_plan_def)

lemma demo_spawn_sandbox: "\<exists>t. spawn_sandbox (Suc 0) demo_host demo_plan run_os [] = (Inr (Some demo_sp), t)"
proof -
  obtain t where t: "launch demo_host demo_plan run_os [] = (Inr (42, demo_ws, None), t)"
    "poll_count t = 0" using demo_launch by blast
  obtain f where f: "\<And>h. poll_count h = 0 \<Longrightarrow>
      finish_spawn (Suc 0) 42 20 None demo_ws demo_plan run_os h = (Inr (Some demo_sp), h @ f h)"
    using demo_finish_spawn by metis
  show ?thesis
    using t by (simp add: spawn_sandbox_def monitor_eval pidfd_open_def io_on_err_def
        receive_notify_def close_parent_pipe_ends_def close_opt_def run_os_simps f)
qed

definition demo_ex :: executor where
  "demo_ex = \<lparr>ex_sandboxes = [(SandboxId 0, demo_st)], ex_next_id = 1\<rparr>"

lemma demo_executor_spawn:
  "\<exists>h'. executor_spawn False (Suc 0) demo_host demo_plan \<lparr>ex_sandboxes = [], ex_next_id = 0\<rparr> run_os []
     = (Inr (Inr (Some (SandboxId 0)), demo_ex), h')"
proof -
  obtain t where t: "spawn_sandbox (Suc 0) demo_host demo_plan run_os [] = (Inr (Some demo_sp), t)"
    using demo_spawn_sandbox by blast
  have q: "run_os h (Mio m) = ok_answer" "run_os h (Proc Now) = ok_answer" for h m
    by (simp_all add: run_os_def)
  show ?thesis
    using t by (simp add: executor_spawn_def monitor_eval io_on_err_def register_sandbox_def register_fd_def
        q table_insert_def demo_ex_def demo_st_def)
qed

lemma demo_ready:
  "ready_ids [(SandboxId 0, st)] TOKEN_TYPE_STDOUT [0, 1, 2] = [SandboxId 0]"
  "ready_ids [(SandboxId 0, st)] TOKEN_TYPE_STDERR [0, 1, 2] = [SandboxId 0]"
  "ready_ids [(SandboxId 0, st)] TOKEN_TYPE_PIDFD [0, 1, 2] = [SandboxId 0]"
  by (simp_all add: ready_ids_def decode_token_def TOKEN_TYPE_STDOUT_def TOKEN_TYPE_STDERR_def
      TOKEN_TYPE_PIDFD_def TOKEN_TYPE_BITS_def TOKEN_TYPE_MASK_def drop_bit_eq_div)

lemma loop_os_simps:
  "loop_os h (Mio (PollWait d)) = ok_answer\<lparr>ans_ret := 3, ans_vals := [0, 1, 2]\<rparr>"
  "loop_os h (Fd (Read 5 n)) = (if made (Fd (Read 5 n)) h = 0
     then ok_answer\<lparr>ans_ret := 2, ans_data := [104, 105]\<rparr> else ok_answer)"
  "loop_os h (Fd (Read 7 n)) = ok_answer"
  "loop_os h (Proc (Waitid fd)) = ok_answer\<lparr>ans_vals := [1, 0]\<rparr>"
  "loop_os h (Proc Now) = ok_answer" "loop_os h (Mio (Deregister fd)) = ok_answer"
  "loop_os h (Fd (Close fd)) = ok_answer" "loop_os h (Fs (RemoveDirAll q)) = ok_answer"
  by (simp_all add: loop_os_def)


definition exited :: sandbox_state where "exited = demo_st\<lparr>ss_pidfd_ready := True\<rparr>"

definition said_hi :: sandbox_state where "said_hi = exited\<lparr>ss_stdout := [104, 105]\<rparr>"

lemmas demo_st_defs = exited_def said_hi_def demo_st_def demo_sp_def demo_plan_def plan_binary_path_def
  new_plan_def default_plan_def append_output_def

lemma demo_read:
  "made (Fd (Read 5 4096)) h = 0 \<Longrightarrow> read_loop i True exited [] loop_os h
     = (Inr (mark_closed True said_hi, [EvStdout i [104, 105]]),
        h @ [(Fd (Read 5 4096), ok_answer\<lparr>ans_ret := 2, ans_data := [104, 105]\<rparr>), (Fd (Read 5 4096), ok_answer)])"
  "read_loop i False (mark_closed True said_hi) evs loop_os h
     = (Inr (mark_closed False (mark_closed True said_hi), evs), h @ [(Fd (Read 7 4096), ok_answer)])"
proof -
  have st: "sp_stdout (ss_spawned exited) = 5" "sp_stdout (ss_spawned said_hi) = 5"
    "append_output True [104, 105] exited = said_hi"
    "total_output said_hi \<le> unat (ss_max_output said_hi)"
    by (simp_all add: demo_st_defs mark_closed_def total_output_def)
  assume fresh: "made (Fd (Read 5 4096)) h = 0"
  have "read_loop i True exited [] loop_os h = read_loop i True said_hi [EvStdout i [104, 105]]
      loop_os (h @ [(Fd (Read 5 4096), ok_answer\<lparr>ans_ret := 2, ans_data := [104, 105]\<rparr>)])"
    by (rule read_loop_data(1)) (simp_all add: st loop_os_simps fresh ok_answer_def data_event_def)
  also have "\<dots> = (Inr (mark_closed True said_hi, [EvStdout i [104, 105]]),
        h @ [(Fd (Read 5 4096), ok_answer\<lparr>ans_ret := 2, ans_data := [104, 105]\<rparr>), (Fd (Read 5 4096), ok_answer)])"
    by (subst read_loop_end [OF refl]) (simp_all add: st fresh loop_os_simps ok_answer_def)
  finally show "read_loop i True exited [] loop_os h
     = (Inr (mark_closed True said_hi, [EvStdout i [104, 105]]),
        h @ [(Fd (Read 5 4096), ok_answer\<lparr>ans_ret := 2, ans_data := [104, 105]\<rparr>), (Fd (Read 5 4096), ok_answer)])" .
next
  have "sp_stderr (ss_spawned (mark_closed True said_hi)) = 7" by (simp add: demo_st_defs mark_closed_def)
  then show "read_loop i False (mark_closed True said_hi) evs loop_os h
     = (Inr (mark_closed False (mark_closed True said_hi), evs), h @ [(Fd (Read 7 4096), ok_answer)])"
    by (subst read_loop_end [OF refl]) (simp_all add: loop_os_simps ok_answer_def)
qed

lemma demo_poll:
  "\<exists>h'. executor_poll None demo_ex loop_os [] = (Inr (Inr (), \<lparr>ex_sandboxes = [], ex_next_id = 1\<rparr>,
     [EvStdout (SandboxId 0) [104, 105], EvCompleted (SandboxId 0) demo_out]), h')"
proof -
  have ready: "mark_ready [SandboxId 0] [(SandboxId 0, demo_st)] = [(SandboxId 0, exited)]"
    by (simp add: mark_ready_def table_update_def exited_def)
  define fin where "fin = mark_closed False (mark_closed True said_hi)"
  have lim: "unat (ss_max_output fin) = 16777216"  "0 < timeout demo_plan"
    by (simp_all add: fin_def mark_closed_def demo_st_defs from_secs_def)
  have fin: "is_done fin" "ss_deadline fin = timeout demo_plan" "ss_spawned fin = demo_sp" "ss_stdout fin = [104, 105]"
     "ss_stderr fin = []" "ss_start fin = 0" "total_output fin \<le> unat (ss_max_output fin)" 
    by (simp_all only: lim, simp_all add: fin_def is_done_def mark_closed_def said_hi_def exited_def demo_st_def total_output_def)
  have comp: "\<exists>u. complete_one (SandboxId 0) fin loop_os h = (Inr (EvCompleted (SandboxId 0) demo_out), h @ u)" for h
    using fin lim(2) by (simp add: complete_one_def monitor_eval loop_os_simps demo_out_def drop_spawned_def demo_sp_def close_if_open_def io_when_def
       close_opt_def remove_dir_all_def completion_status_def demo_ws_def)
  then obtain c where c: "\<And>h. complete_one (SandboxId 0) fin loop_os h = (Inr (EvCompleted (SandboxId 0) demo_out), h @ c h)"
    by metis
  show ?thesis
    using fin lim(2) by (simp add: executor_poll_def demo_ex_def calculate_timeout_def clock_now_def io_bind_def io_call_def io_ret_def
     loop_os_simps ok_answer_def dispatch_def demo_ready ready read_pipe_def demo_read [unfolded ok_answer_def] fin_def [symmetric] table_update_def check_completions_def
      c io_try_def table_remove_def)
qed

section \<open>Properties\<close>


text \<open>C21: The executor implements the ledger: over any session, what it opened, what its polls
  returned, in their order, and what they lost are entries that the ledger allows, no identifier
  is opened twice, and the ledger they lead to holds exactly the running sandboxes with the
  contents of their buffers.\<close>
theorem session_refines_ledger:
  assumes "session ex log"
  shows "replay log Map.empty = Some (ledger_of (ex_sandboxes ex)) \<and> distinct (opened log)"
  using session_ok [OF assms] by (simp add: ledger_ok_def)


text \<open>C23: The output reported with the end of a sandbox, by completion or by timeout, is the
  concatenation of what the session's polls reported of it piece by piece.\<close>
theorem session_output_complete:
  assumes "session ex log" and "(i, out) \<in> set (ends log)"
  shows "out_stdout out = data_of True i log \<and> out_stderr out = data_of False i log"
proof -
  have "replay log Map.empty = Some (ledger_of (ex_sandboxes ex))" "distinct (opened log)"
    using session_ok [OF assms(1)] by (simp_all add: ledger_ok_def)
  from ledger_told [OF this(1) refl this(2)] assms(2) show ?thesis
    by (simp add: told_def)
qed


lemma demo_session:
  "session \<lparr>ex_sandboxes = [], ex_next_id = 1\<rparr>
     [Opened (SandboxId 0), Said (EvStdout (SandboxId 0) [104, 105]), Said (EvCompleted (SandboxId 0) demo_out)]"
  "session demo_ex [Opened (SandboxId 0)]"
proof -
  have "(executor_new :: (io_error, executor) io) run_os [] =
      (Inr \<lparr>ex_sandboxes = [], ex_next_id = 0\<rparr>, [(Mio PollNew, ok_answer)])"
    by (simp add: executor_new_def monitor_eval run_os_def)
  from session.spawned [OF session.created [OF this]] show s: "session demo_ex [Opened (SandboxId 0)]"
    using demo_executor_spawn by fastforce
  obtain h' where "executor_poll None demo_ex loop_os [] = (Inr (Inr (), \<lparr>ex_sandboxes = [], ex_next_id = 1\<rparr>,
     [EvStdout (SandboxId 0) [104, 105], EvCompleted (SandboxId 0) demo_out]), h')"
    using demo_poll by blast
  from session.polled [OF s this] show "session \<lparr>ex_sandboxes = [], ex_next_id = 1\<rparr>
     [Opened (SandboxId 0), Said (EvStdout (SandboxId 0) [104, 105]), Said (EvCompleted (SandboxId 0) demo_out)]"
    by (simp add: lost_in_def demo_ex_def ends_def)
qed


theorem session_refines_ledger_witness:
  "replay [Opened (SandboxId 0)] Map.empty = Some (ledger_of (ex_sandboxes demo_ex)) \<and> distinct (opened [Opened (SandboxId 0)])"
  by (rule session_refines_ledger [OF demo_session(2)])


theorem session_output_complete_witness:
  "data_of True (SandboxId 0) [Opened (SandboxId 0), Said (EvStdout (SandboxId 0) [104, 105]),
     Said (EvCompleted (SandboxId 0) demo_out)] = [104, 105]"
  using session_output_complete [OF demo_session(1), of "SandboxId 0" demo_out]
  by (simp add: ends_def demo_out_def)


end
