(* ===== verification/Runtime_Probe.thy ===== *)
theory Runtime_Probe
  imports Sandbox_Parent
begin

text \<open>
  The parts of the \<open>evalbox\<close> crate that its runtimes share: finding a binary (\<open>detect.rs\<close>), what
  a probe reports (\<open>probe.rs\<close>), the cache of probe results (\<open>probe_cache.rs\<close>), the errors
  (\<open>error.rs\<close>) and the output of a run (\<open>output.rs\<close>). A file-system function of the standard library
  is one call. Messages of wrapped errors are left out of the texts that quote them.
\<close>

unbundle bit_operations_syntax

section \<open>Errors\<close>

datatype probe_error =
  PbNotFound string string | ProbeScriptFailed string | ParseError string
| ElfError path string | PbIo io_error | NotExecutable path

datatype run_error =
  ErrSandbox executor_error | ErrValidation string | InvalidConfig string
| SystemRequirements string | Compilation string "i32 option" | RuntimeNotFound string string
| ErrProbe probe_error | ErrIo io_error

section \<open>Finding a binary\<close>

definition is_executable :: "path \<Rightarrow> ('e, bool) io" where
  "is_executable p = io_bind (io_try (sys (Fs (FileMode p))))
     (\<lambda>r. io_ret (case r of Inr m \<Rightarrow> nat (ans_ret m) AND 73 \<noteq> 0 | Inl _ \<Rightarrow> False))"

definition exists_executable :: "path \<Rightarrow> ('e, bool) io" where
  "exists_executable p =
     io_bind (path_exists p) (\<lambda>b. if b then is_executable p else io_ret False)"

primrec first_executable :: "path list \<Rightarrow> ('e, path option) io" where
  "first_executable [] = io_ret None"
| "first_executable (p # ps) =
     io_bind (exists_executable p) (\<lambda>b. if b then io_ret (Some p) else first_executable ps)"

definition resolve_program :: "string \<Rightarrow> path list \<Rightarrow> ('e, path option) io" where
  "resolve_program name fallbacks =
     (if is_absolute name
      then io_bind (exists_executable name) (\<lambda>b. io_ret (if b then Some name else None))
      else io_bind (io_try (sys (Fs (Which name)))) (\<lambda>r. case r of
             Inr found \<Rightarrow> io_ret (Some (ans_str found))
           | Inl _ \<Rightarrow> first_executable fallbacks))"

text \<open>\<open>std::env::var\<close>: a variable that is missing or no Unicode text is an error.\<close>

definition env_var :: "string \<Rightarrow> ('e, string option) io" where
  "env_var name = io_bind (io_try (sys (Fs (EnvVar name))))
     (\<lambda>r. io_ret (case r of Inr v \<Rightarrow> to_str (ans_str v) | Inl _ \<Rightarrow> None))"

definition fs_test :: "fs_call \<Rightarrow> ('e, bool) io" where
  "fs_test c = io_bind (io_call (Fs c)) (\<lambda>r. io_ret (ans_ret r \<noteq> 0))"

definition resolve_from_env :: "string \<Rightarrow> string \<Rightarrow> ('e, path option) io" where
  "resolve_from_env var bin_name =
     io_bind (env_var var) (\<lambda>v. case v of
        None \<Rightarrow> io_ret None
      | Some p \<Rightarrow>
          io_bind (io_bind (fs_test (IsFile p)) (\<lambda>f. if f then is_executable p else io_ret False)) (\<lambda>file.
          if file then io_ret (Some p)
          else io_bind (fs_test (IsDir p)) (\<lambda>dir.
            if dir then first_executable [path_join (path_join p ''bin'') bin_name, path_join p bin_name]
            else io_ret None)))"

definition prefix_dir :: "path \<Rightarrow> path option" where
  "prefix_dir binary = (case path_parent binary of
       None \<Rightarrow> None
     | Some bin_dir \<Rightarrow> if path_ends_with bin_dir ''bin'' then path_parent bin_dir else Some bin_dir)"

section \<open>What a probe reports\<close>

record runtime_info =
  ri_binary :: path
  ri_mounts :: "mount list"
  ri_env :: env
  ri_shared_libs :: "path list"

definition new_runtime_info :: "path \<Rightarrow> runtime_info" where
  "new_runtime_info binary =
     \<lparr>ri_binary = binary, ri_mounts = [], ri_env = [], ri_shared_libs = []\<rparr>"

definition ri_mount :: "runtime_info \<Rightarrow> mount \<Rightarrow> runtime_info" where
  "ri_mount info m = info\<lparr>ri_mounts := ri_mounts info @ [m]\<rparr>"

definition ri_add_mounts :: "runtime_info \<Rightarrow> mount list \<Rightarrow> runtime_info" where
  "ri_add_mounts info ms = info\<lparr>ri_mounts := ri_mounts info @ ms\<rparr>"

definition ri_env_var :: "runtime_info \<Rightarrow> string \<Rightarrow> string \<Rightarrow> runtime_info" where
  "ri_env_var info key value = info\<lparr>ri_env := AList.update key value (ri_env info)\<rparr>"

definition ri_shared_lib :: "runtime_info \<Rightarrow> path \<Rightarrow> runtime_info" where
  "ri_shared_lib info p = info\<lparr>ri_shared_libs := ri_shared_libs info @ [p]\<rparr>"

type_synonym prober = "path \<Rightarrow> (probe_error, runtime_info) io"

section \<open>The cache of probe results\<close>

text \<open>
  The cache is a table from 64-bit keys to results, in the order of the shards of the
  \<open>DashMap\<close>. The standard library does not specify the algorithm of its default hasher: \<open>hash\<close>
  is a parameter, of the path and the modification time (seconds and nanoseconds).
\<close>

type_synonym path_hasher = "path \<Rightarrow> int list \<Rightarrow> u64"
type_synonym probe_cache = "(u64 \<times> runtime_info) list"

definition new_probe_cache :: probe_cache where
  "new_probe_cache = []"

definition compute_probe_key :: "path_hasher \<Rightarrow> path \<Rightarrow> (probe_error, u64) io" where
  "compute_probe_key hash p =
     io_bind (io_map_err (\<lambda>e. PbIo (Os e)) (sys (Fs (ModTime p))))
       (\<lambda>m. io_ret (hash p (if ans_vals m = [] then [0, 0] else ans_vals m)))"

definition get_or_probe ::
  "path_hasher \<Rightarrow> prober \<Rightarrow> path \<Rightarrow> probe_cache \<Rightarrow> ('e, (probe_error + runtime_info) \<times> probe_cache) io" where
  "get_or_probe hash probe binary cache =
     io_bind (io_try (compute_probe_key hash binary)) (\<lambda>k. case k of
        Inl e \<Rightarrow> io_ret (Inl e, cache)
      | Inr key \<Rightarrow> (case map_of cache key of
          Some info \<Rightarrow> io_ret (Inr info, cache)
        | None \<Rightarrow> io_bind (io_try (probe binary)) (\<lambda>r. case r of
            Inl e \<Rightarrow> io_ret (Inl e, cache)
          | Inr info \<Rightarrow> io_ret (Inr info, AList.update key info cache))))"

definition cache_clear :: "probe_cache \<Rightarrow> probe_cache" where
  "cache_clear cache = []"

definition cache_len :: "probe_cache \<Rightarrow> nat" where
  "cache_len cache = length cache"

definition cache_is_empty :: "probe_cache \<Rightarrow> bool" where
  "cache_is_empty cache \<longleftrightarrow> cache_len cache = 0"

section \<open>The output of a run\<close>

text \<open>The texts of the sandbox's own output (\<open>monitor.rs\<close>).\<close>

definition output_stdout_str :: "sandbox_output \<Rightarrow> string" where
  "output_stdout_str out = bytes_to_string (utf8_lossy (out_stdout out))"

definition output_stderr_str :: "sandbox_output \<Rightarrow> string" where
  "output_stderr_str out = bytes_to_string (utf8_lossy (out_stderr out))"

record run_output =
  ro_stdout :: "u8 list"
  ro_stderr :: "u8 list"
  ro_status :: status
  ro_exit_code :: int
  ro_duration :: duration

definition from_sandbox_output :: "sandbox_output \<Rightarrow> run_output" where
  "from_sandbox_output out =
     \<lparr>ro_stdout = out_stdout out, ro_stderr = out_stderr out, ro_status = out_status out,
      ro_exit_code = unwrap_or (out_exit_code out) (-1), ro_duration = out_duration out\<rparr>"

definition run_success :: "run_output \<Rightarrow> bool" where
  "run_success out \<longleftrightarrow> ro_status out = Exited \<and> ro_exit_code out = 0"

definition stdout_str :: "run_output \<Rightarrow> string" where
  "stdout_str out = bytes_to_string (utf8_lossy (ro_stdout out))"

definition stderr_str :: "run_output \<Rightarrow> string" where
  "stderr_str out = bytes_to_string (utf8_lossy (ro_stderr out))"

text \<open>\<open>Executor::run\<close> followed by the conversion of its output: the last step of every runtime.
  \<open>None\<close> when the fuel of the loops does not suffice.\<close>

definition new_plan_io :: "string list \<Rightarrow> ('e, plan) io" where
  "new_plan_io c = io_bind (path_exists ''/nix/store'') (\<lambda>nix. io_ret (new_plan nix c))"

definition run_plan :: "nat \<Rightarrow> host \<Rightarrow> plan \<Rightarrow> (run_error, run_output option) io" where
  "run_plan fuel host p =
     io_bind (io_map_err ErrSandbox (run fuel host p))
       (\<lambda>out. io_ret (map_option from_sandbox_output out))"

end
