(* ===== verification/Runtime_Shell.thy ===== *)
theory Runtime_Shell
  imports Runtime_Probe Executor_Loop
begin

text \<open>
  The options all three builders have in common, the shell runtime (\<open>shell/builder.rs\<close>,
  \<open>shell/mod.rs\<close>) and the high-level session (\<open>session.rs\<close>). The builders of Rust are three structs
  with the same fields and methods; here they extend one record, and the methods are defined once,
  on any extension.
\<close>

section \<open>Common options\<close>

record run_options =
  opt_code :: string
  opt_timeout :: duration
  opt_memory :: u64
  opt_max_pids :: u32
  opt_max_output :: u64
  opt_network :: bool
  opt_mounts :: "mount list"
  opt_stdin :: "u8 list option"
  opt_env :: "(string \<times> string) list"

type_synonym shell_builder = run_options

definition default_options :: "string \<Rightarrow> run_options" where
  "default_options code =
     \<lparr>opt_code = code, opt_timeout = from_secs 30, opt_memory = 256 * 1024 * 1024,
      opt_max_pids = 64, opt_max_output = 16 * 1024 * 1024, opt_network = False,
      opt_mounts = [], opt_stdin = None, opt_env = []\<rparr>"

definition with_timeout :: "duration \<Rightarrow> 'a run_options_scheme \<Rightarrow> 'a run_options_scheme" where
  "with_timeout t b = b\<lparr>opt_timeout := t\<rparr>"

definition with_memory :: "u64 \<Rightarrow> 'a run_options_scheme \<Rightarrow> 'a run_options_scheme" where
  "with_memory n b = b\<lparr>opt_memory := n\<rparr>"

definition with_max_pids :: "u32 \<Rightarrow> 'a run_options_scheme \<Rightarrow> 'a run_options_scheme" where
  "with_max_pids n b = b\<lparr>opt_max_pids := n\<rparr>"

definition with_max_output :: "u64 \<Rightarrow> 'a run_options_scheme \<Rightarrow> 'a run_options_scheme" where
  "with_max_output n b = b\<lparr>opt_max_output := n\<rparr>"

definition with_network :: "bool \<Rightarrow> 'a run_options_scheme \<Rightarrow> 'a run_options_scheme" where
  "with_network enabled b = b\<lparr>opt_network := enabled\<rparr>"

definition with_ro :: "path \<Rightarrow> 'a run_options_scheme \<Rightarrow> 'a run_options_scheme" where
  "with_ro p b = b\<lparr>opt_mounts := opt_mounts b @ [mount_ro p]\<rparr>"

definition with_bind :: "path \<Rightarrow> path \<Rightarrow> 'a run_options_scheme \<Rightarrow> 'a run_options_scheme" where
  "with_bind host sandbox b = b\<lparr>opt_mounts := opt_mounts b @ [mount_bind host sandbox]\<rparr>"

definition with_rw :: "path \<Rightarrow> 'a run_options_scheme \<Rightarrow> 'a run_options_scheme" where
  "with_rw p b = b\<lparr>opt_mounts := opt_mounts b @ [mount_rw p]\<rparr>"

definition with_rw_bind :: "path \<Rightarrow> path \<Rightarrow> 'a run_options_scheme \<Rightarrow> 'a run_options_scheme" where
  "with_rw_bind host sandbox b =
     b\<lparr>opt_mounts := opt_mounts b @ [make_writable (mount_bind host sandbox)]\<rparr>"

definition with_stdin :: "u8 list \<Rightarrow> 'a run_options_scheme \<Rightarrow> 'a run_options_scheme" where
  "with_stdin data b = b\<lparr>opt_stdin := Some data\<rparr>"

definition with_env :: "string \<Rightarrow> string \<Rightarrow> 'a run_options_scheme \<Rightarrow> 'a run_options_scheme" where
  "with_env key value b = b\<lparr>opt_env := opt_env b @ [(key, value)]\<rparr>"

text \<open>Pieces of the method chains on a plan that the three runtimes share: the limits and the
  network switch, a sequence of environment variables, the optional input.\<close>

definition limits :: "'a run_options_scheme \<Rightarrow> plan \<Rightarrow> plan" where
  "limits b p =
     (let p = plan_timeout p (opt_timeout b);
          p = plan_memory p (opt_memory b);
          p = plan_max_pids p (opt_max_pids b);
          p = plan_max_output p (opt_max_output b)
      in plan_network p (opt_network b))"

definition set_envs :: "(string \<times> string) list \<Rightarrow> plan \<Rightarrow> plan" where
  "set_envs kvs p = fold (\<lambda>(k, v) p. plan_env p k v) kvs p"

definition set_stdin :: "u8 list option \<Rightarrow> plan \<Rightarrow> plan" where
  "set_stdin data p = (case data of Some d \<Rightarrow> plan_stdin p d | None \<Rightarrow> p)"

section \<open>The shell\<close>

definition shell_build :: "bool \<Rightarrow> shell_builder \<Rightarrow> plan" where
  "shell_build nix b =
     (let p = new_plan nix [''sh'', ''-c'', opt_code b];
          p = plan_mounts (limits b p) (opt_mounts b);
          p = set_stdin (opt_stdin b) p
      in set_envs (opt_env b) p)"

definition shell_exec :: "nat \<Rightarrow> host \<Rightarrow> shell_builder \<Rightarrow> (run_error, run_output option) io" where
  "shell_exec fuel host b =
     io_bind (path_exists ''/nix/store'') (\<lambda>nix. run_plan fuel host (shell_build nix b))"

definition shell_run :: "string \<Rightarrow> shell_builder" where
  "shell_run script = default_options script"

definition shell_run_now :: "nat \<Rightarrow> host \<Rightarrow> string \<Rightarrow> (run_error, run_output option) io" where
  "shell_run_now fuel host script = shell_exec fuel host (shell_run script)"

section \<open>Sessions\<close>

text \<open>\<open>Session\<close> owns one executor and passes every operation on.\<close>

type_synonym session_state = executor

definition session_new :: "(io_error, session_state) io" where
  "session_new = executor_new"

definition session_spawn :: "bool \<Rightarrow> nat \<Rightarrow> host \<Rightarrow> plan \<Rightarrow> session_state
    \<Rightarrow> ('e, (run_error + sandbox_id option) \<times> session_state) io" where
  "session_spawn dbg fuel host p s =
     io_bind (executor_spawn dbg fuel host p s)
       (\<lambda>(r, s'). io_ret (case r of Inl e \<Rightarrow> Inl (ErrSandbox e) | Inr i \<Rightarrow> Inr i, s'))"

definition session_spawn_cmd :: "bool \<Rightarrow> nat \<Rightarrow> host \<Rightarrow> string list \<Rightarrow> session_state
    \<Rightarrow> ('e, (run_error + sandbox_id option) \<times> session_state) io" where
  "session_spawn_cmd dbg fuel host c s =
     io_bind (new_plan_io c) (\<lambda>p. session_spawn dbg fuel host p s)"

text \<open>When the poll of the executor fails, the events it has gathered are dropped with the
  vector.\<close>

definition session_poll_blocking :: "duration option \<Rightarrow> session_state
    \<Rightarrow> (unit, (io_error + exec_event list) \<times> session_state) io" where
  "session_poll_blocking t s =
     io_bind (executor_poll t s) (\<lambda>(r, s', events).
       io_ret (case r of Inl e \<Rightarrow> Inl e | Inr _ \<Rightarrow> Inr events, s'))"

definition session_poll :: "session_state \<Rightarrow> (unit, (io_error + exec_event list) \<times> session_state) io" where
  "session_poll s = session_poll_blocking (Some 0) s"

definition session_active_count :: "session_state \<Rightarrow> nat" where
  "session_active_count s = active_count s"

definition session_is_empty :: "session_state \<Rightarrow> bool" where
  "session_is_empty s \<longleftrightarrow> session_active_count s = 0"

definition session_kill :: "sandbox_id \<Rightarrow> session_state \<Rightarrow> (io_error, unit) io" where
  "session_kill i s = executor_kill i s"

definition session_write_stdin :: "sandbox_id \<Rightarrow> u8 list \<Rightarrow> session_state \<Rightarrow> (io_error, nat) io" where
  "session_write_stdin i data s = executor_write_stdin i data s"

definition session_close_stdin :: "sandbox_id \<Rightarrow> session_state \<Rightarrow> ('e, session_state) io" where
  "session_close_stdin i s = executor_close_stdin i s"

section \<open>What the builders put into a plan\<close>

lemma limits_fields [simp]:
  "cmd (limits b p) = cmd p" "env (limits b p) = env p" "stdin (limits b p) = stdin p"
  "cwd (limits b p) = cwd p" "mounts (limits b p) = mounts p" "user_files (limits b p) = user_files p"
  "timeout (limits b p) = opt_timeout b" "memory_limit (limits b p) = opt_memory b"
  "max_pids (limits b p) = opt_max_pids b" "max_output (limits b p) = opt_max_output b"
  "network_blocked (limits b p) = (\<not> opt_network b)" "syscalls_cfg (limits b p) = syscalls_cfg p"
  "landlock_cfg (limits b p) = landlock_cfg p" "notify_mode (limits b p) = notify_mode p"
  "binary_path (limits b p) = binary_path p"
  by (simp_all add: limits_def plan_builder_defs Let_def)

lemma set_envs_env: "map_of (env (set_envs kvs p)) = map_of (env p) ++ map_of (rev kvs)"
  by (induction kvs arbitrary: p)
    (auto simp: set_envs_def plan_env_lookup map_add_upd_left dom_map_of_conv_image_fst
      map_add_def fun_eq_iff split: option.split)

lemma set_envs_fields [simp]:
  "cmd (set_envs kvs p) = cmd p" "stdin (set_envs kvs p) = stdin p" "cwd (set_envs kvs p) = cwd p"
  "mounts (set_envs kvs p) = mounts p" "user_files (set_envs kvs p) = user_files p"
  "timeout (set_envs kvs p) = timeout p" "memory_limit (set_envs kvs p) = memory_limit p"
  "max_pids (set_envs kvs p) = max_pids p" "max_output (set_envs kvs p) = max_output p"
  "network_blocked (set_envs kvs p) = network_blocked p" "syscalls_cfg (set_envs kvs p) = syscalls_cfg p"
  "landlock_cfg (set_envs kvs p) = landlock_cfg p" "notify_mode (set_envs kvs p) = notify_mode p"
  "binary_path (set_envs kvs p) = binary_path p"
  unfolding set_envs_def by (induction kvs arbitrary: p) (auto simp: plan_builder_defs)

lemma set_stdin_fields [simp]:
  "cmd (set_stdin d p) = cmd p" "env (set_stdin d p) = env p" "cwd (set_stdin d p) = cwd p"
  "mounts (set_stdin d p) = mounts p" "user_files (set_stdin d p) = user_files p"
  "timeout (set_stdin d p) = timeout p" "memory_limit (set_stdin d p) = memory_limit p"
  "max_pids (set_stdin d p) = max_pids p" "max_output (set_stdin d p) = max_output p"
  "network_blocked (set_stdin d p) = network_blocked p" "syscalls_cfg (set_stdin d p) = syscalls_cfg p"
  "landlock_cfg (set_stdin d p) = landlock_cfg p" "notify_mode (set_stdin d p) = notify_mode p"
  "binary_path (set_stdin d p) = binary_path p" "stdin (set_stdin d p) = (case d of None \<Rightarrow> stdin p | Some x \<Rightarrow> Some x)"
  by (simp_all add: set_stdin_def plan_builder_defs split: option.split)

text \<open>\<open>carries_options b p\<close>: the plan has the limits, the network switch and the input of the builder,
  and the system calls, the file system and the notifications are left to the defaults.\<close>

definition carries_options :: "'a run_options_scheme \<Rightarrow> plan \<Rightarrow> bool" where
  "carries_options b p \<longleftrightarrow> timeout p = opt_timeout b \<and> memory_limit p = opt_memory b
     \<and> max_pids p = opt_max_pids b \<and> max_output p = opt_max_output b
     \<and> network_blocked p = (\<not> opt_network b) \<and> stdin p = opt_stdin b
     \<and> syscalls_cfg p = None \<and> landlock_cfg p = None \<and> notify_mode p = Disabled"

lemma new_plan_fields [simp]:
  "cmd (new_plan nix c) = c" "env (new_plan nix c) = default_env nix" "stdin (new_plan nix c) = None"
  "cwd (new_plan nix c) = ''/work''" "mounts (new_plan nix c) = []" "user_files (new_plan nix c) = []"
  "syscalls_cfg (new_plan nix c) = None" "landlock_cfg (new_plan nix c) = None"
  "notify_mode (new_plan nix c) = Disabled" "binary_path (new_plan nix c) = None"
  by (simp_all add: new_plan_def default_plan_def)

lemma mounts_fields [simp]:
  "mounts (plan_mounts p ms) = mounts p @ ms" "env (plan_mounts p ms) = env p" "cmd (plan_mounts p ms) = cmd p"
  "stdin (plan_mounts p ms) = stdin p" "cwd (plan_mounts p ms) = cwd p" "user_files (plan_mounts p ms) = user_files p"
  "timeout (plan_mounts p ms) = timeout p" "memory_limit (plan_mounts p ms) = memory_limit p"
  "max_pids (plan_mounts p ms) = max_pids p" "max_output (plan_mounts p ms) = max_output p"
  "network_blocked (plan_mounts p ms) = network_blocked p" "syscalls_cfg (plan_mounts p ms) = syscalls_cfg p"
  "landlock_cfg (plan_mounts p ms) = landlock_cfg p" "notify_mode (plan_mounts p ms) = notify_mode p"
  "binary_path (plan_mounts p ms) = binary_path p"
  by (simp_all add: plan_mounts_def)

lemma shell_build_carries:
  "carries_options b (shell_build nix b) \<and> cmd (shell_build nix b) = [''sh'', ''-c'', opt_code b]
     \<and> mounts (shell_build nix b) = opt_mounts b
     \<and> map_of (env (shell_build nix b)) = map_of (default_env nix) ++ map_of (rev (opt_env b))"
  by (simp add: carries_options_def shell_build_def Let_def set_envs_env split: option.split)

end
