(* ===== verification/Ldcache.thy ===== *)
theory Ldcache
  imports Std_Text Std_Path "HOL-Library.AList"
begin

text \<open>
  \<open>python/ldcache.rs\<close>: the parser of \<open>/etc/ld.so.cache\<close>. Indexing a slice out of range panics in
  Rust, so slices are checked steps here, and it is a theorem that they never fail. A \<open>usize\<close> has 64
  bits on the supported targets, so offsets are natural numbers; the sums stay far below \<open>2^64\<close>.
\<close>

section \<open>The parser\<close>

definition LDCACHE_PATH :: path where "LDCACHE_PATH = ''/etc/ld.so.cache''"
definition LDCACHE_MAGIC_NEW :: "u8 list" where
  "LDCACHE_MAGIC_NEW = string_to_bytes ''glibc-ld.so.cache1.1''"
definition LDCACHE_MAGIC_OLD :: "u8 list" where
  "LDCACHE_MAGIC_OLD = string_to_bytes ''ld.so-1.7.0''"

type_synonym ldcache = "(string \<times> path) list"

definition slice :: "u8 list \<Rightarrow> nat \<Rightarrow> nat \<Rightarrow> panic + u8 list" where
  "slice data a b =
     (if a \<le> b \<and> b \<le> length data then Inr (take (b - a) (drop a data))
      else Inl (Panic ''range out of bounds''))"

definition read_u32_le :: "u8 list \<Rightarrow> panic + u32" where
  "read_u32_le data =
     (if length data < 4 then Inl (Panic ''index out of bounds'')
      else Inr (of_nat (from_le (take 4 data))))"

definition read_cstring :: "u8 list \<Rightarrow> nat \<Rightarrow> string option" where
  "read_cstring data offset =
     (if offset \<ge> length data then None
      else let start = drop offset data in
        if 0 \<notin> set start then None
        else let s = takeWhile (\<lambda>b. b \<noteq> 0) start
             in if utf8_valid s then Some (bytes_to_string s) else None)"

text \<open>The body of the loop, the same in both formats up to the sizes and the string table.\<close>

definition parse_entry ::
  "u8 list \<Rightarrow> u8 list \<Rightarrow> nat \<Rightarrow> nat \<Rightarrow> nat \<Rightarrow> ldcache \<Rightarrow> panic + ldcache" where
  "parse_entry data strings header_size entry_size i entries =
     (let entry_offset = header_size + i * entry_size in
      and_then (slice data entry_offset (entry_offset + entry_size)) (\<lambda>entry.
      and_then (and_then (slice entry 4 8) read_u32_le) (\<lambda>key_offset.
      and_then (and_then (slice entry 8 12) read_u32_le) (\<lambda>value_offset.
        case (read_cstring strings (unat key_offset), read_cstring strings (unat value_offset)) of
          (Some name, Some p) \<Rightarrow> Inr (AList.update name p entries)
        | _ \<Rightarrow> Inr entries))))"

primrec parse_entries ::
  "u8 list \<Rightarrow> u8 list \<Rightarrow> nat \<Rightarrow> nat \<Rightarrow> nat list \<Rightarrow> ldcache \<Rightarrow> panic + ldcache" where
  "parse_entries data strings hs es [] entries = Inr entries"
| "parse_entries data strings hs es (i # is) entries =
     and_then (parse_entry data strings hs es i entries) (parse_entries data strings hs es is)"

definition parse_new_format :: "u8 list \<Rightarrow> panic + ldcache" where
  "parse_new_format data =
     (if length data < 48 then Inr []
      else
        and_then (and_then (slice data 20 24) read_u32_le) (\<lambda>nlibs.
        and_then (and_then (slice data 24 28) read_u32_le) (\<lambda>len_strings.
          let header_size = 48; entry_size = 24;
              entries_end = header_size + unat nlibs * entry_size
          in if length data < entries_end + unat len_strings then Inr []
             else and_then (slice data entries_end (length data)) (\<lambda>string_table.
               parse_entries data string_table header_size entry_size [0..<unat nlibs] []))))"

definition parse_old_format :: "u8 list \<Rightarrow> panic + ldcache" where
  "parse_old_format data =
     (if length data < 16 then Inr []
      else
        and_then (and_then (slice data 12 16) read_u32_le) (\<lambda>nlibs.
          let header_size = 16; entry_size = 12;
              entries_end = header_size + unat nlibs * entry_size
          in if length data < entries_end then Inr []
             else parse_entries data data header_size entry_size [0..<unat nlibs] []))"

definition parse_ldcache :: "u8 list \<Rightarrow> panic + ldcache" where
  "parse_ldcache data =
     (if length data < 20 then Inr []
      else if prefix LDCACHE_MAGIC_NEW data then parse_new_format data
      else if prefix LDCACHE_MAGIC_OLD data then parse_old_format data
      else Inr [])"

definition ldcache_lookup :: "ldcache \<Rightarrow> string \<Rightarrow> path option" where
  "ldcache_lookup entries name = map_of entries name"

section \<open>No panics\<close>

lemma slice_ok [result_simps]: "a \<le> b \<Longrightarrow> b \<le> length data \<Longrightarrow> slice data a b = Inr (take (b - a) (drop a data))"
  by (simp add: slice_def)

lemma read_u32_ok: "length data = 4 \<Longrightarrow> read_u32_le data = Inr (of_nat (from_le data))"
  by (simp add: read_u32_le_def)

lemma parse_entry_ok:
  assumes "12 \<le> es" and "hs + Suc i * es \<le> length data"
  shows "parse_entry data strings hs es i entries =
    (let entry = take es (drop (hs + i * es) data) in
     case (read_cstring strings (unat (of_nat (from_le (take 4 (drop 4 entry))) :: u32)),
           read_cstring strings (unat (of_nat (from_le (take 4 (drop 8 entry))) :: u32))) of
       (Some name, Some p) \<Rightarrow> Inr (AList.update name p entries)
     | _ \<Rightarrow> Inr entries)"
  using assms by (simp add: parse_entry_def Let_def slice_ok read_u32_ok)

lemma parse_entries_total:
  assumes "12 \<le> es" and "\<forall>i \<in> set is. hs + Suc i * es \<le> length data"
  shows "\<exists>c. parse_entries data strings hs es is entries = Inr c"
  using assms(2)
proof (induction "is" arbitrary: entries)
  case (Cons i "is")
  then obtain c where "parse_entry data strings hs es i entries = Inr c"
    using parse_entry_ok [OF assms(1), of hs i data strings entries]
    by (auto simp: Let_def split: option.splits)
  with Cons show ?case by simp
qed simp

lemma entries_in_range:
  "hs + n * es \<le> (len :: nat) \<Longrightarrow> \<forall>i \<in> set [0..<n]. hs + Suc i * es \<le> len"
proof
  fix i assume h: "hs + n * es \<le> len" "i \<in> set [0..<n]"
  then have "Suc i * es \<le> n * es" by (intro mult_le_mono1) simp
  with h(1) show "hs + Suc i * es \<le> len" by linarith
qed

text \<open>C36: The parser of the linker cache is total: whatever the bytes of the file, no slice is out
  of range and it returns a table.\<close>
theorem parse_ldcache_never_panics: "\<exists>c. parse_ldcache data = Inr c"
proof -
  have new: "\<exists>c. parse_new_format data = Inr c"
    using parse_entries_total [OF _ entries_in_range, of 24 48 _ data]
    by (simp add: parse_new_format_def Let_def slice_ok read_u32_ok)
  have old: "\<exists>c. parse_old_format data = Inr c"
    using parse_entries_total [OF _ entries_in_range, of 12 16 _ data]
    by (simp add: parse_old_format_def Let_def slice_ok read_u32_ok)
  show ?thesis
    using new old by (simp add: parse_ldcache_def)
qed

section \<open>Reading back a cache\<close>

text \<open>The image of a cache in the layout the parser assumes: the header, one record of 24 bytes per
  library, and the table of the strings, into which the records point.\<close>

definition c_string :: "string \<Rightarrow> u8 list" where
  "c_string s = string_to_bytes s @ [0]"

definition blob :: "(string \<times> path) list \<Rightarrow> u8 list" where
  "blob es = concat (map (\<lambda>(n, p). c_string n @ c_string p) es)"

primrec records :: "nat \<Rightarrow> (string \<times> path) list \<Rightarrow> u8 list" where
  "records off [] = []"
| "records off (e # es) =
     to_le 4 0 @ to_le 4 off @ to_le 4 (off + length (c_string (fst e))) @ replicate 12 0
     @ records (off + length (c_string (fst e)) + length (c_string (snd e))) es"

definition cache_image :: "(string \<times> path) list \<Rightarrow> u8 list" where
  "cache_image es = LDCACHE_MAGIC_NEW @ to_le 4 (length es) @ to_le 4 (length (blob es))
     @ replicate 20 0 @ records 0 es @ blob es"

definition printable :: "string \<Rightarrow> bool" where
  "printable s \<longleftrightarrow> CHR 0x00 \<notin> set s \<and> utf8_valid (string_to_bytes s)"

lemma length_records [simp]: "length (records off es) = 24 * length es"
  by (induction es arbitrary: off) simp_all

lemma no_zero_byte:
  assumes "CHR 0x00 \<notin> set s"
  shows "0 \<notin> set (string_to_bytes s)"
proof
  assume "0 \<in> set (string_to_bytes s)"
  then have "CHR 0x00 \<in> set (bytes_to_string (string_to_bytes s))"
    unfolding bytes_to_string_def set_map by (rule rev_image_eqI) (simp add: char_of_def)
  with assms show False by simp
qed

lemma read_c_string:
  assumes "printable s"
  shows "read_cstring (pre @ c_string s @ post) (length pre) = Some s"
proof -
  have "0 \<notin> set (string_to_bytes s)"
    using assms by (intro no_zero_byte) (simp add: printable_def)
  then have "takeWhile (\<lambda>b. b \<noteq> 0) (string_to_bytes s @ 0 # post) = string_to_bytes s"
    by (induction "string_to_bytes s" arbitrary: s) (simp_all add: takeWhile_append)
  with assms show ?thesis
    by (simp add: read_cstring_def c_string_def printable_def)
qed

lemma small_offset: "off < 2 ^ 32 \<Longrightarrow> unat (of_nat (from_le (to_le 4 off)) :: u32) = off"
  by (simp add: from_to_le unat_of_nat)

lemma parse_records:
  assumes "length pre = 48 + k * 24" and "length (spre @ blob es) < 2 ^ 32"
    and "\<forall>(n, p) \<in> set es. printable n \<and> printable p"
  shows "parse_entries (pre @ records (length spre) es @ post) (spre @ blob es) 48 24
      [k..<k + length es] entries = Inr (fold (\<lambda>(n, p). AList.update n p) es entries)"
  using assms
proof (induction es arbitrary: k pre spre entries)
  case Nil
  then show ?case by simp
next
  case (Cons e es)
  obtain n p where e: "e = (n, p)" by force
  let ?rec = "to_le 4 0 @ to_le 4 (length spre) @ to_le 4 (length spre + length (c_string n)) @ replicate 12 0"
  let ?data = "pre @ records (length spre) (e # es) @ post"
  let ?strings = "spre @ blob (e # es)"
  have strings: "?strings = (spre @ c_string n @ c_string p) @ blob es"
    "?strings = (spre @ c_string n) @ c_string p @ blob es" "?strings = spre @ c_string n @ (c_string p @ blob es)"
    by (simp_all add: blob_def e)
  have data: "?data = (pre @ ?rec) @ records (length (spre @ c_string n @ c_string p)) es @ post"
    by (simp add: e add.assoc)
  have rec: "take 24 (drop (48 + k * 24) ?data) = ?rec"
    by (simp add: Cons.prems(1) [symmetric] e)
  have "length spre + length (c_string n) < 2 ^ 32"
    using Cons.prems(2) unfolding strings by simp
  then have offs: "unat (of_nat (from_le (take 4 (drop 4 ?rec))) :: u32) = length spre"
    "unat (of_nat (from_le (take 4 (drop 8 ?rec))) :: u32) = length (spre @ c_string n)"
    using small_offset [of "length spre"] small_offset [of "length (spre @ c_string n)"]
    by (simp_all del: to_le.simps)
  have name: "read_cstring ?strings (length spre) = Some n"
    using Cons.prems(3) unfolding strings(3) by (auto intro: read_c_string simp: e)
  have target: "read_cstring ?strings (length (spre @ c_string n)) = Some p"
    unfolding strings(2) by (rule read_c_string) (use Cons.prems(3) in \<open>simp add: e\<close>)
  have step: "parse_entry ?data ?strings 48 24 k entries = Inr (AList.update n p entries)"
    by (subst parse_entry_ok)
      (simp_all only: Let_def rec offs name target, simp_all add: Cons.prems(1))
  have range: "[k..<k + length (e # es)] = k # [Suc k..<Suc k + length es]"
    using upt_conv_Cons [of k "k + length (e # es)"] by (simp del: upt_Suc)
  have "parse_entries ((pre @ ?rec) @ records (length (spre @ c_string n @ c_string p)) es @ post)
      ((spre @ c_string n @ c_string p) @ blob es) 48 24 [Suc k..<Suc k + length es]
      (AList.update n p entries) = Inr (fold (\<lambda>(n, p). AList.update n p) es (AList.update n p entries))"
    by (rule Cons.IH) (use Cons.prems in \<open>simp_all add: blob_def e\<close>)
  then show ?case
    unfolding range parse_entries.simps step and_then_simps data [symmetric] strings(1) [symmetric]
    by (simp add: e)
qed

lemma lookup_fold:
  "map_of (fold (\<lambda>(n, p). AList.update n p) es entries) = map_of (rev es @ entries)"
  by (induction es arbitrary: entries) (auto simp: fun_eq_iff update_conv' split: option.splits)



end
