(* ===== verification/Elf_Libs.thy ===== *)
theory Elf_Libs
  imports Runtime_Probe Ldcache
begin

text \<open>
  \<open>python/elf.rs\<close>: which shared libraries a binary needs. The ELF parser (\<open>goblin\<close>) is not part
  of the repository: it is the parameter \<open>elf\<close>, which maps the bytes of a file to an error, to
  another kind of object (\<open>None\<close>), or to the fields that the code reads.
\<close>

section \<open>Parsing a binary\<close>

record elf_file =
  elf_libraries :: "string list"
  elf_runpaths :: "string list"
  elf_interpreter :: "string option"

type_synonym elf_parser = "u8 list \<Rightarrow> string + elf_file option"

record elf_info =
  needed :: "string list"
  rpath :: "string list"
  runpath :: "string list"

text \<open>\<open>str::replace\<close> with a pattern that is not empty.\<close>

function str_replace :: "string \<Rightarrow> string \<Rightarrow> string \<Rightarrow> string" where
  "str_replace pat new [] = []"
| "str_replace pat new (c # s) =
     (if pat \<noteq> [] \<and> prefix pat (c # s) then new @ str_replace pat new (drop (length pat) (c # s))
      else c # str_replace pat new s)"
  by pat_completeness auto
termination by (relation "measure (\<lambda>(pat, new, s). length s)") (auto simp: neq_Nil_conv)

definition expand_origin :: "string \<Rightarrow> string \<Rightarrow> string" where
  "expand_origin origin s = str_replace ''${ORIGIN}'' origin (str_replace ''$ORIGIN'' origin s)"

definition elf_object :: "elf_parser \<Rightarrow> path \<Rightarrow> (probe_error, elf_file) io" where
  "elf_object elf p =
     io_then (io_map_err (\<lambda>e. PbIo (Os e)) (sys (Fs (OpenRead p))))
     (io_bind (io_map_err (\<lambda>_. ElfError p ''failed to mmap'') (sys (Fs (ReadOpened p)))) (\<lambda>m.
       case elf (ans_data m) of
         Inl msg \<Rightarrow> io_err (ElfError p msg)
       | Inr None \<Rightarrow> io_err (ElfError p ''not an ELF binary'')
       | Inr (Some e) \<Rightarrow> io_ret e))"

definition parse_elf_info :: "elf_parser \<Rightarrow> path \<Rightarrow> (probe_error, elf_info) io" where
  "parse_elf_info elf p =
     io_bind (elf_object elf p) (\<lambda>e.
       let origin = (case path_parent p of Some d \<Rightarrow> to_string_lossy d | None \<Rightarrow> []);
           rpaths = map (expand_origin origin)
             (concat (map (split_char CHR '':'') (filter (\<lambda>s. s \<noteq> []) (elf_runpaths e))))
       in io_ret \<lparr>needed = elf_libraries e, rpath = rpaths, runpath = rpaths\<rparr>)"

definition parse_interpreter :: "elf_parser \<Rightarrow> path \<Rightarrow> (probe_error, path option) io" where
  "parse_interpreter elf p = io_bind (elf_object elf p) (\<lambda>e. io_ret (elf_interpreter e))"

section \<open>Finding the libraries\<close>

definition load_ldcache :: "path \<Rightarrow> (probe_error, ldcache) io" where
  "load_ldcache p =
     io_bind (io_try (sys (Fs (OpenRead p)))) (\<lambda>f. case f of
        Inl _ \<Rightarrow> io_ret []
      | Inr _ \<Rightarrow> io_bind (io_map_err (\<lambda>e. PbIo (Os e)) (sys (Fs (ReadOpened p)))) (\<lambda>d.
          case parse_ldcache (ans_data d) of
            Inr c \<Rightarrow> io_ret c
          | Inl (Panic msg) \<Rightarrow> io_err (PbIo (DebugPanic msg))))"

primrec first_existing :: "path list \<Rightarrow> ('e, path option) io" where
  "first_existing [] = io_ret None"
| "first_existing (p # ps) =
     io_bind (path_exists p) (\<lambda>b. if b then io_ret (Some p) else first_existing ps)"

definition STANDARD_LIB_DIRS :: "path list" where
  "STANDARD_LIB_DIRS = [''/lib'', ''/lib64'', ''/usr/lib'', ''/usr/lib64'']"

definition resolve_library ::
  "string \<Rightarrow> string list \<Rightarrow> string list \<Rightarrow> ldcache \<Rightarrow> ('e, path option) io" where
  "resolve_library name rp runp cache =
     (let search_paths = (if runp \<noteq> [] then runp else rp) in
      io_bind (first_existing (map (\<lambda>d. path_join d name) search_paths)) (\<lambda>r. case r of
        Some p \<Rightarrow> io_ret (Some p)
      | None \<Rightarrow> (case ldcache_lookup cache name of
          Some p \<Rightarrow> io_ret (Some p)
        | None \<Rightarrow> first_existing (map (\<lambda>d. path_join d name) STANDARD_LIB_DIRS))))"

primrec resolve_names :: "elf_info \<Rightarrow> ldcache \<Rightarrow> string list \<Rightarrow> ('e, path option list) io" where
  "resolve_names info cache [] = io_ret []"
| "resolve_names info cache (n # ns) =
     io_bind (resolve_library n (rpath info) (runpath info) cache)
       (\<lambda>p. io_bind (resolve_names info cache ns) (\<lambda>ps. io_ret (p # ps)))"

text \<open>The state of the search: the set of paths seen, the result, and the stack of files still to
  be read. Paths compare by their components. What \<open>note_libs\<close> does with a library does not
  depend on the file system, so it follows the look-ups of one file.\<close>

definition path_mem :: "path \<Rightarrow> path list \<Rightarrow> bool" where
  "path_mem p ps \<longleftrightarrow> list_ex (path_eq p) ps"

fun note_libs :: "path option list \<Rightarrow> path list \<times> path list \<times> path list
    \<Rightarrow> path list \<times> path list \<times> path list" where
  "note_libs [] st = st"
| "note_libs (None # ls) st = note_libs ls st"
| "note_libs (Some l # ls) (resolved, result, queue) =
     (if path_mem l resolved then note_libs ls (resolved, result, queue)
      else note_libs ls (l # resolved, result @ [l], l # queue))"

definition unread :: "path list \<Rightarrow> path list \<Rightarrow> nat" where
  "unread resolved queue = length (filter (\<lambda>p. \<not> path_mem p resolved) queue)"

lemma path_mem_Cons [simp]: "path_mem p (q # ps) \<longleftrightarrow> path_eq p q \<or> path_mem p ps"
  by (simp add: path_mem_def)

lemma path_eq_refl [simp]: "path_eq p p"
  by (simp add: path_eq_def)

lemma unread_mono: "unread (q # resolved) queue \<le> unread resolved queue"
  unfolding unread_def by (induction queue) auto

lemma note_libs_unread:
  "note_libs ls (resolved, result, queue) = (resolved', result', queue') \<Longrightarrow>
     unread resolved' queue' \<le> unread resolved queue"
proof (induction ls "(resolved, result, queue)" arbitrary: resolved result queue rule: note_libs.induct)
  case (3 l ls resolved result queue)
  have "unread (l # resolved) (l # queue) \<le> unread resolved queue"
    using unread_mono [of l resolved queue] by (simp add: unread_def)
  with 3 show ?case by (fastforce split: if_splits)
qed auto

function search_libs ::
  "elf_parser \<Rightarrow> ldcache \<Rightarrow> path list \<Rightarrow> path list \<Rightarrow> path list \<Rightarrow> (probe_error, path list) io" where
  "search_libs elf cache resolved result [] = io_ret result"
| "search_libs elf cache resolved result (p # queue) =
     (if path_mem p resolved then search_libs elf cache resolved result queue
      else io_bind (parse_elf_info elf p) (\<lambda>info.
        io_bind (resolve_names info cache (needed info)) (\<lambda>found.
          case note_libs found (p # resolved, result, queue) of
            (resolved', result', queue') \<Rightarrow> search_libs elf cache resolved' result' queue')))"
  by pat_completeness auto
termination
proof (relation "measures [\<lambda>(elf, cache, resolved, result, queue). unread resolved queue,
    \<lambda>(elf, cache, resolved, result, queue). length queue]", goal_cases)
  case (2 elf cache resolved result p queue)
  then show ?case by (simp add: unread_def)
next
  case (3 elf cache resolved result p queue info found resolved' rest result' queue')
  then have "note_libs found (p # resolved, result, queue) = (resolved', result', queue')" by simp
  then have "unread resolved' queue' \<le> unread (p # resolved) queue" by (rule note_libs_unread)
  also have "\<dots> < unread resolved (p # queue)"
    using 3(1) unread_mono [of p resolved queue] by (simp add: unread_def)
  finally show ?case by simp
qed simp

definition resolve_shared_libs :: "elf_parser \<Rightarrow> path \<Rightarrow> (probe_error, path list) io" where
  "resolve_shared_libs elf binary =
     io_bind (load_ldcache LDCACHE_PATH) (\<lambda>cache. search_libs elf cache [] [] [binary])"

section \<open>The search stops after the first file\<close>

text \<open>The libraries of one file: those that are found, each once, in order.\<close>

definition direct_libs :: "elf_parser \<Rightarrow> path \<Rightarrow> (probe_error, path list) io" where
  "direct_libs elf binary =
     io_bind (load_ldcache LDCACHE_PATH) (\<lambda>cache.
     io_bind (parse_elf_info elf binary) (\<lambda>info.
     io_bind (resolve_names info cache (needed info)) (\<lambda>found.
       io_ret (fst (snd (note_libs found ([binary], [], [])))))))"

lemma search_all_read: "unread resolved queue = 0 \<Longrightarrow> search_libs elf cache resolved result queue = io_ret result"
proof (induction queue)
  case (Cons p queue)
  then have "path_mem p resolved" "unread resolved queue = 0"
    by (auto simp: unread_def split: if_splits)
  with Cons show ?case by simp
qed simp

lemma resolve_shared_libs_direct: "resolve_shared_libs elf binary = direct_libs elf binary"
proof -
  have "(case note_libs found ([binary], [], []) of
      (resolved', result', queue') \<Rightarrow> search_libs elf cache resolved' result' queue')
    = io_ret (fst (snd (note_libs found ([binary], [], []))))" for found cache
  proof -
    obtain resolved' result' queue' where n: "note_libs found ([binary], [], []) = (resolved', result', queue')"
      using prod_cases3 by blast
    then have "unread resolved' queue' = 0"
      using note_libs_unread [OF n] by (simp add: unread_def)
    with n show ?thesis by (simp add: search_all_read)
  qed
  then show ?thesis
    by (simp add: resolve_shared_libs_def direct_libs_def path_mem_def)
qed

text \<open>C34: The libraries a library needs in turn are not found: the search for shared libraries
  marks every library it finds as done before it has been read, so for every file system it
  reads the binary alone and returns its direct dependencies.\<close>
theorem shared_libs_direct_only: "resolve_shared_libs elf binary = direct_libs elf binary"
  by (rule resolve_shared_libs_direct)

end
