(* ===== verification/Runtime_Python.thy ===== *)
theory Runtime_Python
  imports Runtime_Shell Elf_Libs
begin

text \<open>
  The Python runtime: \<open>python/mod.rs\<close> (detection and probe) and \<open>python/builder.rs\<close>. Parameters, in the
  record \<open>python_world\<close>: the ELF parser, the JSON parser for the output of the probe script, the text
  of that script, the hasher of the probe cache and the iteration order of a \<open>HashSet\<close> of paths.
\<close>

section \<open>Detection\<close>

record python_probe =
  pp_version :: "string option"

definition new_python_probe :: python_probe where
  "new_python_probe = \<lparr>pp_version = None\<rparr>"

definition python_probe_with_version :: "string \<Rightarrow> python_probe" where
  "python_probe_with_version v = \<lparr>pp_version = Some v\<rparr>"

primrec first_resolved :: "string list \<Rightarrow> ('e, path option) io" where
  "first_resolved [] = io_ret None"
| "first_resolved (n # ns) =
     io_bind (resolve_program n []) (\<lambda>r. case r of Some p \<Rightarrow> io_ret (Some p) | None \<Rightarrow> first_resolved ns)"

definition or_else :: "('e, 'a option) io \<Rightarrow> ('e, 'a option) io \<Rightarrow> ('e, 'a option) io" where
  "or_else m n = io_bind m (\<lambda>r. case r of Some x \<Rightarrow> io_ret (Some x) | None \<Rightarrow> n)"

definition python_names :: "python_probe \<Rightarrow> string list" where
  "python_names pr = (case pp_version pr of
       Some ver \<Rightarrow> [''python'' @ ver, ''python3''] | None \<Rightarrow> [''python3'', ''python''])"

definition python_detect :: "python_probe \<Rightarrow> ('e, path option) io" where
  "python_detect pr =
     or_else (resolve_from_env ''VIRTUAL_ENV'' ''python3'')
     (or_else (resolve_from_env ''CONDA_PREFIX'' ''python3'')
     (or_else (first_resolved (python_names pr))
       (first_existing [''/usr/bin/python3'', ''/usr/local/bin/python3'', ''/opt/python/bin/python3''])))"

section \<open>Probing\<close>

text \<open>The fields of the probe's report that the code reads.\<close>

record python_info =
  pi_prefix :: path
  pi_base_prefix :: path
  pi_exec_prefix :: path
  pi_stdlib :: "path option"
  pi_platstdlib :: "path option"
  pi_purelib :: "path option"
  pi_platlib :: "path option"
  pi_site_packages :: "path list"
  pi_in_virtualenv :: bool

record python_world =
  pw_elf :: elf_parser
  pw_parse :: "string \<Rightarrow> python_info option"
  pw_script :: string
  pw_hash :: path_hasher
  pw_order :: "path list \<Rightarrow> path list"

text \<open>A \<open>HashSet\<close> of paths, in the order of insertion.\<close>

definition insert_path :: "path \<Rightarrow> path list \<Rightarrow> path list" where
  "insert_path p ps = (if path_mem p ps then ps else ps @ [p])"

definition insert_opt :: "path option \<Rightarrow> path list \<Rightarrow> path list" where
  "insert_opt q ps = (case q of Some p \<Rightarrow> insert_path p ps | None \<Rightarrow> ps)"

definition python_mount_paths :: "path \<Rightarrow> python_info \<Rightarrow> path list" where
  "python_mount_paths binary info =
     (let ps = insert_opt (prefix_dir binary) [];
          ps = insert_opt (pi_platstdlib info) (insert_opt (pi_stdlib info) ps);
          ps = fold insert_path (pi_site_packages info) ps;
          ps = insert_opt (pi_platlib info) (insert_opt (pi_purelib info) ps);
          ps = (if pi_in_virtualenv info then insert_path (pi_base_prefix info) ps else ps)
      in insert_path (pi_exec_prefix info) (insert_path (pi_prefix info) ps))"

definition python_report :: "python_world \<Rightarrow> path \<Rightarrow> (probe_error, python_info) io" where
  "python_report W binary =
     io_bind (io_map_err (\<lambda>_. ProbeScriptFailed ''failed to run Python'')
        (sys (Proc (RunProgram binary [''-c'', pw_script W])))) (\<lambda>out.
      if ans_vals out \<noteq> [0]
      then io_err (ProbeScriptFailed (''Python probe script failed: '' @ to_string_lossy (ans_str out)))
      else case pw_parse W (bytes_to_string (utf8_lossy (ans_data out))) of
        None \<Rightarrow> io_err (ParseError ''failed to parse Python probe output'')
      | Some info \<Rightarrow> io_ret info)"

definition probe_python :: "python_world \<Rightarrow> prober" where
  "probe_python W binary =
     io_bind (python_report W binary) (\<lambda>info.
     io_bind (filter_existing (pw_order W (python_mount_paths binary info))) (\<lambda>ps.
     io_bind (io_try (resolve_shared_libs (pw_elf W) binary)) (\<lambda>libs.
       let r = ri_env_var (new_runtime_info binary) ''PYTHONHOME'' (to_string_lossy (pi_prefix info));
           r = r\<lparr>ri_mounts := map mount_ro ps\<rparr>
       in io_ret (case libs of Inr ls \<Rightarrow> r\<lparr>ri_shared_libs := ls\<rparr> | Inl _ \<Rightarrow> r))))"

section \<open>The builder\<close>

record python_builder = run_options +
  py_venv :: "path option"
  py_files :: "(string \<times> u8 list) list"

definition new_python_builder :: "string \<Rightarrow> python_builder" where
  "new_python_builder code = run_options.extend (default_options code) \<lparr>py_venv = None, py_files = []\<rparr>"

definition python_run :: "string \<Rightarrow> python_builder" where
  "python_run code = new_python_builder code"

definition python_timeout :: "duration \<Rightarrow> python_builder \<Rightarrow> python_builder" where
  "python_timeout t b = b\<lparr>opt_timeout := t\<rparr>"

definition python_memory :: "u64 \<Rightarrow> python_builder \<Rightarrow> python_builder" where
  "python_memory bytes b = b\<lparr>opt_memory := bytes\<rparr>"

definition python_max_pids :: "u32 \<Rightarrow> python_builder \<Rightarrow> python_builder" where
  "python_max_pids n b = b\<lparr>opt_max_pids := n\<rparr>"

definition python_max_output :: "u64 \<Rightarrow> python_builder \<Rightarrow> python_builder" where
  "python_max_output bytes b = b\<lparr>opt_max_output := bytes\<rparr>"

definition python_network :: "bool \<Rightarrow> python_builder \<Rightarrow> python_builder" where
  "python_network enabled b = b\<lparr>opt_network := enabled\<rparr>"

definition python_with :: "path \<Rightarrow> python_builder \<Rightarrow> python_builder" where
  "python_with p b = b\<lparr>opt_mounts := opt_mounts b @ [mount_ro p]\<rparr>"

definition python_with_bind :: "path \<Rightarrow> path \<Rightarrow> python_builder \<Rightarrow> python_builder" where
  "python_with_bind h s b = b\<lparr>opt_mounts := opt_mounts b @ [mount_bind h s]\<rparr>"

definition python_with_rw :: "path \<Rightarrow> python_builder \<Rightarrow> python_builder" where
  "python_with_rw p b = b\<lparr>opt_mounts := opt_mounts b @ [mount_rw p]\<rparr>"

definition python_with_rw_bind :: "path \<Rightarrow> path \<Rightarrow> python_builder \<Rightarrow> python_builder" where
  "python_with_rw_bind h s b = b\<lparr>opt_mounts := opt_mounts b @ [make_writable (mount_bind h s)]\<rparr>"

definition python_stdin :: "u8 list \<Rightarrow> python_builder \<Rightarrow> python_builder" where
  "python_stdin data b = b\<lparr>opt_stdin := Some data\<rparr>"

definition python_set_env :: "string \<Rightarrow> string \<Rightarrow> python_builder \<Rightarrow> python_builder" where
  "python_set_env key value b = b\<lparr>opt_env := opt_env b @ [(key, value)]\<rparr>"

definition python_venv :: "path \<Rightarrow> python_builder \<Rightarrow> python_builder" where
  "python_venv p b = b\<lparr>py_venv := Some p\<rparr>"

definition python_file :: "string \<Rightarrow> u8 list \<Rightarrow> python_builder \<Rightarrow> python_builder" where
  "python_file name content b = b\<lparr>py_files := py_files b @ [(name, content)]\<rparr>"

definition set_files :: "(string \<times> u8 list) list \<Rightarrow> plan \<Rightarrow> plan" where
  "set_files fs p = fold (\<lambda>(name, content) p. plan_file p name content) fs p"

definition python_binary :: "python_builder \<Rightarrow> ('e, path option) io" where
  "python_binary b = (case py_venv b of
       Some venv \<Rightarrow>
         io_bind (path_exists (path_join venv ''bin/python3'')) (\<lambda>e.
           io_ret (Some (if e then path_join venv ''bin/python3'' else path_join venv ''bin/python'')))
     | None \<Rightarrow> python_detect new_python_probe)"

definition python_plan :: "bool \<Rightarrow> python_builder \<Rightarrow> path \<Rightarrow> runtime_info \<Rightarrow> plan" where
  "python_plan nix b binary info =
     (let p = plan_cwd (new_plan nix [to_string_lossy binary, ''-c'', opt_code b]) ''/work'';
          p = plan_mounts (limits b p) (ri_mounts info);
          p = plan_env p ''PYTHONDONTWRITEBYTECODE'' ''1'';
          p = set_envs (ri_env info) p;
          p = (case py_venv b of Some venv \<Rightarrow> plan_mount p (mount_ro venv) | None \<Rightarrow> p);
          p = plan_mounts p (opt_mounts b);
          p = set_files (py_files b) p;
          p = set_envs (opt_env b) p
      in set_stdin (opt_stdin b) p)"

definition python_exec :: "python_world \<Rightarrow> nat \<Rightarrow> host \<Rightarrow> python_builder \<Rightarrow> probe_cache
    \<Rightarrow> ('e, (run_error + run_output option) \<times> probe_cache) io" where
  "python_exec W fuel host b cache =
     io_bind (python_binary b) (\<lambda>found. case found of
        None \<Rightarrow> io_ret (Inl (RuntimeNotFound ''python'' ''$VIRTUAL_ENV, which python3, /usr/bin/python3''), cache)
      | Some binary \<Rightarrow>
          io_bind (get_or_probe (pw_hash W) (probe_python W) binary cache) (\<lambda>(r, cache'). case r of
            Inl e \<Rightarrow> io_ret (Inl (ErrProbe e), cache')
          | Inr info \<Rightarrow>
              io_bind (path_exists ''/nix/store'') (\<lambda>nix.
              io_bind (io_try (run_plan fuel host (python_plan nix b binary info))) (\<lambda>out.
                io_ret (out, cache')))))"

end
