(* ===== verification/Go_Source.thy ===== *)
theory Go_Source
  imports Std_Text Std_Path
begin

text \<open>
  What the Go runtime does to text: \<open>go/wrap.rs\<close>, which completes a fragment to a program, and the
  key of the binary cache in \<open>go/builder.rs\<close>. The engine of the \<open>regex\<close> crate is a parameter: a test
  for a match, and the texts of the first capture group of all matches, of a pattern in a string.
\<close>

unbundle bit_operations_syntax

section \<open>Text functions of the standard library\<close>

text \<open>The UTF-8 encodings of the characters with the property White Space.\<close>

definition WHITE_SPACE :: "string list" where
  "WHITE_SPACE = map bytes_to_string
     ([[9], [10], [11], [12], [13], [32], [0xC2, 0x85], [0xC2, 0xA0], [0xE1, 0x9A, 0x80]]
      @ map (\<lambda>b. [0xE2, 0x80, b]) [0x80, 0x81, 0x82, 0x83, 0x84, 0x85, 0x86, 0x87, 0x88, 0x89, 0x8A, 0xA8, 0xA9, 0xAF]
      @ [[0xE2, 0x81, 0x9F], [0xE3, 0x80, 0x80]])"

lemma white_space_ne: "[] \<notin> set WHITE_SPACE"
  by (simp add: WHITE_SPACE_def bytes_to_string_def)

lemma find_white: "find (\<lambda>w. prefix w s) WHITE_SPACE = Some w \<Longrightarrow> w \<noteq> [] \<and> prefix w s"
  "find (\<lambda>w. suffix w s) WHITE_SPACE = Some w \<Longrightarrow> w \<noteq> [] \<and> suffix w s"
  using white_space_ne by (auto simp: find_Some_iff in_set_conv_nth)

function trim_start :: "string \<Rightarrow> string" where
  "trim_start s = (case find (\<lambda>w. prefix w s) WHITE_SPACE of
       Some w \<Rightarrow> trim_start (drop (length w) s) | None \<Rightarrow> s)"
  by pat_completeness auto
termination
  by (relation "measure length") (auto dest!: find_white elim!: prefixE simp: neq_Nil_conv)

function trim_end :: "string \<Rightarrow> string" where
  "trim_end s = (case find (\<lambda>w. suffix w s) WHITE_SPACE of
       Some w \<Rightarrow> trim_end (take (length s - length w) s) | None \<Rightarrow> s)"
  by pat_completeness auto
termination
  by (relation "measure length") (auto dest!: find_white elim!: suffixE simp: neq_Nil_conv)

declare trim_start.simps [simp del] trim_end.simps [simp del]

definition trim :: "string \<Rightarrow> string" where
  "trim s = trim_end (trim_start s)"

abbreviation newline :: char where "newline \<equiv> CHR 0x0A"
abbreviation tab :: char where "tab \<equiv> CHR 0x09"
abbreviation quote :: char where "quote \<equiv> CHR 0x22"

definition strip_cr :: "string \<Rightarrow> string" where
  "strip_cr l = (if l \<noteq> [] \<and> last l = CHR 0x0D then butlast l else l)"

definition text_lines :: "string \<Rightarrow> string list" where
  "text_lines s = (let ls = split_char newline s
     in map strip_cr (butlast ls) @ (if last ls = [] then [] else [last ls]))"

section \<open>Completing a fragment\<close>

abbreviation backslash :: char where "backslash \<equiv> CHR 0x5C"

definition RE_IMPORT :: string where
  "RE_IMPORT = backslash # ''b([a-z]+)'' @ backslash # ''.([A-Z][a-zA-Z0-9]*)''"

definition RE_MAIN_FUNC :: string where
  "RE_MAIN_FUNC = ''(?m)^func'' @ backslash # ''s+main'' @ backslash # ''s*'' @ backslash # ''(''
     @ backslash # ''s*'' @ [backslash] @ '')''"

definition RE_PACKAGE :: string where
  "RE_PACKAGE = ''(?m)^package'' @ backslash # ''s+''"

definition RE_IMPORT_DECL :: string where
  "RE_IMPORT_DECL = ''(?m)^import'' @ backslash # ''s+''"

record regex_engine =
  is_match :: "string \<Rightarrow> string \<Rightarrow> bool"
  first_captures :: "string \<Rightarrow> string \<Rightarrow> string list"

definition AUTO_IMPORTS :: "(string \<times> string) list" where
  "AUTO_IMPORTS =
     [(''fmt'', ''fmt''), (''strings'', ''strings''), (''strconv'', ''strconv''), (''json'', ''encoding/json''),
      (''http'', ''net/http''), (''io'', ''io''), (''os'', ''os''), (''time'', ''time''), (''math'', ''math''),
      (''rand'', ''math/rand''), (''sort'', ''sort''), (''regexp'', ''regexp''), (''bytes'', ''bytes''),
      (''bufio'', ''bufio''), (''errors'', ''errors''), (''context'', ''context''), (''sync'', ''sync''),
      (''filepath'', ''path/filepath''), (''path'', ''path''), (''log'', ''log''), (''testing'', ''testing''),
      (''reflect'', ''reflect''), (''unicode'', ''unicode''), (''runtime'', ''runtime'')]"

definition has_main_func :: "regex_engine \<Rightarrow> string \<Rightarrow> bool" where
  "has_main_func R code = is_match R RE_MAIN_FUNC code"

definition has_package_decl :: "regex_engine \<Rightarrow> string \<Rightarrow> bool" where
  "has_package_decl R code = is_match R RE_PACKAGE code"

definition has_imports :: "regex_engine \<Rightarrow> string \<Rightarrow> bool" where
  "has_imports R code = is_match R RE_IMPORT_DECL code"

definition add_import :: "string \<Rightarrow> string list \<Rightarrow> string list" where
  "add_import pkg imports = (case find (\<lambda>(name, _). name = pkg) AUTO_IMPORTS of
       Some (_, import_path) \<Rightarrow>
         if import_path \<in> set imports then imports else imports @ [import_path]
     | None \<Rightarrow> imports)"

definition detect_imports :: "regex_engine \<Rightarrow> string \<Rightarrow> string list" where
  "detect_imports R code = fold add_import (first_captures R RE_IMPORT code) []"

definition import_block :: "string list \<Rightarrow> string" where
  "import_block imports =
     (if imports = [] then []
      else ''import ('' @ [newline] @ concat (map (\<lambda>i. [tab, quote] @ i @ [quote, newline]) imports)
        @ '')'' @ [newline, newline])"

definition main_block :: "string \<Rightarrow> string" where
  "main_block code = ''func main() {'' @ [newline]
     @ concat (map (\<lambda>l. [tab] @ l @ [newline]) (text_lines code)) @ ''}'' @ [newline]"

definition wrap_go_code :: "regex_engine \<Rightarrow> string \<Rightarrow> bool \<Rightarrow> bool \<Rightarrow> string" where
  "wrap_go_code R code auto_wrap auto_import =
     (if \<not> auto_wrap then code
      else
        let code_trimmed = trim code;
            has_pkg = has_package_decl R code_trimmed;
            has_main = has_main_func R code_trimmed;
            has_imp = has_imports R code_trimmed
        in if has_pkg \<and> has_main then code
           else (if \<not> has_pkg then ''package main'' @ [newline, newline] else [])
             @ (if auto_import \<and> \<not> has_imp then import_block (detect_imports R code_trimmed) else [])
             @ (if \<not> has_main then main_block code_trimmed else code_trimmed @ [newline]))"

section \<open>The key of the binary cache\<close>

definition FNV_OFFSET :: u64 where "FNV_OFFSET = 0xcbf29ce484222325"
definition FNV_PRIME :: u64 where "FNV_PRIME = 0x100000001b3"

definition fnv_step :: "u64 \<Rightarrow> u8 \<Rightarrow> u64" where
  "fnv_step hash byte = (hash XOR ucast byte) * FNV_PRIME"

definition hex_digit :: "nat \<Rightarrow> char" where
  "hex_digit d = char_of (if d < 10 then 48 + d else 87 + d)"

primrec hex :: "nat \<Rightarrow> nat \<Rightarrow> string" where
  "hex 0 v = []"
| "hex (Suc n) v = hex n (v div 16) @ [hex_digit (v mod 16)]"

definition go_cache_hash :: "string \<Rightarrow> string option \<Rightarrow> bool \<Rightarrow> u64" where
  "go_cache_hash code go_mod cgo_enabled =
     (let hash = foldl fnv_step FNV_OFFSET (string_to_bytes code);
          hash = (case go_mod of Some m \<Rightarrow> foldl fnv_step hash (string_to_bytes m) | None \<Rightarrow> hash)
      in if cgo_enabled then (hash XOR 1) * FNV_PRIME else hash)"

definition go_cache_key :: "string \<Rightarrow> string option \<Rightarrow> bool \<Rightarrow> string" where
  "go_cache_key code go_mod cgo_enabled = hex 16 (unat (go_cache_hash code go_mod cgo_enabled))"

section \<open>Properties\<close>

text \<open>The key as a reference: FNV-1a of one byte string.\<close>

definition fnv1a :: "u8 list \<Rightarrow> u64" where
  "fnv1a bs = foldl fnv_step FNV_OFFSET bs"

lemma go_cache_hash_fnv:
  "go_cache_hash code go_mod cgo = fnv1a (string_to_bytes (code @ unwrap_or go_mod [])
     @ (if cgo then [1] else []))"
  by (cases go_mod) (simp_all add: go_cache_hash_def fnv1a_def string_to_bytes_def fnv_step_def Let_def)

lemma length_hex [simp]: "length (hex n v) = n"
  by (induction n arbitrary: v) simp_all

lemma hex_digit_inj: "d < 16 \<Longrightarrow> e < 16 \<Longrightarrow> hex_digit d = hex_digit e \<Longrightarrow> d = e"
  by (auto simp: hex_digit_def char_of_eq_iff take_bit_nat_eq_self dest!: arg_cong [where f = of_char] split: if_splits)

lemma hex_inj: "v < 16 ^ n \<Longrightarrow> w < 16 ^ n \<Longrightarrow> hex n v = hex n w \<Longrightarrow> v = w"
proof (induction n arbitrary: v w)
  case (Suc n)
  have "v div 16 < 16 ^ n" "w div 16 < 16 ^ n"
    using Suc.prems(1,2) by (simp_all add: less_mult_imp_div_less mult.commute)
  moreover have "hex n (v div 16) = hex n (w div 16)" "hex_digit (v mod 16) = hex_digit (w mod 16)"
    using Suc.prems(3) by simp_all
  ultimately have "v div 16 = w div 16" "v mod 16 = w mod 16"
    using Suc.IH hex_digit_inj by simp_all
  then show ?case by (metis div_mult_mod_eq)
qed simp

text \<open>The key of the binary cache is the FNV-1a hash, in 16 hexadecimal digits, of the source,
  the module file and a byte 1 for cgo, concatenated without separators: two requests share a key
  exactly when these hashes agree. So moving text from the module file to the source, or ending
  either in a byte 1 instead of enabling cgo, gives the same key, and the additional files of the
  request are not in it at all.\<close>
theorem go_cache_key_collides:
  "(go_cache_key code go_mod cgo = go_cache_key code' go_mod' cgo' \<longleftrightarrow>
      fnv1a (string_to_bytes (code @ unwrap_or go_mod []) @ (if cgo then [1] else []))
    = fnv1a (string_to_bytes (code' @ unwrap_or go_mod' []) @ (if cgo' then [1] else [])))
   \<and> go_cache_key (code @ x) (Some m) cgo = go_cache_key code (Some (x @ m)) cgo
   \<and> go_cache_key code None True = go_cache_key (code @ [CHR 0x01]) None False
   \<and> length (go_cache_key code go_mod cgo) = 16"
proof -
  have small: "unat (h :: u64) < 16 ^ 16" for h using unsigned_less [of h] by simp
  have inj: "hex 16 (unat g) = hex 16 (unat h) \<longleftrightarrow> g = h" for g h :: u64
    using hex_inj [OF small small, of g h] by (metis word_unat_eq_iff)
  have key: "go_cache_key c m g = go_cache_key c' m' g' \<longleftrightarrow> go_cache_hash c m g = go_cache_hash c' m' g'"
    for c m g c' m' g'
    unfolding go_cache_key_def by (rule inj)
  show ?thesis
    unfolding key go_cache_hash_fnv by (simp add: go_cache_key_def string_to_bytes_def)
qed

text \<open>No package is imported twice.\<close>

lemma add_import_distinct: "distinct is \<Longrightarrow> distinct (add_import pkg is)"
  by (auto simp: add_import_def split: option.split)

lemma detect_imports_distinct: "distinct (detect_imports R code)"
proof -
  have "distinct is \<Longrightarrow> distinct (fold add_import ps is)" for ps "is"
    by (induction ps arbitrary: "is") (auto simp: add_import_distinct)
  then show ?thesis by (simp add: detect_imports_def)
qed

end
