(* ===== verification/Runtime_Go.thy ===== *)
theory Runtime_Go
  imports Runtime_Python Go_Source
begin

text \<open>
  The Go runtime: \<open>go/mod.rs\<close> (detection and probe) and \<open>go/builder.rs\<close> (compilation in one sandbox,
  the binary cache, execution in another). Parameters, in the record \<open>go_world\<close>: the regex engine, the
  JSON parser for the output of \<open>go env\<close> and the hasher of the probe cache. A \<open>HashMap\<close> of environment
  variables has one entry per key, so the order in which it is walked does not matter.
\<close>

section \<open>Detection and probing\<close>

record go_probe =
  gp_cgo_enabled :: bool

definition new_go_probe :: go_probe where "new_go_probe = \<lparr>gp_cgo_enabled = False\<rparr>"
definition go_probe_with_cgo :: go_probe where "go_probe_with_cgo = \<lparr>gp_cgo_enabled = True\<rparr>"

definition go_detect :: "('e, path option) io" where
  "go_detect =
     or_else (resolve_from_env ''GOROOT'' ''go'')
     (or_else (resolve_program ''go'' [])
       (first_existing [''/usr/local/go/bin/go'', ''/usr/lib/go/bin/go'', ''/opt/go/bin/go'']))"

text \<open>The fields of the report of \<open>go env -json\<close> that the code reads.\<close>

record go_env =
  ge_goroot :: path
  ge_gocache :: path
  ge_gomodcache :: "path option"

record go_world =
  gw_regex :: regex_engine
  gw_parse :: "string \<Rightarrow> go_env option"
  gw_hash :: path_hasher

definition component_str :: "component \<Rightarrow> string" where
  "component_str c = (case c of RootDir \<Rightarrow> [slash] | CurDir \<Rightarrow> ''.'' | ParentDir \<Rightarrow> ''..'' | Normal s \<Rightarrow> s)"

definition collect_path :: "component list \<Rightarrow> path" where
  "collect_path cs = fold (\<lambda>c p. path_join p (component_str c)) cs []"

definition detect_nix_store_path :: "path \<Rightarrow> path option" where
  "detect_nix_store_path p =
     (if \<not> prefix ''/nix/store/'' (to_string_lossy p) then None
      else let store_path = collect_path (take 4 (components p))
           in if length (components store_path) = 4 then Some store_path else None)"

definition go_report :: "go_world \<Rightarrow> path \<Rightarrow> (probe_error, go_env) io" where
  "go_report W binary =
     io_bind (io_map_err (\<lambda>_. ProbeScriptFailed ''failed to run go env'')
        (sys (Proc (RunProgram binary [''env'', ''-json''])))) (\<lambda>out.
      if ans_vals out \<noteq> [0]
      then io_err (ProbeScriptFailed (''go env failed: '' @ to_string_lossy (ans_str out)))
      else case gw_parse W (bytes_to_string (utf8_lossy (ans_data out))) of
        None \<Rightarrow> io_err (ParseError ''failed to parse go env output'')
      | Some e \<Rightarrow> io_ret e)"

definition cgo_text :: "bool \<Rightarrow> string" where
  "cgo_text b = (if b then ''1'' else ''0'')"

definition go_probe_info :: "go_probe \<Rightarrow> path \<Rightarrow> go_env \<Rightarrow> runtime_info" where
  "go_probe_info pr binary e =
     (let r = new_runtime_info binary;
          r = ri_env_var r ''GOROOT'' (to_string_lossy (ge_goroot e));
          r = ri_env_var r ''GOCACHE'' (to_string_lossy (ge_gocache e));
          r = (case ge_gomodcache e of
                 Some m \<Rightarrow> ri_env_var r ''GOMODCACHE'' (to_string_lossy m) | None \<Rightarrow> r);
          r = ri_env_var r ''CGO_ENABLED'' (cgo_text (gp_cgo_enabled pr))
      in ri_mount r (mount_ro (ge_goroot e)))"

definition probe_go :: "go_world \<Rightarrow> go_probe \<Rightarrow> prober" where
  "probe_go W pr binary =
     io_bind (go_report W binary) (\<lambda>e.
     let r = go_probe_info pr binary e in
     io_bind (case ge_gomodcache e of
         Some m \<Rightarrow> io_bind (path_exists m) (\<lambda>b. io_ret (if b then ri_mount r (mount_ro m) else r))
       | None \<Rightarrow> io_ret r) (\<lambda>r.
     io_ret (case detect_nix_store_path (ge_goroot e) of
         Some store \<Rightarrow> ri_mount r (mount_ro store) | None \<Rightarrow> r)))"

section \<open>The builder\<close>

record go_builder = run_options +
  go_auto_wrap :: bool
  go_auto_import :: bool
  go_mod_file :: "string option"
  go_cgo_enabled :: bool
  go_no_cache :: bool
  go_files :: "(string \<times> u8 list) list"

definition new_go_builder :: "string \<Rightarrow> go_builder" where
  "new_go_builder code = run_options.extend (default_options code)
     \<lparr>go_auto_wrap = True, go_auto_import = True, go_mod_file = None, go_cgo_enabled = False,
      go_no_cache = False, go_files = []\<rparr>"

definition go_run :: "string \<Rightarrow> go_builder" where
  "go_run code = new_go_builder code"

definition go_timeout :: "duration \<Rightarrow> go_builder \<Rightarrow> go_builder" where
  "go_timeout t b = b\<lparr>opt_timeout := t\<rparr>"

definition go_memory :: "u64 \<Rightarrow> go_builder \<Rightarrow> go_builder" where
  "go_memory bytes b = b\<lparr>opt_memory := bytes\<rparr>"

definition go_max_pids :: "u32 \<Rightarrow> go_builder \<Rightarrow> go_builder" where
  "go_max_pids n b = b\<lparr>opt_max_pids := n\<rparr>"

definition go_max_output :: "u64 \<Rightarrow> go_builder \<Rightarrow> go_builder" where
  "go_max_output bytes b = b\<lparr>opt_max_output := bytes\<rparr>"

definition go_network :: "bool \<Rightarrow> go_builder \<Rightarrow> go_builder" where
  "go_network enabled b = b\<lparr>opt_network := enabled\<rparr>"

definition go_with :: "path \<Rightarrow> go_builder \<Rightarrow> go_builder" where
  "go_with p b = b\<lparr>opt_mounts := opt_mounts b @ [mount_ro p]\<rparr>"

definition go_with_bind :: "path \<Rightarrow> path \<Rightarrow> go_builder \<Rightarrow> go_builder" where
  "go_with_bind h s b = b\<lparr>opt_mounts := opt_mounts b @ [mount_bind h s]\<rparr>"

definition go_with_rw :: "path \<Rightarrow> go_builder \<Rightarrow> go_builder" where
  "go_with_rw p b = b\<lparr>opt_mounts := opt_mounts b @ [mount_rw p]\<rparr>"

definition go_with_rw_bind :: "path \<Rightarrow> path \<Rightarrow> go_builder \<Rightarrow> go_builder" where
  "go_with_rw_bind h s b = b\<lparr>opt_mounts := opt_mounts b @ [make_writable (mount_bind h s)]\<rparr>"

definition go_stdin :: "u8 list \<Rightarrow> go_builder \<Rightarrow> go_builder" where
  "go_stdin data b = b\<lparr>opt_stdin := Some data\<rparr>"

definition go_set_env :: "string \<Rightarrow> string \<Rightarrow> go_builder \<Rightarrow> go_builder" where
  "go_set_env key value b = b\<lparr>opt_env := opt_env b @ [(key, value)]\<rparr>"

definition go_with_auto_wrap :: "bool \<Rightarrow> go_builder \<Rightarrow> go_builder" where
  "go_with_auto_wrap enabled b = b\<lparr>go_auto_wrap := enabled\<rparr>"

definition go_with_auto_import :: "bool \<Rightarrow> go_builder \<Rightarrow> go_builder" where
  "go_with_auto_import enabled b = b\<lparr>go_auto_import := enabled\<rparr>"

definition go_with_mod :: "string \<Rightarrow> go_builder \<Rightarrow> go_builder" where
  "go_with_mod content b = b\<lparr>go_mod_file := Some content\<rparr>"

definition go_with_cgo :: "bool \<Rightarrow> go_builder \<Rightarrow> go_builder" where
  "go_with_cgo enabled b = b\<lparr>go_cgo_enabled := enabled\<rparr>"

definition go_with_no_cache :: "bool \<Rightarrow> go_builder \<Rightarrow> go_builder" where
  "go_with_no_cache skip b = b\<lparr>go_no_cache := skip\<rparr>"

definition go_with_file :: "string \<Rightarrow> u8 list \<Rightarrow> go_builder \<Rightarrow> go_builder" where
  "go_with_file name content b = b\<lparr>go_files := go_files b @ [(name, content)]\<rparr>"

section \<open>Compiling in a sandbox\<close>

definition go_compile_cmd :: "path \<Rightarrow> bool \<Rightarrow> string list" where
  "go_compile_cmd go_binary cgo_enabled =
     (let c = [to_string_lossy go_binary, ''build'', ''-o'', ''/output/main'', ''-trimpath'', ''main.go'']
      in if cgo_enabled then c else take 2 c @ ''-ldflags=-s -w'' # drop 2 c)"

definition go_compile_plan ::
  "bool \<Rightarrow> path \<Rightarrow> string \<Rightarrow> string option \<Rightarrow> (string \<times> u8 list) list \<Rightarrow> bool \<Rightarrow> runtime_info \<Rightarrow> path \<Rightarrow> plan" where
  "go_compile_plan nix go_binary code go_mod files cgo_enabled info output_dir =
     (let p = plan_cwd (new_plan nix (go_compile_cmd go_binary cgo_enabled)) ''/work'';
          p = plan_file p ''main.go'' (string_to_bytes code);
          p = plan_memory (plan_timeout p (from_secs 120)) (1024 * 1024 * 1024);
          p = plan_env p ''CGO_ENABLED'' (cgo_text cgo_enabled);
          p = (case go_mod of Some m \<Rightarrow> plan_file p ''go.mod'' (string_to_bytes m) | None \<Rightarrow> p);
          p = set_files files p;
          p = set_envs (ri_env info) p;
          p = plan_mounts p (ri_mounts info)
      in plan_mount p (make_writable (mount_bind output_dir ''/output'')))"

text \<open>The temporary directory is removed on every way out.\<close>

definition io_finally :: "('e, 'a) io \<Rightarrow> ('e, unit) io \<Rightarrow> ('e, 'a) io" where
  "io_finally m c = io_bind (io_try m) (\<lambda>r. io_then c (io_lift r))"

definition compile_in_sandbox ::
  "nat \<Rightarrow> host \<Rightarrow> path \<Rightarrow> string \<Rightarrow> string option \<Rightarrow> (string \<times> u8 list) list \<Rightarrow> bool \<Rightarrow> runtime_info
     \<Rightarrow> (run_error, u8 list option) io" where
  "compile_in_sandbox fuel host go_binary code go_mod files cgo_enabled info =
     io_bind (io_map_err ErrIo (fs_op (TempDir ''.tmp''))) (\<lambda>d.
       let output_dir = ans_str d; output_path = path_join output_dir ''main'' in
       io_finally
         (io_bind (path_exists ''/nix/store'') (\<lambda>nix.
          io_bind_some (io_map_err ErrSandbox (run fuel host
              (go_compile_plan nix go_binary code go_mod files cgo_enabled info output_dir))) (\<lambda>out.
            if \<not> output_success out
            then io_err (Compilation (output_stderr_str out) (Some (of_int (unwrap_or (out_exit_code out) (-1)))))
            else io_bind (path_exists output_path) (\<lambda>b.
              if \<not> b then io_err (Compilation ''go build succeeded but no binary was produced'' None)
              else io_bind (io_map_err ErrIo (fs_op (FsRead output_path))) (\<lambda>c. io_ret (Some (ans_data c)))))))
         (remove_dir_all output_dir))"

section \<open>Executing\<close>

definition get_go_cache_dir :: "('e, path) io" where
  "get_go_cache_dir =
     io_bind (env_var ''XDG_CACHE_HOME'') (\<lambda>x.
     io_bind (case x of
         Some d \<Rightarrow> io_ret d
       | None \<Rightarrow> io_bind (env_var ''HOME'') (\<lambda>home.
           io_ret (case home of Some d \<Rightarrow> path_join d ''.cache'' | None \<Rightarrow> ''/tmp''))) (\<lambda>cache_base.
       io_ret (path_join (path_join cache_base ''evalbox'') ''go'')))"

definition go_run_plan :: "bool \<Rightarrow> go_builder \<Rightarrow> u8 list \<Rightarrow> plan" where
  "go_run_plan nix b binary_content =
     (let p = plan_cwd (new_plan nix [''/work/main'']) ''/work'';
          p = plan_executable p ''main'' binary_content;
          p = plan_mounts (limits b p) (opt_mounts b);
          p = set_envs (opt_env b) p
      in set_stdin (opt_stdin b) p)"

text \<open>The binary, from the cache or compiled and then saved there.\<close>

definition go_binary_content ::
  "nat \<Rightarrow> host \<Rightarrow> go_builder \<Rightarrow> path \<Rightarrow> runtime_info \<Rightarrow> string \<Rightarrow> path \<Rightarrow> (run_error, u8 list option) io" where
  "go_binary_content fuel host b go_binary info code cache_dir =
     (let cached_binary = path_join cache_dir ''main'' in
      io_bind (if go_no_cache b then io_ret False else path_exists cached_binary) (\<lambda>hit.
        if hit then io_bind (io_map_err ErrIo (fs_op (FsRead cached_binary))) (\<lambda>c. io_ret (Some (ans_data c)))
        else io_bind_some
            (compile_in_sandbox fuel host go_binary code (go_mod_file b) (go_files b) (go_cgo_enabled b) info)
          (\<lambda>binary.
            io_then (io_map_err ErrIo (fs_op (CreateDirAll cache_dir)))
            (io_then (io_map_err ErrIo (fs_op (FsWrite cached_binary binary)))
              (io_ret (Some binary))))))"

definition go_build_and_run ::
  "go_world \<Rightarrow> nat \<Rightarrow> host \<Rightarrow> go_builder \<Rightarrow> path \<Rightarrow> runtime_info \<Rightarrow> (run_error, run_output option) io" where
  "go_build_and_run W fuel host b go_binary info =
     (let transformed_code = wrap_go_code (gw_regex W) (opt_code b) (go_auto_wrap b) (go_auto_import b);
          cache_key = go_cache_key transformed_code (go_mod_file b) (go_cgo_enabled b)
      in io_bind get_go_cache_dir (\<lambda>base.
         io_bind_some (go_binary_content fuel host b go_binary info transformed_code (path_join base cache_key))
           (\<lambda>content. io_bind (path_exists ''/nix/store'') (\<lambda>nix.
             run_plan fuel host (go_run_plan nix b content)))))"

definition go_exec :: "go_world \<Rightarrow> nat \<Rightarrow> host \<Rightarrow> go_builder \<Rightarrow> probe_cache
    \<Rightarrow> ('e, (run_error + run_output option) \<times> probe_cache) io" where
  "go_exec W fuel host b cache =
     (let probe = (if go_cgo_enabled b then go_probe_with_cgo else new_go_probe) in
      io_bind go_detect (\<lambda>found. case found of
        None \<Rightarrow> io_ret (Inl (RuntimeNotFound ''go'' ''$GOROOT, which go, /usr/local/go/bin/go''), cache)
      | Some go_binary \<Rightarrow>
          io_bind (get_or_probe (gw_hash W) (probe_go W probe) go_binary cache) (\<lambda>(r, cache'). case r of
            Inl e \<Rightarrow> io_ret (Inl (ErrProbe e), cache')
          | Inr info \<Rightarrow>
              io_bind (io_try (go_build_and_run W fuel host b go_binary info)) (\<lambda>out. io_ret (out, cache')))))"

end
