(* ===== verification/Runtime_Contracts.thy ===== *)
theory Runtime_Contracts
  imports Runtime_Go
begin

text \<open>
  The contract of \<open>Probe::probe\<close>, which the cache of reports relies on, discharged for Python and Go,
  and what follows for the cache: a report that comes out of it is one the contract allows.
\<close>

section \<open>The contract\<close>

text \<open>A report names the binary that was probed, and its mounts are read-only and keep their path.\<close>

definition report_ok :: "path \<Rightarrow> runtime_info \<Rightarrow> bool" where
  "report_ok b info \<longleftrightarrow> ri_binary info = b
     \<and> (\<forall>m \<in> set (ri_mounts info). \<not> mnt_writable m \<and> mnt_target m = mnt_source m)"

text \<open>Every entry of the table is a report on a binary with the key of the entry.\<close>

definition cache_ok :: "path_hasher \<Rightarrow> probe_cache \<Rightarrow> bool" where
  "cache_ok hash cache \<longleftrightarrow> (\<forall>(k, info) \<in> set cache. \<exists>b m. k = hash b m \<and> report_ok b info)"

lemma cache_ok_Nil [simp]: "cache_ok hash []"
  by (simp add: cache_ok_def)

lemma cache_ok_lookup: "cache_ok hash cache \<Longrightarrow> map_of cache k = Some info \<Longrightarrow> \<exists>b m. k = hash b m \<and> report_ok b info"
  unfolding cache_ok_def by (blast dest: map_of_SomeD)

lemma cache_ok_update: "cache_ok hash cache \<Longrightarrow> report_ok b info \<Longrightarrow> cache_ok hash (AList.update (hash b m) info cache)"
  unfolding cache_ok_def by (induction cache) auto

text \<open>\<open>looked_up hash b cache r\<close>: what a lookup of \<open>b\<close> may return and leave in the table.\<close>

definition looked_up ::
  "path_hasher \<Rightarrow> path \<Rightarrow> probe_cache \<Rightarrow> (probe_error + runtime_info) \<times> probe_cache \<Rightarrow> bool" where
  "looked_up hash b cache = (\<lambda>(r, cache'). cache_ok hash cache' \<and> map_of cache \<subseteq>\<^sub>m map_of cache'
     \<and> (\<forall>info. r = Inr info \<longrightarrow> (\<exists>b' m m'. hash b' m' = hash b m \<and> report_ok b' info
          \<and> map_of cache' (hash b m) = Some info)))"

locale runtime_probe =
  fixes probe :: prober
  assumes reports: "wp (probe b) K (\<lambda>info _. report_ok b info) (\<lambda>_ _. True) h"
begin

lemma lookup_sound:
  assumes "cache_ok hash cache"
  shows "wp (get_or_probe hash probe b cache) K (\<lambda>r _. looked_up hash b cache r) (\<lambda>_ _. True) h"
proof -
  have failed: "looked_up hash b cache (Inl e, cache)" for e
    by (simp add: looked_up_def assms)
  have hit: "looked_up hash b cache (Inr info, cache)" if "map_of cache (hash b m) = Some info" for info m
    using cache_ok_lookup [OF assms that] that by (simp add: looked_up_def assms) metis
  have miss: "looked_up hash b cache (Inr info, AList.update (hash b m) info cache)"
    if "map_of cache (hash b m) = None" "report_ok b info" for info m
    unfolding looked_up_def using cache_ok_update [OF assms that(2)] that
    by (fastforce simp: map_le_def update_conv' dom_def)
  show ?thesis
    unfolding get_or_probe_def compute_probe_key_def sys_def
    by (simp add: wp_rules failed hit split: option.split)
      (auto intro!: wp_mono [OF reports] simp: wp_rules failed miss)
qed

end

section \<open>The probes keep it\<close>

lemma ri_fields [simp]:
  "ri_binary (ri_env_var r k v) = ri_binary r" "ri_mounts (ri_env_var r k v) = ri_mounts r"
  "ri_binary (ri_mount r m) = ri_binary r" "ri_mounts (ri_mount r m) = ri_mounts r @ [m]"
  "ri_env (ri_mount r m) = ri_env r"
  by (simp_all add: ri_env_var_def ri_mount_def)

lemma report_ok_mount: "report_ok b (ri_mount r (mount_ro p)) \<longleftrightarrow> report_ok b r"
  by (auto simp: report_ok_def mount_ro_def)

text \<open>What runs before the value is of no account.\<close>

lemma wp_bind_any:
  assumes "\<And>x h'. wp (f x) K Q E h'" and "\<And>e h'. E e h'"
  shows "wp (io_bind m f) K Q E h"
  using assms unfolding wp_bind by (simp add: wp_def [of m] split: prod.split sum.split)

interpretation python: runtime_probe "probe_python W" for W
proof
  show "wp (probe_python W b) K (\<lambda>info _. report_ok b info) (\<lambda>_ _. True) h" for b K h
    unfolding probe_python_def Let_def
    by (intro wp_bind_any)
      (auto simp: wp_ret report_ok_def new_runtime_info_def mount_ro_def split: sum.split)
qed

interpretation go: runtime_probe "probe_go W pr" for W pr
proof
  have info: "report_ok b (go_probe_info pr b e)" for b e
    by (simp add: go_probe_info_def Let_def report_ok_mount)
      (simp add: report_ok_def new_runtime_info_def split: option.split)
  show "wp (probe_go W pr b) K (\<lambda>info _. report_ok b info) (\<lambda>_ _. True) h" for b K h
    unfolding probe_go_def Let_def
    by (rule wp_bind_any)
      (auto simp: wp_rules report_ok_mount info path_exists_def split: option.split)
qed

text \<open>C37: The probe cache is sound for both runtimes. In a table where every entry is a report on some
  binary with that key, a lookup, whether it probes or not, keeps this, never changes or drops an
  entry, and the report it returns is the entry of its key: a report on the requested binary, or on one
  whose hash of path and modification time is the same. No report ever asks for a writable mount or for
  a file to appear under another path.\<close>
theorem probe_cache_sound:
  assumes "cache_ok hash cache"
  shows "wp (get_or_probe hash (probe_python W) b cache) K (\<lambda>r _. looked_up hash b cache r) (\<lambda>_ _. True) h
    \<and> wp (get_or_probe hash (probe_go G pr) b cache) K (\<lambda>r _. looked_up hash b cache r) (\<lambda>_ _. True) h"
  using python.lookup_sound [OF assms] go.lookup_sound [OF assms] by blast

definition sample_python :: python_world where
  "sample_python = \<lparr>pw_elf = (\<lambda>_. Inr None), pw_parse = (\<lambda>_. None), pw_script = ''print()'',
     pw_hash = (\<lambda>p m. of_nat (length p)), pw_order = (\<lambda>ps. ps)\<rparr>"

theorem probe_cache_sound_witness:
  "wp (get_or_probe (\<lambda>p m. of_nat (length p)) (probe_python sample_python) ''/usr/bin/python3''
        [(16, new_runtime_info ''/usr/bin/python3'')]) (\<lambda>_ _. ok_answer)
      (\<lambda>r _. looked_up (\<lambda>p m. of_nat (length p)) ''/usr/bin/python3''
        [(16, new_runtime_info ''/usr/bin/python3'')] r) (\<lambda>_ _. True) []"
proof (rule probe_cache_sound [THEN conjunct1])
  have "16 = (of_nat (length ''/usr/bin/python3'') :: u64)"
    "report_ok ''/usr/bin/python3'' (new_runtime_info ''/usr/bin/python3'')"
    by (simp_all add: report_ok_def new_runtime_info_def)
  then show "cache_ok (\<lambda>p m. of_nat (length p)) [(16, new_runtime_info ''/usr/bin/python3'')]"
    by (simp add: cache_ok_def) (rule exI [of _ "''/usr/bin/python3''"], simp)
qed

end
