(* ===== verification/Runtime_Guarantees.thy ===== *)
theory Runtime_Guarantees
  imports Runtime_Contracts Parent_Guarantees Lockdown_Guarantees
begin

text \<open>
  What the three runtimes guarantee: the only programs they run outside a sandbox are the probes of
  the interpreter and the compiler, with fixed arguments; the code of the user is executed in the
  confined child of a plan that carries all options of the builder.
\<close>

section \<open>Detection and probes\<close>

lemma detect_calls [only_rules]:
  "only probing (is_executable p)" "only probing (env_var v)" "only probing (fs_test c)"
  "only probing (compute_probe_key hash p)" "only probing (new_plan_io cs)"
  by (auto simp: is_executable_def env_var_def fs_test_def compute_probe_key_def new_plan_io_def
      intro!: only_rules)

lemma exists_executable_calls [only_rules]: "only probing (exists_executable p)"
  by (auto simp: exists_executable_def intro!: only_rules)

lemma first_calls [only_rules]:
  "only probing (first_executable ps)" "only probing (first_existing ps)"
  by (induction ps) (auto intro!: only_rules)

lemma resolve_program_calls [only_rules]: "only probing (resolve_program n fs)"
  by (auto simp: resolve_program_def intro!: only_rules split: sum.split)

lemma resolve_from_env_calls [only_rules]: "only probing (resolve_from_env v n)"
  by (auto simp: resolve_from_env_def intro!: only_rules split: option.split)

lemma first_resolved_calls [only_rules]: "only probing (first_resolved ns)"
  by (induction ns) (auto intro!: only_rules split: option.split)

lemma or_else_calls [only_rules]: "only C m \<Longrightarrow> only C n \<Longrightarrow> only C (or_else m n)"
  by (auto simp: or_else_def intro!: only_rules split: option.split)

lemma runtime_detect_calls [only_rules]:
  "only probing (python_detect pr)" "only probing go_detect" "only probing (python_binary b)"
  "only probing get_go_cache_dir"
  by (auto simp: python_detect_def go_detect_def python_binary_def get_go_cache_dir_def
      intro!: only_rules split: option.split)

lemma elf_calls [only_rules]:
  "only probing (parse_elf_info elf p)" "only probing (load_ldcache p)"
  "only probing (resolve_library n rp runp c)"
  unfolding parse_elf_info_def elf_object_def load_ldcache_def resolve_library_def Let_def
  by (auto intro!: only_rules split: sum.split option.split panic.split)

lemma resolve_names_calls [only_rules]: "only probing (resolve_names info c ns)"
  by (induction ns) (auto intro!: only_rules)

lemma shared_libs_calls [only_rules]: "only probing (resolve_shared_libs elf b)"
  unfolding resolve_shared_libs_direct direct_libs_def by (auto intro!: only_rules)

text \<open>\<open>asking args c\<close>: the call looks at the system, or runs some program with these arguments.\<close>

definition asking :: "string list \<Rightarrow> call \<Rightarrow> bool" where
  "asking args c \<longleftrightarrow> probing c \<or> (\<exists>binary. c = Proc (RunProgram binary args))"

lemma asking_probing: "only probing m \<Longrightarrow> only (asking args) m"
  by (erule only_mono) (simp add: asking_def)

lemma report_calls:
  "only (asking [''-c'', pw_script W]) (python_report W b)"
  "only (asking [''env'', ''-json'']) (go_report G b)"
  unfolding python_report_def go_report_def sys_def
  by (auto intro!: only_bind only_map_err only_call only_if only_err only_ret simp: asking_def
      split: option.splits)

lemma python_probe_calls: "only (asking [''-c'', pw_script W]) (probe_python W b)"
  unfolding probe_python_def
  by (rule only_bind, rule report_calls, rule asking_probing) (auto simp: Let_def intro!: only_rules split: sum.split)

lemma go_probe_calls: "only (asking [''env'', ''-json'']) (probe_go W pr b)"
  unfolding probe_go_def
  by (rule only_bind, rule report_calls, rule asking_probing)
    (auto simp: Let_def intro!: only_rules split: option.split)

lemma get_or_probe_calls:
  assumes "only (asking args) (probe b)"
  shows "only (asking args) (get_or_probe hash probe b cache)"
  unfolding get_or_probe_def
  by (rule only_bind, rule asking_probing, rule only_rules, rule only_rules)
    (auto intro!: only_ret only_bind only_try assms split: sum.split option.split)

section \<open>Running a plan\<close>

lemma run_plan_guarded: "runs (run_plan fuel host p) K (\<lambda>_. guarded host p) h"
  unfolding run_plan_def
  by (rule runs_bind, rule runs_map_err, rule runs_mono [OF run_guarded]) (auto intro!: runs_ret)

lemma guarded_none: "no_exec t \<Longrightarrow> guarded host p t"
  by (simp add: guarded_def)

lemma guarded_before: "no_exec u \<Longrightarrow> guarded host p t \<Longrightarrow> guarded host p (u @ t)"
  unfolding guarded_def by (metis append.assoc no_exec_simps(3))

lemma guarded_after:
  assumes "guarded host p t" and "no_exec u"
  shows "guarded host p (t @ u)"
proof (cases "no_exec t")
  case True
  with assms(2) show ?thesis by (simp add: guarded_def)
next
  case False
  then obtain before f v where t: "t = before @ (Proc Fork, f) # v" "no_exec before" "ans_ret f = 0"
    "guarded_child host p v"
    using assms(1) unfolding guarded_def by blast
  then have "t @ u = before @ (Proc Fork, f) # (v @ u)" "guarded_child host p (v @ u)"
    using assms(2) by (simp_all add: guarded_child_after)
  with t(2,3) show ?thesis unfolding guarded_def by blast
qed

text \<open>\<open>hosted args t\<close>: in \<open>t\<close> nothing is executed but programs with these arguments.\<close>

definition hosted :: "string list \<Rightarrow> hist \<Rightarrow> bool" where
  "hosted args t \<longleftrightarrow>
     (\<forall>e \<in> set t. is_exec (fst e) \<longrightarrow> (\<exists>binary. fst e = Proc (RunProgram binary args)))"

lemma hosted_simps [simp]: "hosted args []" "hosted args (t @ u) \<longleftrightarrow> hosted args t \<and> hosted args u"
  by (auto simp: hosted_def)

lemma probing_no_exec: "probing c \<Longrightarrow> \<not> is_exec c"
  by (auto simp: probing_def)

lemma asking_runs: "only (asking args) m \<Longrightarrow> runs m K (\<lambda>_. hosted args) h"
  by (rule runs_mono, erule only_runs) (auto simp: hosted_def asking_def dest: probing_no_exec)

lemma probing_runs: "only probing m \<Longrightarrow> runs m K (\<lambda>_. no_exec) h"
  by (rule harmless_runs) (erule only_mono, rule probing_no_exec)

lemma no_exec_hosted: "no_exec t \<Longrightarrow> hosted args t"
  by (simp add: hosted_def no_exec_def)

section \<open>The shell\<close>


section \<open>Python\<close>

lemma set_files_fields [simp]:
  "cmd (set_files fs p) = cmd p" "stdin (set_files fs p) = stdin p" "cwd (set_files fs p) = cwd p"
  "mounts (set_files fs p) = mounts p" "env (set_files fs p) = env p"
  "timeout (set_files fs p) = timeout p" "memory_limit (set_files fs p) = memory_limit p"
  "max_pids (set_files fs p) = max_pids p" "max_output (set_files fs p) = max_output p"
  "network_blocked (set_files fs p) = network_blocked p" "syscalls_cfg (set_files fs p) = syscalls_cfg p"
  "landlock_cfg (set_files fs p) = landlock_cfg p" "notify_mode (set_files fs p) = notify_mode p"
  unfolding set_files_def by (induction fs arbitrary: p) (auto simp: plan_builder_defs)

text \<open>\<open>runs_code b p\<close>: the plan that the Python runtime builds, for some interpreter.\<close>

definition runs_code :: "python_builder \<Rightarrow> plan \<Rightarrow> bool" where
  "runs_code b p \<longleftrightarrow> carries_options b p \<and> (\<exists>binary. cmd p = [binary, ''-c'', opt_code b])
     \<and> (\<forall>m \<in> set (mounts p). mnt_writable m \<longrightarrow> m \<in> set (opt_mounts b))"

lemma python_plan_runs_code:
  assumes "report_ok b' info"
  shows "runs_code b (python_plan nix b binary info)"
  using assms by (auto simp: runs_code_def python_plan_def carries_options_def report_ok_def Let_def plan_cwd_def
      plan_env_def plan_mount_def mount_ro_def split: option.splits)

lemma some_report_ok: "report_ok b (new_runtime_info b)"
  by (simp add: report_ok_def new_runtime_info_def)

text \<open>\<open>confined_after args host Q t\<close>: first only programs with the arguments \<open>args\<close> are executed, and
  then nothing but the command of one plan with \<open>Q\<close>, guarded.\<close>

definition confined_after :: "string list \<Rightarrow> host \<Rightarrow> (plan \<Rightarrow> bool) \<Rightarrow> hist \<Rightarrow> bool" where
  "confined_after args host Q t \<longleftrightarrow>
     (\<exists>u v p. t = u @ v \<and> hosted args u \<and> guarded host p v \<and> Q p)"

lemma confined_after_hosted:
  assumes "hosted args t" and "Q p"
  shows "confined_after args host Q t"
  unfolding confined_after_def
  by (rule exI [of _ t], rule exI [of _ "[]"], rule exI [of _ p]) (simp add: assms guarded_none)

lemma confined_after_run:
  assumes "guarded host p v" and "Q p"
  shows "confined_after args host Q v"
  unfolding confined_after_def
  by (rule exI [of _ "[]"], rule exI [of _ v], rule exI [of _ p]) (simp add: assms)

lemma confined_after_prefix:
  "hosted args u \<Longrightarrow> confined_after args host Q t \<Longrightarrow> confined_after args host Q (u @ t)"
  unfolding confined_after_def by (metis append.assoc hosted_simps(2))



section \<open>Go\<close>

text \<open>\<open>guarded_by host Q t\<close>: in \<open>t\<close> nothing is executed but the command of one plan in \<open>Q\<close>, guarded.\<close>

definition guarded_by :: "host \<Rightarrow> plan set \<Rightarrow> hist \<Rightarrow> bool" where
  "guarded_by host Q t \<longleftrightarrow> (\<exists>p \<in> Q. guarded host p t)"

lemma guarded_by_none: "p \<in> Q \<Longrightarrow> no_exec t \<Longrightarrow> guarded_by host Q t"
  unfolding guarded_by_def by (blast intro: guarded_none)

lemma guarded_by_ends:
  "no_exec u \<Longrightarrow> guarded_by host Q t \<Longrightarrow> guarded_by host Q (u @ t)"
  "guarded_by host Q t \<Longrightarrow> no_exec u \<Longrightarrow> guarded_by host Q (t @ u)"
  unfolding guarded_by_def by (blast intro: guarded_before guarded_after)+

lemma guarded_by_run: "p \<in> Q \<Longrightarrow> runs (run_plan fuel host p) K (\<lambda>_. guarded_by host Q) h"
  by (rule runs_mono [OF run_plan_guarded]) (auto simp: guarded_by_def)

lemma guarded_by_sandbox_run:
  "p \<in> Q \<Longrightarrow> runs (io_map_err g (run fuel host p)) K (\<lambda>_. guarded_by host Q) h"
  by (rule runs_map_err, rule runs_mono [OF run_guarded]) (auto simp: guarded_by_def)

lemma guarded_by_later:
  assumes "p \<in> Q" and "harmless m" and "\<And>x h. runs (f x) K (\<lambda>_. guarded_by host Q) h"
  shows "runs (io_bind m f) K (\<lambda>_. guarded_by host Q) h"
  by (rule runs_bind [OF harmless_runs [OF assms(2)]])
    (auto intro!: runs_mono [OF assms(3)] intro: guarded_by_ends(1) guarded_by_none [OF assms(1)])

lemma guarded_by_earlier:
  assumes "runs m K (\<lambda>_. guarded_by host Q) h" and "\<And>x. harmless (f x)"
  shows "runs (io_bind m f) K (\<lambda>_. guarded_by host Q) h"
  by (rule runs_bind [OF assms(1)]) (auto intro!: runs_mono [OF harmless_runs [OF assms(2)]] guarded_by_ends(2))

lemma guarded_by_map_err:
  "runs m K (\<lambda>_. guarded_by host Q) h \<Longrightarrow> runs (io_map_err g m) K (\<lambda>_. guarded_by host Q) h"
  by (rule runs_map_err) (erule runs_mono, simp)

lemma guarded_by_try:
  "runs m K (\<lambda>_. guarded_by host Q) h \<Longrightarrow> runs (io_try m) K (\<lambda>_. guarded_by host Q) h"
  by (rule runs_try)

lemma fs_harmless [only_rules]: "harmless (fs_op c)" "harmless (path_exists p)"
  by (auto simp: fs_op_def path_exists_def intro!: only_rules)

text \<open>The plan of a compilation and the plan of the program.\<close>

definition compiles :: "plan \<Rightarrow> bool" where
  "compiles p \<longleftrightarrow> (\<exists>binary cgo. cmd p = go_compile_cmd binary cgo) \<and> network_blocked p
     \<and> syscalls_cfg p = None \<and> landlock_cfg p = None"

definition executes_main :: "go_builder \<Rightarrow> plan \<Rightarrow> bool" where
  "executes_main b p \<longleftrightarrow> cmd p = [''/work/main''] \<and> carries_options b p
     \<and> (\<exists>content. user_files p = [make_executable (new_user_file ''main'' content)])"

lemma set_files_more [simp]: "binary_path (set_files fs p) = binary_path p"
  unfolding set_files_def by (induction fs arbitrary: p) (auto simp: plan_builder_defs)

lemma go_compile_plan_compiles: "go_compile_plan nix g code m files cgo info d \<in> Collect compiles"
  by (auto simp: compiles_def go_compile_plan_def Let_def plan_mount_def plan_env_def plan_memory_def
      plan_memory_limit_def plan_timeout_def plan_file_def plan_cwd_def new_plan_def default_plan_def
      split: option.split)

lemma go_run_plan_executes: "go_run_plan nix b content \<in> Collect (executes_main b)"
  by (auto simp: executes_main_def go_run_plan_def carries_options_def Let_def plan_cwd_def
      plan_executable_def split: option.split)

lemma io_bind_some_earlier:
  assumes "runs m K (\<lambda>_. guarded_by host Q) h" and "\<And>x. harmless (f x)"
  shows "runs (io_bind_some m f) K (\<lambda>_. guarded_by host Q) h"
  unfolding io_bind_some_def
  by (rule guarded_by_earlier [OF assms(1)]) (auto intro!: only_rules assms(2) split: option.split)

lemma compile_guarded:
  "runs (compile_in_sandbox fuel host g code m files cgo info) K (\<lambda>_. guarded_by host (Collect compiles)) h"
proof -
  let ?plan = "\<lambda>nix d. go_compile_plan nix g code m files cgo info d"
  have build: "runs (io_bind_some (io_map_err ErrSandbox (run fuel host (?plan nix d))) (\<lambda>out.
            if \<not> output_success out
            then io_err (Compilation (output_stderr_str out) (Some (of_int (unwrap_or (out_exit_code out) (-1)))))
            else io_bind (path_exists (path_join d ''main'')) (\<lambda>b.
              if \<not> b then io_err (Compilation ''go build succeeded but no binary was produced'' None)
              else io_bind (io_map_err ErrIo (fs_op (FsRead (path_join d ''main'')))) (\<lambda>c. io_ret (Some (ans_data c))))))
      K (\<lambda>_. guarded_by host (Collect compiles)) h" for nix d h
    by (rule io_bind_some_earlier [OF guarded_by_sandbox_run [OF go_compile_plan_compiles]])
      (auto intro!: only_rules)
  show ?thesis
    unfolding compile_in_sandbox_def Let_def io_finally_def
    by (intro guarded_by_later [OF go_compile_plan_compiles] guarded_by_earlier guarded_by_try build)
      (auto intro!: only_rules)
qed

lemma binary_content_guarded:
  "runs (go_binary_content fuel host b g info code dir) K (\<lambda>_. guarded_by host (Collect compiles)) h"
proof -
  have hit: "runs (io_bind (io_map_err ErrIo (fs_op (FsRead p))) (\<lambda>c. io_ret (Some (ans_data c)))) K
      (\<lambda>_. guarded_by host (Collect compiles)) h" for p h
    by (rule runs_mono [OF harmless_runs]) (auto intro!: only_rules guarded_by_none [OF go_compile_plan_compiles])
  have miss: "runs (io_bind_some (compile_in_sandbox fuel host g code m fs cgo info) (\<lambda>binary.
      io_then (io_map_err ErrIo (fs_op (CreateDirAll dir)))
        (io_then (io_map_err ErrIo (fs_op (FsWrite p binary))) (io_ret (Some binary))))) K
      (\<lambda>_. guarded_by host (Collect compiles)) h" for m fs cgo p h
    by (rule io_bind_some_earlier [OF compile_guarded]) (auto intro!: only_rules)
  show ?thesis
    unfolding go_binary_content_def Let_def
    by (rule guarded_by_later [OF go_compile_plan_compiles]) (auto intro!: only_rules hit miss)
qed

text \<open>\<open>built_and_run b host args t\<close>: outside any sandbox at most a program with the arguments \<open>args\<close> is
  executed, then nothing but the command of a compilation, guarded, and then nothing but the compiled
  program, guarded, under a plan that carries the options of the builder.\<close>

definition built_and_run :: "go_builder \<Rightarrow> host \<Rightarrow> string list \<Rightarrow> hist \<Rightarrow> bool" where
  "built_and_run b host args t \<longleftrightarrow> (\<exists>u v w. t = u @ v @ w \<and> hosted args u
     \<and> guarded_by host (Collect compiles) v \<and> guarded_by host (Collect (executes_main b)) w)"

lemma guarded_Nil:
  "guarded_by host (Collect compiles) []" "guarded_by host (Collect (executes_main b)) []"
  by (rule guarded_by_none, rule go_compile_plan_compiles, simp)
    (rule guarded_by_none, rule go_run_plan_executes, simp)

lemma built_simps:
  "hosted args t \<Longrightarrow> built_and_run b host args t"
  "hosted args u \<Longrightarrow> built_and_run b host args t \<Longrightarrow> built_and_run b host args (u @ t)"
  "guarded_by host (Collect compiles) v \<Longrightarrow> guarded_by host (Collect (executes_main b)) w
     \<Longrightarrow> built_and_run b host args (v @ w)"
proof -
  show "hosted args t \<Longrightarrow> built_and_run b host args t"
    unfolding built_and_run_def using guarded_Nil by (metis append_Nil2)
  show "hosted args u \<Longrightarrow> built_and_run b host args t \<Longrightarrow> built_and_run b host args (u @ t)"
    unfolding built_and_run_def by (metis append.assoc hosted_simps(2))
  show "guarded_by host (Collect compiles) v \<Longrightarrow> guarded_by host (Collect (executes_main b)) w
     \<Longrightarrow> built_and_run b host args (v @ w)"
    unfolding built_and_run_def by (metis append_Nil hosted_simps(1))
qed

lemma build_and_run_runs:
  "runs (go_build_and_run W fuel host b g info) K (\<lambda>_. built_and_run b host args) h"
proof -
  let ?R = "guarded_by host (Collect (executes_main b))"
  have program: "runs (io_bind (path_exists ''/nix/store'') (\<lambda>nix. run_plan fuel host (go_run_plan nix b content)))
      K (\<lambda>_. ?R) h" for content h
    by (rule guarded_by_later [OF go_run_plan_executes])
      (auto intro!: only_rules guarded_by_run [OF go_run_plan_executes])
  have rest: "runs (io_bind_some (go_binary_content fuel host b g info code dir) (\<lambda>content.
      io_bind (path_exists ''/nix/store'') (\<lambda>nix. run_plan fuel host (go_run_plan nix b content))))
      K (\<lambda>_. built_and_run b host args) h" for code dir h
    unfolding io_bind_some_def
  proof (rule runs_bind [OF binary_content_guarded])
    fix x :: "u8 list option" and v h'
    assume v: "guarded_by host (Collect compiles) v"
    show "runs (case x of None \<Rightarrow> io_ret None | Some content \<Rightarrow>
        io_bind (path_exists ''/nix/store'') (\<lambda>nix. run_plan fuel host (go_run_plan nix b content))) K
        (\<lambda>r w. built_and_run b host args (v @ w)) (h @ v)"
      by (cases x) (auto intro!: runs_ret runs_mono [OF program] built_simps(3) v guarded_Nil)
  next
    fix e v assume "guarded_by host (Collect compiles) v"
    then show "built_and_run b host args v"
      using built_simps(3) [OF _ guarded_Nil(2)] by fastforce
  qed
  show ?thesis
    unfolding go_build_and_run_def Let_def
    by (rule runs_bind [OF probing_runs], rule only_rules, rule runs_mono, rule rest)
      (auto intro: built_simps(1,2) no_exec_hosted)
qed


section \<open>What goes wrong around the Go compiler\<close>

lemma go_compile_plan_base:
  obtains base where
    "\<And>d. go_compile_plan nix g code m files cgo info d
         = base\<lparr>mounts := ri_mounts info @ [make_writable (mount_bind d ''/output'')]\<rparr>"
    and "cmd base = go_compile_cmd g cgo"
    and "map_of (env base) = (map_of (default_env nix))(''CGO_ENABLED'' \<mapsto> cgo_text cgo) ++ map_of (rev (ri_env info))"
proof -
  let ?base = "plan_mounts (set_envs (ri_env info) (set_files files (case m of
      Some t \<Rightarrow> plan_file (plan_env (plan_memory (plan_timeout (plan_file (plan_cwd (new_plan nix (go_compile_cmd g cgo)) ''/work'')
        ''main.go'' (string_to_bytes code)) (from_secs 120)) (1024 * 1024 * 1024)) ''CGO_ENABLED'' (cgo_text cgo))
        ''go.mod'' (string_to_bytes t)
    | None \<Rightarrow> plan_env (plan_memory (plan_timeout (plan_file (plan_cwd (new_plan nix (go_compile_cmd g cgo)) ''/work'')
        ''main.go'' (string_to_bytes code)) (from_secs 120)) (1024 * 1024 * 1024)) ''CGO_ENABLED'' (cgo_text cgo)))) (ri_mounts info)"
  show ?thesis
  proof (rule that [of ?base])
    show "go_compile_plan nix g code m files cgo info d
         = ?base\<lparr>mounts := ri_mounts info @ [make_writable (mount_bind d ''/output'')]\<rparr>" for d
      by (cases m) (simp_all add: go_compile_plan_def Let_def plan_mount_def plan_file_def plan_env_def
          plan_memory_def plan_memory_limit_def plan_timeout_def plan_cwd_def)
    show "cmd ?base = go_compile_cmd g cgo"
      by (cases m) (simp_all add: plan_file_def plan_env_def plan_memory_def plan_memory_limit_def
          plan_timeout_def plan_cwd_def)
    show "map_of (env ?base) = (map_of (default_env nix))(''CGO_ENABLED'' \<mapsto> cgo_text cgo) ++ map_of (rev (ri_env info))"
      by (cases m) (simp_all add: plan_file_def plan_env_lookup plan_memory_def plan_memory_limit_def
          plan_timeout_def plan_cwd_def set_envs_env)
  qed
qed


text \<open>A Go report carries the setting of the probe that made it, with distinct variables.\<close>

lemma go_report_cgo:
  "wp (probe_go W pr b) K (\<lambda>info _. map_of (rev (ri_env info)) ''CGO_ENABLED'' = Some (cgo_text (gp_cgo_enabled pr)))
     (\<lambda>_ _. True) h"
proof -
  have info: "map_of (rev (ri_env (go_probe_info pr b e))) ''CGO_ENABLED'' = Some (cgo_text (gp_cgo_enabled pr))" for e
    by (simp add: go_probe_info_def Let_def ri_env_var_def new_runtime_info_def split: option.split)
  show ?thesis
    unfolding probe_go_def Let_def
    by (rule wp_bind_any) (auto simp: wp_rules info path_exists_def split: option.split)
qed

text \<open>C39: The cgo setting of a request is lost in the cache of reports. When a first request for a binary
  filled the table and a second one, for the same binary with the same modification time, asks for the
  other setting, the second gets the first one's report, without probing, and compiles with its
  \<open>CGO_ENABLED\<close>, whatever it asked for: in the compilation plan the report's value overrides it. The
  binary is stored under the key of the setting that was asked for.\<close>
theorem go_cgo_setting_lost:
  assumes "get_or_probe hash (probe_go W pr) b [] K h = (Inr (Inr info, cache), h1)"
    and "fst (compute_probe_key hash b K' h2) = fst (compute_probe_key hash b K h)"
  shows "\<exists>h3. get_or_probe hash (probe_go W' pr') b cache K' h2 = (Inr (Inr info, cache), h3)
    \<and> map_of (env (go_compile_plan nix g code m files cgo info d)) ''CGO_ENABLED''
        = Some (cgo_text (gp_cgo_enabled pr))"
proof -
  have first: "(\<exists>key. fst (compute_probe_key hash b K h) = Inr key \<and> map_of cache key = Some info)
      \<and> map_of (rev (ri_env info)) ''CGO_ENABLED'' = Some (cgo_text (gp_cgo_enabled pr))"
    using assms(1) wp_Inr [OF go_report_cgo, of W pr b K]
    by (fastforce simp: get_or_probe_def io_bind_def io_try_def io_ret_def split: prod.splits sum.splits)
  then obtain key where key: "fst (compute_probe_key hash b K' h2) = Inr key" "map_of cache key = Some info"
    using assms(2) by auto
  then have "\<exists>h3. get_or_probe hash (probe_go W' pr') b cache K' h2 = (Inr (Inr info, cache), h3)"
    by (auto simp: get_or_probe_def io_bind_def io_try_def io_ret_def split: prod.split)
  moreover have "map_of (env (go_compile_plan nix g code m files cgo info d)) ''CGO_ENABLED''
        = Some (cgo_text (gp_cgo_enabled pr))"
    by (rule go_compile_plan_base [where nix = nix and g = g and code = code and m = m
          and files = files and cgo = cgo and info = info]) (simp add: first)
  ultimately show ?thesis by blast
qed

definition demo_go :: go_world where
  "demo_go = \<lparr>gw_regex = \<lparr>is_match = (\<lambda>_ _. False), first_captures = (\<lambda>_ _. [])\<rparr>,
     gw_parse = (\<lambda>_. Some \<lparr>ge_goroot = ''/usr/lib/go'', ge_gocache = ''/root/.cache'', ge_gomodcache = None\<rparr>),
     gw_hash = (\<lambda>p m. of_nat (length p))\<rparr>"

definition go_os :: os where
  "go_os h c = (case c of Proc (RunProgram p args) \<Rightarrow> ok_answer\<lparr>ans_vals := [0]\<rparr> | _ \<Rightarrow> ok_answer)"

theorem go_cgo_setting_lost_witness:
  "\<exists>info cache h3.
      get_or_probe (gw_hash demo_go) (probe_go demo_go go_probe_with_cgo) ''/usr/lib/go/bin/go'' cache go_os []
        = (Inr (Inr info, cache), h3)
    \<and> map_of (env (go_compile_plan False ''/usr/lib/go/bin/go'' ''x'' None [] True info ''/tmp/o'')) ''CGO_ENABLED''
        = Some ''0''"
proof -
  obtain info cache h1 where first: "get_or_probe (gw_hash demo_go) (probe_go demo_go new_go_probe)
      ''/usr/lib/go/bin/go'' [] go_os [] = (Inr (Inr info, cache), h1)"
    by (simp add: get_or_probe_def compute_probe_key_def probe_go_def go_report_def sys_def io_bind_def io_try_def
        io_ret_def io_call_def io_map_err_def go_os_def demo_go_def ok_answer_def Let_def split: option.split)
  show ?thesis
    using go_cgo_setting_lost [OF first refl, of demo_go go_probe_with_cgo False "''/usr/lib/go/bin/go''" "''x''" None "[]"
        True "''/tmp/o''"]
    by (auto simp: cgo_text_def new_go_probe_def)
qed

end
