(* ===== verification/Go_Source_Guarantees.thy ===== *)
theory Go_Source_Guarantees
  imports Go_Source
begin

text \<open>
  What \<open>wrap_go_code\<close> promises: the completion of a fragment is a program, and completing a program
  again changes nothing. The facts about the four patterns that this relies on are named hypotheses.
\<close>

section \<open>Trimming\<close>

lemma char_code: "c = char_of (n :: nat) \<longleftrightarrow> of_char c = n mod 256" "char_of n = c \<longleftrightarrow> n mod 256 = of_char c"
  using char_of_eq_iff [of n c] by (auto simp: take_bit_eq_mod)

lemma white_space_all:
  "\<forall>w \<in> set WHITE_SPACE. w \<noteq> [] \<and> (newline \<in> set w \<longrightarrow> w = [newline])
     \<and> hd w \<noteq> CHR ''p'' \<and> last w \<noteq> CHR 0x7D"
  "[newline] \<in> set WHITE_SPACE" "find (\<lambda>w. w = [newline]) WHITE_SPACE = Some [newline]"
  by (simp_all add: WHITE_SPACE_def bytes_to_string_def char_code)

lemma white_space:
  assumes "w \<in> set WHITE_SPACE"
  shows "w \<noteq> []" "newline \<in> set w \<Longrightarrow> w = [newline]" "hd w \<noteq> CHR ''p''" "last w \<noteq> CHR 0x7D"
  using white_space_all(1) assms by blast+

lemma trim_start_stop: "(\<And>w. w \<in> set WHITE_SPACE \<Longrightarrow> \<not> prefix w s) \<Longrightarrow> trim_start s = s"
  by (subst trim_start.simps) (simp add: find_None_iff [THEN iffD2])

lemma trim_end_stop: "(\<And>w. w \<in> set WHITE_SPACE \<Longrightarrow> \<not> suffix w s) \<Longrightarrow> trim_end s = s"
  by (subst trim_end.simps) (simp add: find_None_iff [THEN iffD2])

lemma trim_end_no_suffix: "w \<in> set WHITE_SPACE \<Longrightarrow> \<not> suffix w (trim_end s)"
proof (induction s rule: trim_end.induct)
  case (1 s)
  show ?case
  proof (cases "find (\<lambda>w. suffix w s) WHITE_SPACE")
    case None
    then have "trim_end s = s" by (subst trim_end.simps) simp
    with None 1(2) show ?thesis by (simp add: find_None_iff)
  next
    case (Some v)
    then have "trim_end s = trim_end (take (length s - length v) s)" by (subst trim_end.simps) simp
    with 1(1) [OF Some 1(2)] show ?thesis by simp
  qed
qed

lemma trim_end_newline: "trim_end (s @ [newline]) = trim_end s"
proof -
  have "find (\<lambda>w. suffix w (s @ [newline])) WHITE_SPACE = Some [newline]"
  proof -
    have "suffix w (s @ [newline]) \<longleftrightarrow> w = [newline]" if "w \<in> set WHITE_SPACE" for w
      using white_space(1,2) [OF that] by (cases w rule: rev_cases) auto
    then have "find (\<lambda>w. suffix w (s @ [newline])) WHITE_SPACE = find (\<lambda>w. w = [newline]) WHITE_SPACE"
      by (rule find_cong [OF refl])
    also have "\<dots> = Some [newline]" by (rule white_space_all(3))
    finally show ?thesis .
  qed
  then show ?thesis by (subst trim_end.simps) simp
qed

text \<open>White space is not found across a line break.\<close>

lemma trim_end_line:
  assumes "t \<noteq> []" and "\<And>w. w \<in> set WHITE_SPACE \<Longrightarrow> \<not> suffix w t"
  shows "trim_end (s @ [newline] @ t) = s @ [newline] @ t"
proof (rule trim_end_stop)
  fix w assume w: "w \<in> set WHITE_SPACE"
  show "\<not> suffix w (s @ [newline] @ t)"
  proof
    assume "suffix w (s @ [newline] @ t)"
    then obtain u where u: "s @ [newline] @ t = u @ w" by (auto simp: suffix_def)
    with assms(2) [OF w] have "newline \<in> set w \<and> length t < length w"
      by (auto simp: suffix_def append_eq_append_conv2 Cons_eq_append_conv)
    with white_space(2) [OF w] assms(1) show False by simp
  qed
qed

section \<open>Programs\<close>

text \<open>The facts of the patterns that are used: a first line \<open>package main\<close> and a later line that starts
  with \<open>func main() {\<close> are found, a main function is still found below more lines, and none is found
  in an empty text.\<close>

definition regex_ok :: "regex_engine \<Rightarrow> bool" where
  "regex_ok R \<longleftrightarrow> (\<forall>s. is_match R RE_PACKAGE (''package main'' @ [newline] @ s))
     \<and> (\<forall>s t. is_match R RE_MAIN_FUNC (s @ [newline] @ ''func main() {'' @ t))
     \<and> (\<forall>s t. is_match R RE_MAIN_FUNC t \<longrightarrow> is_match R RE_MAIN_FUNC (s @ [newline] @ t))
     \<and> \<not> is_match R RE_MAIN_FUNC []"

definition complete :: "regex_engine \<Rightarrow> string \<Rightarrow> bool" where
  "complete R code \<longleftrightarrow> has_package_decl R (trim code) \<and> has_main_func R (trim code)"

lemma wrap_complete: "complete R code \<Longrightarrow> wrap_go_code R code auto_wrap auto_import = code"
  by (simp add: wrap_go_code_def complete_def Let_def)

lemma import_block_lines: "\<exists>s. [newline] @ import_block is = s @ [newline]"
  by (cases "is = []") (simp_all add: import_block_def flip: append_assoc append_Cons)

lemma trim_package: "trim (''package main'' @ s) = trim_end (''package main'' @ s)"
proof -
  have "trim_start (''package main'' @ s) = ''package main'' @ s"
  proof (rule trim_start_stop)
    fix w assume "w \<in> set WHITE_SPACE"
    with white_space(1,3) [of w] show "\<not> prefix w (''package main'' @ s)" by (cases w) auto
  qed
  then show ?thesis by (simp add: trim_def)
qed

text \<open>The last part of a completion, without its line break, is not empty and ends in no white space.\<close>

lemma last_part:
  assumes "regex_ok R"
  obtains p where "(if \<not> has_main_func R (trim code) then main_block (trim code) else trim code @ [newline]) = p @ [newline]"
    and "p \<noteq> []" "\<And>w. w \<in> set WHITE_SPACE \<Longrightarrow> \<not> suffix w p"
    and "\<And>s. has_main_func R (s @ [newline] @ p)"
proof (cases "has_main_func R (trim code)")
  case True
  then have "trim code \<noteq> []" using assms by (auto simp: regex_ok_def has_main_func_def)
  with True assms show ?thesis
    by (intro that [of "trim code"]) (auto simp: trim_def trim_end_no_suffix regex_ok_def has_main_func_def)
next
  case False
  let ?p = "butlast (main_block (trim code))"
  have "main_block (trim code) = ?p @ [newline]" "last ?p = CHR 0x7D" "?p \<noteq> []"
    by (simp_all add: main_block_def butlast_append)
  moreover have "has_main_func R (s @ [newline] @ ?p)" for s
    using assms by (simp add: main_block_def butlast_append regex_ok_def has_main_func_def)
  moreover have "\<not> suffix w ?p" if "w \<in> set WHITE_SPACE" for w
    using white_space(1,4) [OF that] \<open>last ?p = CHR 0x7D\<close> by (auto simp: suffix_def)
  ultimately show ?thesis using False by (intro that [of ?p]) simp_all
qed


text \<open>A matcher of the two patterns, line by line.\<close>

definition line_engine :: regex_engine where
  "line_engine = \<lparr>is_match = (\<lambda>pat s. \<exists>l \<in> set (split_char newline s).
       pat = RE_PACKAGE \<and> prefix ''package '' l \<or> pat = RE_MAIN_FUNC \<and> prefix ''func main()'' l),
     first_captures = (\<lambda>_ _. [])\<rparr>"

lemma patterns_differ: "RE_PACKAGE \<noteq> RE_MAIN_FUNC"
  by (simp add: RE_PACKAGE_def RE_MAIN_FUNC_def)

lemma line_engine_ok: "regex_ok line_engine"
proof -
  have lines: "split_char newline (s @ [newline] @ t) = split_char newline s @ split_char newline t" for s t
    using split_char_append by simp
  have hd: "newline \<notin> set w \<Longrightarrow> prefix w (hd (split_char newline (w @ t)))" for w t
    by (induction w) (auto split: list.split)
  have first: "\<exists>l \<in> set (split_char newline (w @ t)). prefix w l" if "newline \<notin> set w" for w t
    using hd [OF that] hd_in_set [OF split_char_ne] by blast
  have pkg: "\<exists>l \<in> set (split_char newline ''package main''). prefix ''package '' l"
    using first [of "''package ''" "''main''"] by simp
  have main: "\<exists>l \<in> set (split_char newline (''func main() {'' @ t)). prefix ''func main()'' l" for t
    using first [of "''func main()''" "'' {'' @ t"] by simp
  have m:
    "is_match line_engine RE_PACKAGE s \<longleftrightarrow> (\<exists>l \<in> set (split_char newline s). prefix ''package '' l)"
    "is_match line_engine RE_MAIN_FUNC s \<longleftrightarrow> (\<exists>l \<in> set (split_char newline s). prefix ''func main()'' l)" for s
    using patterns_differ by (simp_all add: line_engine_def)
  have "\<not> is_match line_engine RE_MAIN_FUNC []"
    unfolding m by simp
  then show ?thesis
    unfolding regex_ok_def m(1) unfolding m(2) lines set_append bex_Un
    by (intro conjI allI impI) (rule disjI1, rule pkg | rule disjI2, rule main | erule disjI2)+
qed


end
